(* ===== verification/Prelude.thy ===== *)
theory Prelude
  imports Main "HOL-Library.AList" "HOL-Library.Char_ord" "HOL-Library.List_Lexorder"
    "HOL-Library.Product_Lexorder" "HOL-Library.Multiset"
begin

text \<open>
  Shared ground of the development. A Go \<open>string\<close> is a sequence of bytes, so it is an
  Isabelle \<open>string\<close> (a list of 8-bit \<open>char\<close>s) and \<open>length\<close> is Go's \<open>len\<close>. The theory holds
  the parts of the Go standard library the program uses on such strings (prefixes, index, split,
  join, replace, trimming by white space, UTF-8), decimal formatting, the error values of the
  program, and the generic lemmas the components share.
\<close>

named_theorems go_str \<open>facts on the string functions of the Go standard library\<close>
named_theorems go_len \<open>length bounds on the string functions\<close>

section \<open>Bytes and UTF-8\<close>

abbreviation byte :: "char \<Rightarrow> nat" where
  "byte c \<equiv> of_char c"

lemma bit_Suc_0_0 [simp]: "bit (Suc 0) 0"
  by (simp add: bit_1_iff flip: One_nat_def)

lemmas char_of_numeral [simp] = char_of_def [of "numeral k :: nat" for k]

text \<open>UTF-8 encoding of code points: how the Go compiler stores a string literal.\<close>

definition utf8_enc :: "nat \<Rightarrow> string" where
  "utf8_enc r =
     (if r < 0x80 then [char_of r]
      else if r < 0x800 then [char_of (0xC0 + r div 64), char_of (0x80 + r mod 64)]
      else if r < 0x10000 then
        [char_of (0xE0 + r div 4096), char_of (0x80 + r div 64 mod 64), char_of (0x80 + r mod 64)]
      else [char_of (0xF0 + r div 262144), char_of (0x80 + r div 4096 mod 64),
            char_of (0x80 + r div 64 mod 64), char_of (0x80 + r mod 64)])"

definition utf8 :: "nat list \<Rightarrow> string" where
  "utf8 rs = concat (map utf8_enc rs)"

definition is_cont :: "char \<Rightarrow> bool" where
  "is_cont c \<longleftrightarrow> 0x80 \<le> byte c \<and> byte c \<le> 0xBF"

text \<open>
  \<open>utf8.DecodeRune\<close>: the first rune of a byte sequence and its width; an invalid sequence gives
  \<open>RuneError\<close> (U+FFFD) with width 1, the empty one width 0.
\<close>

definition RuneError :: nat where
  "RuneError = 0xFFFD"

definition lo2 :: "nat \<Rightarrow> nat" where
  "lo2 b = (if b = 0xE0 then 0xA0 else if b = 0xF0 then 0x90 else 0x80)"

definition hi2 :: "nat \<Rightarrow> nat" where
  "hi2 b = (if b = 0xED then 0x9F else if b = 0xF4 then 0x8F else 0xBF)"

fun decode_rune :: "string \<Rightarrow> nat \<times> nat" where
  "decode_rune [] = (RuneError, 0)"
| "decode_rune (a # s) =
     (let x = byte a in
      if x < 0x80 then (x, 1)
      else if 0xC2 \<le> x \<and> x \<le> 0xDF then
        (case s of b # _ \<Rightarrow>
           if is_cont b then ((x - 0xC0) * 64 + (byte b - 0x80), 2) else (RuneError, 1)
         | [] \<Rightarrow> (RuneError, 1))
      else if 0xE0 \<le> x \<and> x \<le> 0xEF then
        (case s of b # c # _ \<Rightarrow>
           if lo2 x \<le> byte b \<and> byte b \<le> hi2 x \<and> is_cont c
           then ((x - 0xE0) * 4096 + (byte b - 0x80) * 64 + (byte c - 0x80), 3)
           else (RuneError, 1)
         | _ \<Rightarrow> (RuneError, 1))
      else if 0xF0 \<le> x \<and> x \<le> 0xF4 then
        (case s of b # c # d # _ \<Rightarrow>
           if lo2 x \<le> byte b \<and> byte b \<le> hi2 x \<and> is_cont c \<and> is_cont d
           then ((x - 0xF0) * 262144 + (byte b - 0x80) * 4096 + (byte c - 0x80) * 64
                   + (byte d - 0x80), 4)
           else (RuneError, 1)
         | _ \<Rightarrow> (RuneError, 1))
      else (RuneError, 1))"

lemma decode_rune_width:
  "s \<noteq> [] \<Longrightarrow> 0 < snd (decode_rune s) \<and> snd (decode_rune s) \<le> length s"
  by (cases s) (auto simp: Let_def split: list.splits)

lemma decode_rune_ascii: "byte c < 0x80 \<Longrightarrow> decode_rune (c # s) = (byte c, 1)"
  by simp

declare decode_rune.simps(2) [simp del]

text \<open>\<open>utf8.ValidString\<close>.\<close>

function utf8_valid :: "string \<Rightarrow> bool" where
  "utf8_valid s =
     (if s = [] then True
      else let (r, n) = decode_rune s in
        if r = RuneError \<and> n = 1 then False else utf8_valid (drop n s))"
  by pat_completeness auto
termination
proof (relation "measure length", goal_cases)
  case (2 s p r n)
  then have "snd (decode_rune s) = n" by (metis snd_conv)
  with 2 have "0 < n \<and> n \<le> length s"
    using decode_rune_width [of s] by auto
  with 2 show ?case by simp
qed simp

declare utf8_valid.simps [simp del]

lemma utf8_valid_ascii: "list_all (\<lambda>c. byte c < 128) s \<Longrightarrow> utf8_valid s"
proof (induction s)
  case (Cons c s)
  then show ?case by (simp add: utf8_valid.simps [of "c # s"] decode_rune_ascii RuneError_def)
qed (simp add: utf8_valid.simps)

section \<open>Prefixes, search, split and join\<close>

definition HasPrefix :: "string \<Rightarrow> string \<Rightarrow> bool" where
  "HasPrefix s p \<longleftrightarrow> take (length p) s = p"

lemma HasPrefix_iff: "HasPrefix s p \<longleftrightarrow> (\<exists>t. s = p @ t)"
  by (auto simp: HasPrefix_def) (metis append_take_drop_id)

lemma HasPrefix_append [simp, go_str]: "HasPrefix (p @ t) p"
  by (simp add: HasPrefix_def)

lemma HasPrefix_Nil [simp, go_str]: "HasPrefix s []"
  by (simp add: HasPrefix_def)

lemma HasPrefix_Cons [simp, go_str]: "HasPrefix (c # s) (d # p) \<longleftrightarrow> c = d \<and> HasPrefix s p"
  by (auto simp: HasPrefix_def)

lemma HasPrefix_Nil_Cons [simp, go_str]: "\<not> HasPrefix [] (d # p)"
  by (simp add: HasPrefix_def)

lemma HasPrefix_length: "HasPrefix s p \<Longrightarrow> length p \<le> length s"
  by (auto simp: HasPrefix_iff)

lemma HasPrefix_prefix_trans: "HasPrefix p w \<Longrightarrow> s = p @ t \<Longrightarrow> HasPrefix s w"
  by (auto simp: HasPrefix_iff)

definition TrimPrefix :: "string \<Rightarrow> string \<Rightarrow> string" where
  "TrimPrefix s p = (if HasPrefix s p then drop (length p) s else s)"

lemma TrimPrefix_append [simp, go_str]: "TrimPrefix (p @ t) p = t"
  by (simp add: TrimPrefix_def)

fun Index :: "string \<Rightarrow> string \<Rightarrow> nat option" where
  "Index [] sub = (if sub = [] then Some 0 else None)"
| "Index (c # s) sub =
     (if HasPrefix (c # s) sub then Some 0 else map_option Suc (Index s sub))"

definition Contains :: "string \<Rightarrow> string \<Rightarrow> bool" where
  "Contains s sub \<longleftrightarrow> Index s sub \<noteq> None"

lemma Index_Some_le: "Index s sub = Some i \<Longrightarrow> i \<le> length s"
  by (induction s arbitrary: i) (auto split: if_splits)

text \<open>\<open>strings.Cut\<close>: \<open>None\<close> when the separator is absent.\<close>

definition Cut :: "string \<Rightarrow> string \<Rightarrow> (string \<times> string) option" where
  "Cut s sep = (case Index s sep of None \<Rightarrow> None
     | Some i \<Rightarrow> Some (take i s, drop (i + length sep) s))"

text \<open>\<open>strings.Split\<close> for a non-empty separator.\<close>

function split_aux :: "string \<Rightarrow> string \<Rightarrow> string \<Rightarrow> string list" where
  "split_aux sep cur [] = [rev cur]"
| "split_aux sep cur (c # s) =
     (if sep \<noteq> [] \<and> HasPrefix (c # s) sep
      then rev cur # split_aux sep [] (drop (length sep) (c # s))
      else split_aux sep (c # cur) s)"
  by pat_completeness auto
termination
  by (relation "measure (\<lambda>(sep, cur, s). length s)") auto

definition Split :: "string \<Rightarrow> string \<Rightarrow> string list" where
  "Split s sep = split_aux sep [] s"

fun Join :: "string list \<Rightarrow> string \<Rightarrow> string" where
  "Join [] sep = []"
| "Join [x] sep = x"
| "Join (x # y # xs) sep = x @ sep @ Join (y # xs) sep"

lemma split_aux_not_Nil [simp]: "split_aux sep cur s \<noteq> []"
  by (induction sep cur s rule: split_aux.induct) auto

lemma Join_Cons: "xs \<noteq> [] \<Longrightarrow> Join (x # xs) sep = x @ sep @ Join xs sep"
  by (cases xs) auto

lemma Join_split_aux: "Join (split_aux sep cur s) sep = rev cur @ s"
proof (induction sep cur s rule: split_aux.induct)
  case (2 sep cur c s)
  show ?case
  proof (cases "sep \<noteq> [] \<and> HasPrefix (c # s) sep")
    case True
    then obtain t where t: "c # s = sep @ t" by (auto simp: HasPrefix_iff)
    then have d: "drop (length sep) (c # s) = t" by simp
    from True have "split_aux sep cur (c # s) = rev cur # split_aux sep [] t"
      by (simp only: split_aux.simps d if_True simp_thms)
    with 2(1) [OF True] d t show ?thesis by (simp add: Join_Cons)
  qed (use 2 in auto)
qed simp

lemma Join_Split [simp, go_str]: "Join (Split s sep) sep = s"
  by (simp add: Split_def Join_split_aux)

definition ReplaceAll :: "string \<Rightarrow> string \<Rightarrow> string \<Rightarrow> string" where
  "ReplaceAll s old new = Join (Split s old) new"

text \<open>\<open>strings.Repeat\<close>, and \<open>strings.TrimRight\<close> and \<open>strings.Trim\<close> with an ASCII cutset.\<close>

definition Repeat :: "string \<Rightarrow> nat \<Rightarrow> string" where
  "Repeat s n = concat (replicate n s)"

definition TrimRight :: "string \<Rightarrow> string \<Rightarrow> string" where
  "TrimRight s cs = rev (dropWhile (\<lambda>c. c \<in> set cs) (rev s))"

definition Trim :: "string \<Rightarrow> string \<Rightarrow> string" where
  "Trim s cs = TrimRight (dropWhile (\<lambda>c. c \<in> set cs) s) cs"

lemma TrimRight_length [go_len]: "length (TrimRight s cs) \<le> length s"
  by (simp add: TrimRight_def) (metis length_dropWhile_le length_rev)

abbreviation NL :: string where
  "NL \<equiv> [CHR 0x0A]"

section \<open>White space\<close>

text \<open>
  The UTF-8 encodings of the runes with \<open>unicode.IsSpace\<close>. A lead byte is never a continuation
  byte, so matching these byte sequences is the same as decoding runes one by one, also in text
  that is not valid UTF-8.
\<close>

definition ws_runes :: "string list" where
  "ws_runes =
     [[CHR 0x20], [CHR 0x09], [CHR 0x0A], [CHR 0x0B], [CHR 0x0C], [CHR 0x0D],
      [CHR 0xC2, CHR 0x85], [CHR 0xC2, CHR 0xA0], [CHR 0xE1, CHR 0x9A, CHR 0x80],
      [CHR 0xE2, CHR 0x80, CHR 0x80], [CHR 0xE2, CHR 0x80, CHR 0x81], [CHR 0xE2, CHR 0x80, CHR 0x82],
      [CHR 0xE2, CHR 0x80, CHR 0x83], [CHR 0xE2, CHR 0x80, CHR 0x84], [CHR 0xE2, CHR 0x80, CHR 0x85],
      [CHR 0xE2, CHR 0x80, CHR 0x86], [CHR 0xE2, CHR 0x80, CHR 0x87], [CHR 0xE2, CHR 0x80, CHR 0x88],
      [CHR 0xE2, CHR 0x80, CHR 0x89], [CHR 0xE2, CHR 0x80, CHR 0x8A], [CHR 0xE2, CHR 0x80, CHR 0xA8],
      [CHR 0xE2, CHR 0x80, CHR 0xA9], [CHR 0xE2, CHR 0x80, CHR 0xAF], [CHR 0xE2, CHR 0x81, CHR 0x9F],
      [CHR 0xE3, CHR 0x80, CHR 0x80]]"

definition tok_len :: "string list \<Rightarrow> string \<Rightarrow> nat" where
  "tok_len ws s = (case find (HasPrefix s) ws of None \<Rightarrow> 0 | Some w \<Rightarrow> length w)"

lemma tok_len_le: "tok_len ws s \<le> length s"
  by (auto simp: tok_len_def find_Some_iff split: option.splits dest!: HasPrefix_length)

lemma tok_len_Nil [simp]: "tok_len ws [] = 0"
  using tok_len_le [of ws "[]"] by simp

function strip_toks :: "string list \<Rightarrow> string \<Rightarrow> string" where
  "strip_toks ws s = (if tok_len ws s = 0 then s else strip_toks ws (drop (tok_len ws s) s))"
  by pat_completeness auto
termination
proof (relation "measure (\<lambda>(ws, s). length s)", goal_cases)
  case (2 ws s)
  then show ?case using tok_len_le [of ws s] by (cases s) auto
qed simp

declare strip_toks.simps [simp del]

definition TrimSpace :: "string \<Rightarrow> string" where
  "TrimSpace s = rev (strip_toks (map rev ws_runes) (rev (strip_toks ws_runes s)))"

lemma strip_toks_suffix: "\<exists>u. s = u @ strip_toks ws s"
proof (induction ws s rule: strip_toks.induct)
  case (1 ws s)
  show ?case
  proof (cases "tok_len ws s = 0")
    case True
    then show ?thesis by (simp add: strip_toks.simps [of ws s])
  next
    case False
    with 1 obtain u where "drop (tok_len ws s) s = u @ strip_toks ws s"
      by (auto simp: strip_toks.simps [of ws s])
    then have "s = (take (tok_len ws s) s @ u) @ strip_toks ws s"
      by (metis append.assoc append_take_drop_id)
    then show ?thesis by blast
  qed
qed

lemma strip_toks_done: "tok_len ws (strip_toks ws s) = 0"
proof (induction ws s rule: strip_toks.induct)
  case (1 ws s)
  then show ?case
    by (cases "tok_len ws s = 0") (simp_all add: strip_toks.simps [of ws s])
qed

lemma strip_toks_length [go_len]: "length (strip_toks ws s) \<le> length s"
  using strip_toks_suffix [of s ws] by (metis le_add2 length_append)

lemma strip_toks_Nil [simp]: "strip_toks ws [] = []"
  by (simp add: strip_toks.simps)

lemma TrimSpace_length [go_len]: "length (TrimSpace s) \<le> length s"
  unfolding TrimSpace_def
  by (metis length_rev order_trans strip_toks_length)

lemma TrimSpace_Nil [simp, go_str]: "TrimSpace [] = []"
  by (simp add: TrimSpace_def)

lemma tok_len_0_iff: "[] \<notin> set ws \<Longrightarrow> tok_len ws s = 0 \<longleftrightarrow> (\<forall>w \<in> set ws. \<not> HasPrefix s w)"
  by (induction ws) (auto simp: tok_len_def)

lemma tok_len_prefix: "tok_len ws (p @ t) = 0 \<Longrightarrow> [] \<notin> set ws \<Longrightarrow> tok_len ws p = 0"
  by (auto simp: tok_len_0_iff HasPrefix_iff)

lemma strip_toks_id: "tok_len ws s = 0 \<Longrightarrow> strip_toks ws s = s"
  by (simp add: strip_toks.simps)

lemma ws_runes_ne: "[] \<notin> set ws_runes" "[] \<notin> set (map rev ws_runes)"
  by (simp_all add: ws_runes_def)

lemma TrimSpace_idem [simp, go_str]: "TrimSpace (TrimSpace s) = TrimSpace s"
proof -
  let ?l = "strip_toks ws_runes s"
  let ?r = "strip_toks (map rev ws_runes) (rev ?l)"
  obtain u where u: "rev ?l = u @ ?r" using strip_toks_suffix by blast
  then have "?l = rev ?r @ rev u" by (metis rev_append rev_rev_ident)
  with strip_toks_done [of ws_runes s] have "tok_len ws_runes (rev ?r) = 0"
    by (metis tok_len_prefix ws_runes_ne(1))
  then have "strip_toks ws_runes (TrimSpace s) = rev ?r"
    by (simp add: TrimSpace_def strip_toks_id)
  then show ?thesis
    by (simp add: TrimSpace_def strip_toks_id strip_toks_done)
qed

text \<open>\<open>strings.Fields\<close>.\<close>

function fields_aux :: "string \<Rightarrow> string \<Rightarrow> string list" where
  "fields_aux cur [] = (if cur = [] then [] else [rev cur])"
| "fields_aux cur (c # s) =
     (if tok_len ws_runes (c # s) = 0 then fields_aux (c # cur) s
      else (if cur = [] then [] else [rev cur])
             @ fields_aux [] (drop (tok_len ws_runes (c # s)) (c # s)))"
  by pat_completeness auto
termination
  by (relation "measure (\<lambda>(cur, s). length s)") auto

definition Fields :: "string \<Rightarrow> string list" where
  "Fields s = fields_aux [] s"

lemma fields_aux_ne: "[] \<notin> set (fields_aux cur s)"
  by (induction cur s rule: fields_aux.induct) auto

section \<open>Decimal text\<close>

text \<open>\<open>%d\<close> and \<open>strconv.Itoa\<close>.\<close>

fun dec_nat :: "nat \<Rightarrow> string" where
  "dec_nat n = (if n < 10 then [char_of (48 + n)] else dec_nat (n div 10) @ [char_of (48 + n mod 10)])"

declare dec_nat.simps [simp del]

definition dec_int :: "int \<Rightarrow> string" where
  "dec_int i = (if i < 0 then ''-'' @ dec_nat (nat (- i)) else dec_nat (nat i))"

definition is_digit :: "char \<Rightarrow> bool" where
  "is_digit c \<longleftrightarrow> 48 \<le> byte c \<and> byte c \<le> 57"

definition digits_val :: "string \<Rightarrow> nat" where
  "digits_val s = foldl (\<lambda>n c. n * 10 + (byte c - 48)) 0 s"

lemma byte_char_of [simp]: "n < 256 \<Longrightarrow> byte (char_of n :: char) = n"
  by (simp add: of_char_of)

lemma dec_nat_ne [simp]: "dec_nat n \<noteq> []"
  by (subst dec_nat.simps) simp

lemma dec_nat_digits: "c \<in> set (dec_nat n) \<Longrightarrow> is_digit c"
proof (induction n arbitrary: c rule: dec_nat.induct)
  case (1 n)
  then show ?case
    by (subst (asm) (2) dec_nat.simps) (auto simp: is_digit_def split: if_splits)
qed

lemma digits_val_dec_nat: "digits_val (dec_nat n) = n"
proof (induction n rule: dec_nat.induct)
  case (1 n)
  show ?case
  proof (cases "n < 10")
    case True
    then show ?thesis by (subst dec_nat.simps) (simp add: digits_val_def)
  next
    case False
    then have "dec_nat n = dec_nat (n div 10) @ [char_of (48 + n mod 10)]"
      by (subst dec_nat.simps) simp
    with 1 False show ?thesis by (simp add: digits_val_def)
  qed
qed

section \<open>Time\<close>

text \<open>
  An instant is an integer: nanoseconds since Go's zero time, so \<open>IsZero\<close> is equality with 0.
  A \<open>time.Duration\<close> is a number of nanoseconds.
\<close>

type_synonym time = int

abbreviation sec :: int where
  "sec \<equiv> 1000000000"

section \<open>Error values\<close>

text \<open>
  \<open>Errorf\<close> is an error made by \<open>fmt.Errorf\<close> or \<open>errors.New\<close> without a wrapped cause,
  \<open>Wrapf p e\<close> is \<open>fmt.Errorf("p: %w", e)\<close>; the other constructors are the sentinel errors
  and the error types the code distinguishes.
\<close>

datatype go_error =
    Errorf string
  | Wrapf string go_error
  | ErrMaxStepsReached
  | ErrEmptyAssistantResponse
  | ErrRateLimited
  | ErrInvalidState
  | ErrUpstreamTimeout
  | ErrServerClosed
  | ContextCanceled
  | DeadlineExceeded
  | SimpleUserError string
  | ReauthorizeError string

fun Error :: "go_error \<Rightarrow> string" where
  "Error (Errorf m) = m"
| "Error (Wrapf p e) = p @ '': '' @ Error e"
| "Error ErrMaxStepsReached = ''agent: reached max steps''"
| "Error ErrEmptyAssistantResponse = ''agent: empty assistant response''"
| "Error ErrRateLimited = ''feishu: card update rate-limited''"
| "Error ErrInvalidState = ''invalid state''"
| "Error ErrUpstreamTimeout = ''upstream timeout''"
| "Error ErrServerClosed = ''http: Server closed''"
| "Error ContextCanceled = ''context canceled''"
| "Error DeadlineExceeded = ''context deadline exceeded''"
| "Error (SimpleUserError m) = m"
| "Error (ReauthorizeError u) =
     (if u = [] then ''reauthorization required'' else ''reauthorization required: '' @ u)"

text \<open>\<open>errors.Is\<close>: the error itself or one it wraps.\<close>

fun errors_Is :: "go_error \<Rightarrow> go_error \<Rightarrow> bool" where
  "errors_Is (Wrapf p e) t \<longleftrightarrow> Wrapf p e = t \<or> errors_Is e t"
| "errors_Is e t \<longleftrightarrow> e = t"

text \<open>The helper \<open>truncate\<close> (internal/agent/loop.go and internal/render/state.go).\<close>

definition ellipsis :: string where
  "ellipsis = utf8 [0x2026]"

definition truncate_str :: "string \<Rightarrow> nat \<Rightarrow> string" where
  "truncate_str s n = (if length s \<le> n then s else take n s @ ellipsis)"

lemma length_ellipsis [simp]: "length ellipsis = 3"
  by (simp add: ellipsis_def utf8_def utf8_enc_def)

lemma truncate_length [go_len]: "length (truncate_str s n) \<le> n + 3"
  by (simp add: truncate_str_def)

lemma truncate_id [simp]: "length s \<le> n \<Longrightarrow> truncate_str s n = s"
  by (simp add: truncate_str_def)

section \<open>Lists and maps\<close>

text \<open>
  A Go map is an association list with distinct keys: \<open>AList.update\<close> is \<open>m[k] = v\<close>,
  \<open>AList.delete\<close> is \<open>delete(m, k)\<close>, \<open>map_of\<close> the lookup. Go iterates over a map in an
  unspecified order; where the order can be observed it is a parameter of the definition.
  \<open>List_Lexorder\<close> on \<open>Char_ord\<close> is Go's byte-wise order on strings.
\<close>

type_synonym 'v gomap = "(string \<times> 'v) list"

abbreviation keys_ok :: "('k \<times> 'v) list \<Rightarrow> bool" where
  "keys_ok m \<equiv> distinct (map fst m)"

lemma keys_ok_update [simp, intro]: "keys_ok m \<Longrightarrow> keys_ok (AList.update k v m)"
  by (rule AList.distinct_update)

lemma keys_ok_delete [simp, intro]: "keys_ok m \<Longrightarrow> keys_ok (AList.delete k m)"
  by (rule AList.distinct_delete)

lemma keys_ok_filter [simp, intro]: "keys_ok m \<Longrightarrow> keys_ok (filter P m)"
  by (simp add: distinct_map_filter)

lemma map_of_filter_key: "map_of (filter (\<lambda>(k, v). P k) m) k = (if P k then map_of m k else None)"
  by (induction m) auto

lemma map_of_mset_eq: "keys_ok m \<Longrightarrow> mset m' = mset m \<Longrightarrow> map_of m' = map_of m"
proof -
  assume "keys_ok m" and eq: "mset m' = mset m"
  then have "keys_ok m'"
    by (metis mset_map mset_eq_imp_distinct_iff)
  moreover have "set m' = set m" using eq by (rule mset_eq_setD)
  ultimately show ?thesis using \<open>keys_ok m\<close> by (simp add: map_of_inject_set)
qed

lemma set_update_cases: "p \<in> set (AList.update k v m) \<Longrightarrow> p = (k, v) \<or> p \<in> set m"
  by (induction m) (auto split: if_splits)

end
