(* ===== verification/Llm.thy ===== *)
theory Llm
  imports Prelude "HOL-Library.Word"
begin

text \<open>
  internal/llm: the message, request and stream event types (types.go), the provider registry
  (provider.go), the translation of the model library's chunk stream into stream events, the
  conversion of messages and the scripted provider (eino_adapter.go).
\<close>

section \<open>Messages, requests and events (types.go)\<close>

type_synonym role = string

definition RoleUser :: role where "RoleUser = ''user''"
definition RoleAssistant :: role where "RoleAssistant = ''assistant''"
definition RoleTool :: role where "RoleTool = ''tool''"

lemma Role_distinct [simp]:
  "RoleUser \<noteq> RoleAssistant" "RoleAssistant \<noteq> RoleUser" "RoleUser \<noteq> RoleTool"
  "RoleTool \<noteq> RoleUser" "RoleAssistant \<noteq> RoleTool" "RoleTool \<noteq> RoleAssistant"
  by (simp_all add: RoleUser_def RoleAssistant_def RoleTool_def)

record tool_call =
  tcID :: string
  tcName :: string
  tcArguments :: string

record message =
  msgRole :: role
  msgContent :: string
  msgThinking :: string
  msgToolCalls :: "tool_call list"
  msgToolCallID :: string
  msgName :: string
  msgIsError :: bool

text \<open>The zero value of a Go struct has empty fields; a composite literal sets some of them.\<close>

definition message_zero :: message where
  "message_zero = \<lparr>msgRole = [], msgContent = [], msgThinking = [], msgToolCalls = [],
     msgToolCallID = [], msgName = [], msgIsError = False\<rparr>"

record tool_spec =
  tsName :: string
  tsDescription :: string
  tsInputSchema :: string

record usage =
  InputTokens :: int
  OutputTokens :: int

text \<open>A \<open>*float32\<close> is the bit pattern of the number, or \<open>None\<close>.\<close>

record chat_request =
  crSystem :: string
  crMessages :: "message list"
  crTools :: "tool_spec list"
  crModel :: string
  crTemperature :: "32 word option"
  crMaxTokens :: int
  crEnableThinking :: bool

text \<open>
  The event types; \<open>EventOther\<close> is any other value of the string type \<open>StreamEventType\<close>,
  which every switch of the program ignores.
\<close>

datatype stream_event_type =
    EventThinkingDelta
  | EventTextDelta
  | EventToolCallStart
  | EventToolCallArgs
  | EventToolCallEnd
  | EventMessageEnd
  | EventError
  | EventOther string

record stream_event =
  evType :: stream_event_type
  evText :: string
  evToolCallID :: string
  evToolName :: string
  evArgsDelta :: string
  evStopReason :: string
  evUsage :: usage
  evErr :: "go_error option"

definition usage_zero :: usage where
  "usage_zero = \<lparr>InputTokens = 0, OutputTokens = 0\<rparr>"

definition event :: "stream_event_type \<Rightarrow> stream_event" where
  "event t = \<lparr>evType = t, evText = [], evToolCallID = [], evToolName = [], evArgsDelta = [],
     evStopReason = [], evUsage = usage_zero, evErr = None\<rparr>"

lemma event_sel [simp]:
  "evType (event t) = t" "evText (event t) = []" "evToolCallID (event t) = []"
  "evToolName (event t) = []" "evArgsDelta (event t) = []" "evErr (event t) = None"
  by (simp_all add: event_def)

text \<open>
  A provider: its alias and its \<open>Stream\<close> method, on an external world \<open>'w\<close>. The events a
  successful call delivers before its channel is closed are a finite list.
\<close>

record 'w provider =
  provName :: string
  provStream :: "chat_request \<Rightarrow> 'w \<Rightarrow> 'w \<times> (go_error + stream_event list)"

section \<open>The provider registry (provider.go)\<close>

record model_profile =
  mpAlias :: string
  mpType :: string
  mpModel :: string
  mpAPIKeyEnv :: string
  mpBaseURL :: string
  mpEnableThinking :: bool
  mpMaxTokens :: int
  mpTemperature :: "32 word option"

record 'w llm_registry =
  lrProviders :: "'w provider gomap"
  lrDefault :: string

definition profile_enabled :: "(string \<Rightarrow> string) \<Rightarrow> model_profile \<Rightarrow> bool" where
  "profile_enabled getenv p \<longleftrightarrow> \<not> (mpAPIKeyEnv p \<noteq> [] \<and> getenv (mpAPIKeyEnv p) = [])"

fun register_profiles ::
  "(string \<Rightarrow> string) \<Rightarrow> (model_profile \<Rightarrow> go_error + 'w provider) \<Rightarrow> 'w provider gomap \<Rightarrow>
   model_profile list \<Rightarrow> 'w provider gomap" where
  "register_profiles getenv factory m [] = m"
| "register_profiles getenv factory m (p # ps) =
     (if \<not> profile_enabled getenv p then register_profiles getenv factory m ps
      else case factory p of
        Inl err \<Rightarrow> register_profiles getenv factory m ps
      | Inr prov \<Rightarrow> register_profiles getenv factory (AList.update (mpAlias p) prov m) ps)"

definition llm_NewRegistry ::
  "(string \<Rightarrow> string) \<Rightarrow> (string \<Rightarrow> string) \<Rightarrow> string \<Rightarrow> model_profile list \<Rightarrow>
   (model_profile \<Rightarrow> go_error + 'w provider) \<Rightarrow> go_error + 'w llm_registry" where
  "llm_NewRegistry quote getenv defaultAlias profiles factory =
     (let r = \<lparr>lrProviders = register_profiles getenv factory [] profiles,
               lrDefault = defaultAlias\<rparr>
      in if map_of (lrProviders r) defaultAlias = None
         then Inl (Errorf (''default llm provider '' @ quote defaultAlias @
                           '' is not available (check API key env var)''))
         else Inr r)"

definition llm_Get :: "'w llm_registry \<Rightarrow> string \<Rightarrow> 'w provider option" where
  "llm_Get r alias = map_of (lrProviders r) alias"

definition llm_Default :: "'w llm_registry \<Rightarrow> 'w provider option" where
  "llm_Default r = map_of (lrProviders r) (lrDefault r)"

definition llm_Names :: "'w llm_registry \<Rightarrow> string list" where
  "llm_Names r = sort (map fst (lrProviders r))"

definition llm_Resolve :: "'w llm_registry \<Rightarrow> string \<Rightarrow> 'w provider option" where
  "llm_Resolve r alias =
     (if alias \<noteq> [] \<and> map_of (lrProviders r) alias \<noteq> None
      then map_of (lrProviders r) alias
      else llm_Default r)"

lemma register_profiles_keys:
  "keys_ok m \<Longrightarrow> keys_ok (register_profiles getenv factory m ps)"
  by (induction ps arbitrary: m) (auto split: sum.splits)

lemma register_profiles_None:
  "map_of (register_profiles getenv factory m ps) a = None \<Longrightarrow>
   map_of m a = None \<and>
   (\<forall>p \<in> set ps. mpAlias p = a \<longrightarrow> \<not> profile_enabled getenv p \<or> (\<exists>e. factory p = Inl e))"
proof (induction ps arbitrary: m)
  case (Cons p ps)
  then show ?case
    by (cases "factory p")
       (auto simp: update_conv split: if_splits dest!: Cons.IH)
qed simp

lemma register_profiles_source:
  "map_of (register_profiles getenv factory m ps) a = Some v \<Longrightarrow>
   map_of m a = Some v \<or>
   (\<exists>p \<in> set ps. mpAlias p = a \<and> profile_enabled getenv p \<and> factory p = Inr v)"
proof (induction ps arbitrary: m)
  case (Cons p ps)
  then show ?case
    by (cases "factory p")
       (auto simp: update_conv split: if_splits dest!: Cons.IH)
qed simp

section \<open>From model chunks to stream events (eino_adapter.go)\<close>

text \<open>
  The fields of the model library's \<open>schema.Message\<close> chunk that \<open>translateStream\<close> reads. What
  \<open>reader.Recv\<close> delivers is a list of chunks (\<open>None\<close> is a nil chunk) and how the stream ends.
\<close>

record chunk_tool_call =
  ctIndex :: "int option"
  ctID :: string
  ctName :: string
  ctArguments :: string

record chunk =
  ckReasoningContent :: string
  ckContent :: string
  ckToolCalls :: "chunk_tool_call list"
  ckMeta :: "(usage option \<times> string) option"

datatype recv_end = RecvEOF | RecvErr go_error

record partial_tc =
  ptID :: string
  ptName :: string
  ptArgsSeen :: string

record translate_state =
  seenTool :: "string list"
  byIndex :: "(int \<times> partial_tc) list"
  finalUsage :: usage
  finalReason :: string

definition translate_init :: translate_state where
  "translate_init = \<lparr>seenTool = [], byIndex = [], finalUsage = usage_zero, finalReason = []\<rparr>"

text \<open>
  One tool call of a chunk: the index and the partial call the chunk belongs to, with the
  identifier and the name filled in when the chunk is the first to bring them; then the new state
  and the events sent.
\<close>

definition tc_index :: "chunk_tool_call \<Rightarrow> int" where
  "tc_index tc = (case ctIndex tc of None \<Rightarrow> 0 | Some i \<Rightarrow> i)"

definition tc_partial :: "translate_state \<Rightarrow> chunk_tool_call \<Rightarrow> partial_tc" where
  "tc_partial st tc =
     (let cur0 = (case map_of (byIndex st) (tc_index tc) of
                    Some c \<Rightarrow> c | None \<Rightarrow> \<lparr>ptID = [], ptName = [], ptArgsSeen = []\<rparr>);
          cur1 = (if ctID tc \<noteq> [] \<and> ptID cur0 = [] then cur0\<lparr>ptID := ctID tc\<rparr> else cur0)
      in if ctName tc \<noteq> [] \<and> ptName cur1 = [] then cur1\<lparr>ptName := ctName tc\<rparr> else cur1)"

definition translate_tool_call ::
  "translate_state \<Rightarrow> chunk_tool_call \<Rightarrow> translate_state \<times> stream_event list" where
  "translate_tool_call st tc =
     (let cur = tc_partial st tc;
          fire = (ptID cur \<noteq> [] \<and> ptName cur \<noteq> [] \<and> ptID cur \<notin> set (seenTool st));
          seen' = (if fire then ptID cur # seenTool st else seenTool st);
          start = (if fire then
                     [(event EventToolCallStart)\<lparr>evToolCallID := ptID cur, evToolName := ptName cur\<rparr>]
                   else []);
          cur' = (if ctArguments tc \<noteq> []
                  then cur\<lparr>ptArgsSeen := ptArgsSeen cur @ ctArguments tc\<rparr> else cur);
          args = (if ctArguments tc \<noteq> [] \<and> ptID cur \<noteq> [] then
                    [(event EventToolCallArgs)\<lparr>evToolCallID := ptID cur, evToolName := ptName cur,
                       evArgsDelta := ctArguments tc\<rparr>]
                  else [])
      in (st\<lparr>seenTool := seen', byIndex := AList.update (tc_index tc) cur' (byIndex st)\<rparr>, start @ args))"

fun translate_tool_calls ::
  "translate_state \<Rightarrow> chunk_tool_call list \<Rightarrow> translate_state \<times> stream_event list" where
  "translate_tool_calls st [] = (st, [])"
| "translate_tool_calls st (tc # tcs) =
     (let (st1, e1) = translate_tool_call st tc; (st2, e2) = translate_tool_calls st1 tcs
      in (st2, e1 @ e2))"

definition translate_meta :: "translate_state \<Rightarrow> chunk \<Rightarrow> translate_state" where
  "translate_meta st ck =
     (case ckMeta ck of None \<Rightarrow> st
      | Some (u, reason) \<Rightarrow>
          (let st1 = (case u of None \<Rightarrow> st | Some us \<Rightarrow> st\<lparr>finalUsage := us\<rparr>)
           in if reason \<noteq> [] then st1\<lparr>finalReason := reason\<rparr> else st1))"

definition translate_chunk ::
  "translate_state \<Rightarrow> chunk \<Rightarrow> translate_state \<times> stream_event list" where
  "translate_chunk st ck =
     (let think = (if ckReasoningContent ck \<noteq> []
                   then [(event EventThinkingDelta)\<lparr>evText := ckReasoningContent ck\<rparr>] else []);
          txt = (if ckContent ck \<noteq> []
                 then [(event EventTextDelta)\<lparr>evText := ckContent ck\<rparr>] else []);
          (st1, tools) = translate_tool_calls st (ckToolCalls ck)
      in (translate_meta st1 ck, think @ txt @ tools))"

text \<open>
  The whole loop. \<open>ends\<close> is the order in which the final iteration over the map \<open>byIndex\<close>
  visits its entries.
\<close>

fun translate_loop ::
  "((int \<times> partial_tc) list \<Rightarrow> (int \<times> partial_tc) list) \<Rightarrow> translate_state \<Rightarrow>
   chunk option list \<Rightarrow> recv_end \<Rightarrow> stream_event list" where
  "translate_loop ends st [] RecvEOF =
     map (\<lambda>(i, tc). (event EventToolCallEnd)\<lparr>evToolCallID := ptID tc, evToolName := ptName tc\<rparr>)
       (ends (byIndex st))
     @ [(event EventMessageEnd)\<lparr>evUsage := finalUsage st, evStopReason := finalReason st\<rparr>]"
| "translate_loop ends st [] (RecvErr err) = [(event EventError)\<lparr>evErr := Some err\<rparr>]"
| "translate_loop ends st (None # cks) fin = translate_loop ends st cks fin"
| "translate_loop ends st (Some ck # cks) fin =
     (let (st1, evs) = translate_chunk st ck in evs @ translate_loop ends st1 cks fin)"

definition translateStream ::
  "((int \<times> partial_tc) list \<Rightarrow> (int \<times> partial_tc) list) \<Rightarrow>
   chunk option list \<Rightarrow> recv_end \<Rightarrow> stream_event list" where
  "translateStream ends cks fin = translate_loop ends translate_init cks fin"

definition is_terminator :: "stream_event \<Rightarrow> bool" where
  "is_terminator e \<longleftrightarrow> evType e = EventMessageEnd \<or> evType e = EventError"

lemma translate_tool_call_types:
  "translate_tool_call st tc = (st', evs) \<Longrightarrow> e \<in> set evs \<Longrightarrow>
   evType e = EventToolCallStart \<or> evType e = EventToolCallArgs"
  by (auto simp: translate_tool_call_def Let_def split: if_splits)

lemma translate_tool_calls_types:
  "translate_tool_calls st tcs = (st', evs) \<Longrightarrow> e \<in> set evs \<Longrightarrow>
   evType e = EventToolCallStart \<or> evType e = EventToolCallArgs"
  by (induction tcs arbitrary: st st' evs)
     (auto simp: Let_def split: prod.splits dest: translate_tool_call_types)

lemma translate_chunk_no_terminator:
  "translate_chunk st ck = (st', evs) \<Longrightarrow> e \<in> set evs \<Longrightarrow> \<not> is_terminator e"
  by (auto simp: translate_chunk_def Let_def is_terminator_def split: prod.splits if_splits
      dest!: translate_tool_calls_types)

lemma translate_loop_terminator:
  "\<exists>evs t. translate_loop ends st cks fin = evs @ [t] \<and> is_terminator t
     \<and> (evType t = EventMessageEnd \<longleftrightarrow> fin = RecvEOF)
     \<and> (\<forall>e \<in> set evs. \<not> is_terminator e)"
proof (induction ends st cks fin rule: translate_loop.induct)
  case (1 ends st)
  show ?case by (auto simp: is_terminator_def)
next
  case (2 ends st err)
  show ?case by (auto simp: is_terminator_def)
next
  case (3 ends st cks fin)
  then show ?case by simp
next
  case (4 ends st ck cks fin)
  obtain st1 evs1 where c: "translate_chunk st ck = (st1, evs1)" by fastforce
  from 4 [OF c [symmetric] refl] obtain evs t where
    "translate_loop ends st1 cks fin = evs @ [t]" "is_terminator t"
    "evType t = EventMessageEnd \<longleftrightarrow> fin = RecvEOF" "\<forall>e \<in> set evs. \<not> is_terminator e"
    by blast
  with c show ?case
    by (intro exI [of _ "evs1 @ evs"] exI [of _ t])
       (auto dest: translate_chunk_no_terminator)
qed

text \<open>The text and the reasoning reach the consumer unchanged and in order.\<close>

definition text_of :: "stream_event list \<Rightarrow> string" where
  "text_of evs = concat (map evText (filter (\<lambda>e. evType e = EventTextDelta) evs))"

definition thinking_of :: "stream_event list \<Rightarrow> string" where
  "thinking_of evs = concat (map evText (filter (\<lambda>e. evType e = EventThinkingDelta) evs))"

lemma text_of_append [simp]: "text_of (xs @ ys) = text_of xs @ text_of ys"
  by (simp add: text_of_def)

lemma thinking_of_append [simp]: "thinking_of (xs @ ys) = thinking_of xs @ thinking_of ys"
  by (simp add: thinking_of_def)

lemma text_of_none: "(\<And>e. e \<in> set evs \<Longrightarrow> evType e \<noteq> EventTextDelta) \<Longrightarrow> text_of evs = []"
  by (induction evs) (auto simp: text_of_def)

lemma thinking_of_none:
  "(\<And>e. e \<in> set evs \<Longrightarrow> evType e \<noteq> EventThinkingDelta) \<Longrightarrow> thinking_of evs = []"
  by (induction evs) (auto simp: thinking_of_def)

lemma translate_chunk_text:
  "translate_chunk st ck = (st', evs) \<Longrightarrow>
   text_of evs = ckContent ck \<and> thinking_of evs = ckReasoningContent ck"
proof -
  assume c: "translate_chunk st ck = (st', evs)"
  obtain st1 tools where t: "translate_tool_calls st (ckToolCalls ck) = (st1, tools)" by fastforce
  then have "text_of tools = []" "thinking_of tools = []"
    by (force intro: text_of_none thinking_of_none dest: translate_tool_calls_types)+
  with c t show ?thesis
    by (auto simp: translate_chunk_def Let_def) (simp_all add: text_of_def thinking_of_def)
qed

lemma translate_loop_text:
  "text_of (translate_loop ends st cks fin) = concat (map ckContent (List.map_filter id cks))
   \<and> thinking_of (translate_loop ends st cks fin)
       = concat (map ckReasoningContent (List.map_filter id cks))"
proof (induction ends st cks fin rule: translate_loop.induct)
  case (1 ends st)
  have "text_of (map f xs) = []" "thinking_of (map f xs) = []"
    if "\<And>x. evType (f x) = EventToolCallEnd" for f and xs :: "(int \<times> partial_tc) list"
    using that by (induction xs) (simp_all add: text_of_def thinking_of_def)
  then show ?case
    by (simp add: case_prod_beta List.map_filter_simps) (simp add: text_of_def thinking_of_def)
next
  case (2 ends st err)
  show ?case by (simp add: text_of_def thinking_of_def List.map_filter_simps)
next
  case (3 ends st cks fin)
  then show ?case by (simp add: List.map_filter_simps)
next
  case (4 ends st ck cks fin)
  obtain st1 evs1 where c: "translate_chunk st ck = (st1, evs1)" by fastforce
  from 4 [OF c [symmetric] refl] c translate_chunk_text [OF c] show ?case
    by (simp add: List.map_filter_simps)
qed

section \<open>Messages for the model library\<close>

datatype eino_role = EinoSystem | EinoUser | EinoAssistant | EinoTool

record eino_tool_call =
  etID :: string
  etType :: string
  etName :: string
  etArguments :: string

record eino_message =
  emRole :: eino_role
  emContent :: string
  emName :: string
  emReasoningContent :: string
  emToolCallID :: string
  emToolCalls :: "eino_tool_call list"

definition roleToEino :: "role \<Rightarrow> eino_role" where
  "roleToEino r =
     (if r = RoleUser then EinoUser
      else if r = RoleAssistant then EinoAssistant
      else if r = RoleTool then EinoTool
      else EinoUser)"

definition toEinoMessage :: "message \<Rightarrow> eino_message" where
  "toEinoMessage m =
     \<lparr>emRole = roleToEino (msgRole m), emContent = msgContent m, emName = msgName m,
      emReasoningContent =
        (if msgThinking m \<noteq> [] \<and> msgRole m = RoleAssistant then msgThinking m else []),
      emToolCallID = msgToolCallID m,
      emToolCalls = map (\<lambda>tc. \<lparr>etID = tcID tc, etType = ''function'', etName = tcName tc,
                                etArguments = tcArguments tc\<rparr>) (msgToolCalls m)\<rparr>"

definition toEinoMessages :: "chat_request \<Rightarrow> eino_message list" where
  "toEinoMessages req =
     (if TrimSpace (crSystem req) \<noteq> []
      then [\<lparr>emRole = EinoSystem, emContent = crSystem req, emName = [],
             emReasoningContent = [], emToolCallID = [], emToolCalls = []\<rparr>] else [])
     @ map toEinoMessage (crMessages req)"

text \<open>
  Tool descriptions: the JSON decoding of the schema into the schema library's type is a
  parameter, \<open>parse\<close>.
\<close>

record 'js eino_tool_info =
  tiName :: string
  tiDesc :: string
  tiParams :: "'js option"

fun toEinoTools ::
  "(string \<Rightarrow> string) \<Rightarrow> (string \<Rightarrow> go_error + 'js) \<Rightarrow> tool_spec list \<Rightarrow>
   go_error + 'js eino_tool_info list" where
  "toEinoTools quote parse [] = Inr []"
| "toEinoTools quote parse (t # ts) =
     (let rest = (\<lambda>js. case toEinoTools quote parse ts of Inl e \<Rightarrow> Inl e
                   | Inr is \<Rightarrow> Inr (\<lparr>tiName = tsName t, tiDesc = tsDescription t, tiParams = js\<rparr> # is))
      in if tsInputSchema t \<noteq> [] then
           (case parse (tsInputSchema t) of
              Inl e \<Rightarrow> Inl (Wrapf (''tool '' @ quote (tsName t) @ '': parse input schema'') e)
            | Inr js \<Rightarrow> rest (Some js))
         else rest None)"

section \<open>The adapter as a provider, and the scripted provider\<close>

text \<open>
  \<open>EinoAdapter.Stream\<close>. The model library's \<open>model.Stream\<close> is a parameter: it takes the
  converted messages and the options the adapter sets and yields the chunk stream.
\<close>

record 'js model_options =
  moModel :: "string option"
  moTemperature :: "32 word option"
  moMaxTokens :: "int option"
  moTools :: "'js eino_tool_info list option"

definition adapter_Stream ::
  "(string \<Rightarrow> string) \<Rightarrow> (string \<Rightarrow> go_error + 'js) \<Rightarrow>
   (eino_message list \<Rightarrow> 'js model_options \<Rightarrow> 'w \<Rightarrow>
      'w \<times> (go_error + (chunk option list \<times> recv_end))) \<Rightarrow>
   ((int \<times> partial_tc) list \<Rightarrow> (int \<times> partial_tc) list) \<Rightarrow>
   chat_request \<Rightarrow> 'w \<Rightarrow> 'w \<times> (go_error + stream_event list)" where
  "adapter_Stream quote parse modelStream ends req w =
     (let opts0 = \<lparr>moModel = (if crModel req \<noteq> [] then Some (crModel req) else None),
                   moTemperature = crTemperature req,
                   moMaxTokens = (if crMaxTokens req > 0 then Some (crMaxTokens req) else None),
                   moTools = None\<rparr>;
          opts = (if crTools req = [] then Inr opts0
                  else case toEinoTools quote parse (crTools req) of
                    Inl e \<Rightarrow> Inl (Wrapf ''convert tools'' e)
                  | Inr is \<Rightarrow> Inr (opts0\<lparr>moTools := Some is\<rparr>))
      in case opts of Inl e \<Rightarrow> (w, Inl e)
         | Inr os \<Rightarrow>
             (case modelStream (toEinoMessages req) os w of
                (w', Inl e) \<Rightarrow> (w', Inl (Wrapf ''eino stream'' e))
              | (w', Inr (cks, fin)) \<Rightarrow> (w', Inr (translateStream ends cks fin))))"

text \<open>
  \<open>FakeProvider.Stream\<close> on its script, one list of events per call. \<open>cancel\<close> is the position at
  which the sending goroutine sees the context cancelled, if it does.
\<close>

definition fake_events :: "(nat \<times> go_error) option \<Rightarrow> stream_event list \<Rightarrow> stream_event list" where
  "fake_events cancel evs =
     (case cancel of None \<Rightarrow> evs
      | Some (i, err) \<Rightarrow>
          if i < length evs then take i evs @ [(event EventError)\<lparr>evErr := Some err\<rparr>] else evs)"

fun fake_Stream ::
  "(nat \<times> go_error) option \<Rightarrow> chat_request \<Rightarrow> stream_event list list \<Rightarrow>
   stream_event list list \<times> (go_error + stream_event list)" where
  "fake_Stream cancel req [] = ([], Inl (Errorf ''fake provider: script exhausted''))"
| "fake_Stream cancel req (evs # script) = (script, Inr (fake_events cancel evs))"

section \<open>Properties\<close>

text \<open>The identifiers of the tool calls announced.\<close>

definition starts_of :: "stream_event list \<Rightarrow> string list" where
  "starts_of evs = map evToolCallID (filter (\<lambda>e. evType e = EventToolCallStart) evs)"

lemma starts_of_simps [simp]:
  "starts_of [] = []"
  "starts_of (e # evs) = (if evType e = EventToolCallStart then [evToolCallID e] else []) @ starts_of evs"
  by (simp_all add: starts_of_def)

lemma starts_of_append [simp]: "starts_of (xs @ ys) = starts_of xs @ starts_of ys"
  by (simp add: starts_of_def)

definition fresh_starts :: "translate_state \<Rightarrow> translate_state \<Rightarrow> stream_event list \<Rightarrow> bool" where
  "fresh_starts st st' evs \<longleftrightarrow> distinct (starts_of evs) \<and> set (starts_of evs) \<inter> set (seenTool st) = {}
     \<and> set (seenTool st') = set (seenTool st) \<union> set (starts_of evs)"

lemma fresh_starts_trans:
  "fresh_starts a b xs \<Longrightarrow> fresh_starts b c ys \<Longrightarrow> fresh_starts a c (xs @ ys)"
  by (auto simp: fresh_starts_def)

lemma fresh_starts_call:
  "translate_tool_call st tc = (st', evs) \<Longrightarrow> fresh_starts st st' evs"
  by (cases "ptID (tc_partial st tc) \<noteq> [] \<and> ptName (tc_partial st tc) \<noteq> []
        \<and> ptID (tc_partial st tc) \<notin> set (seenTool st)"; cases "ctArguments tc = []"; cases "ptID (tc_partial st tc) = []")
    (auto simp: translate_tool_call_def Let_def fresh_starts_def)

lemma fresh_starts_calls:
  "translate_tool_calls st tcs = (st', evs) \<Longrightarrow> fresh_starts st st' evs"
proof (induction tcs arbitrary: st evs)
  case Nil
  then show ?case by (simp add: fresh_starts_def starts_of_def)
next
  case (Cons tc tcs)
  then show ?case
    by (auto split: prod.splits intro: fresh_starts_trans fresh_starts_call)
qed

lemma fresh_starts_chunk: "translate_chunk st ck = (st', evs) \<Longrightarrow> fresh_starts st st' evs"
proof -
  assume c: "translate_chunk st ck = (st', evs)"
  obtain st1 ts where t: "translate_tool_calls st (ckToolCalls ck) = (st1, ts)" by fastforce
  with c have "starts_of evs = starts_of ts" "seenTool st' = seenTool st1"
    by (auto simp: translate_chunk_def Let_def translate_meta_def starts_of_def split: option.splits)
  with fresh_starts_calls [OF t] show ?thesis by (simp add: fresh_starts_def)
qed

lemma fresh_starts_loop:
  "distinct (starts_of (translate_loop ends st cks fin)) \<and>
   set (starts_of (translate_loop ends st cks fin)) \<inter> set (seenTool st) = {}"
proof (induction ends st cks fin rule: translate_loop.induct)
  case (4 ends st ck cks fin)
  obtain st1 evs1 where c: "translate_chunk st ck = (st1, evs1)" by fastforce
  from 4 [OF c [symmetric] refl] c fresh_starts_chunk [OF c] show ?case
    by (auto simp: fresh_starts_def)
qed (auto simp: starts_of_def filter_map comp_def case_prod_beta)

text \<open>C17 Every stream the adapter produces ends with exactly one terminator, a message end if the
  model's stream ended normally and an error otherwise; the text and the reasoning are those of the
  chunks, unchanged and in order; and no tool call is announced twice.\<close>
theorem translateStream_protocol:
  "\<exists>evs t. translateStream ends cks fin = evs @ [t] \<and>
     is_terminator t \<and> (evType t = EventMessageEnd \<longleftrightarrow> fin = RecvEOF) \<and>
     filter is_terminator evs = [] \<and>
     text_of (translateStream ends cks fin) = concat (map ckContent (List.map_filter id cks)) \<and>
     thinking_of (translateStream ends cks fin) = concat (map ckReasoningContent (List.map_filter id cks)) \<and>
     distinct (starts_of (translateStream ends cks fin))"
  using translate_loop_terminator [of ends translate_init cks fin]
    translate_loop_text [of ends translate_init cks fin] fresh_starts_loop [of ends translate_init cks fin]
  unfolding translateStream_def filter_empty_conv by blast

text \<open>Arguments that arrive before the identifier of their tool call are lost: they are collected
  in the call's record, but no event ever carries them.\<close>
theorem early_arguments_lost:
  "translateStream (\<lambda>m. m)
     [Some \<lparr>ckReasoningContent = [], ckContent = [], ckToolCalls =
        [\<lparr>ctIndex = Some 0, ctID = [], ctName = [], ctArguments = a\<rparr>], ckMeta = None\<rparr>,
      Some \<lparr>ckReasoningContent = [], ckContent = [], ckToolCalls =
        [\<lparr>ctIndex = Some 0, ctID = ''c1'', ctName = ''t'', ctArguments = []\<rparr>], ckMeta = None\<rparr>] RecvEOF =
   [(event EventToolCallStart)\<lparr>evToolCallID := ''c1'', evToolName := ''t''\<rparr>,
    (event EventToolCallEnd)\<lparr>evToolCallID := ''c1'', evToolName := ''t''\<rparr>,
    event EventMessageEnd]"
  by (cases "a = []")
    (simp_all add: translateStream_def translate_init_def translate_chunk_def translate_tool_call_def tc_partial_def tc_index_def Let_def
      translate_meta_def event_def)

text \<open>Starting with a missing default provider fails; otherwise every name resolves to a
  provider: the one registered under it, else the default. What is registered comes from an enabled
  profile of that alias.\<close>
theorem llm_registry_resolves:
  "case llm_NewRegistry quote getenv d profiles factory of
     Inl e \<Rightarrow> \<forall>p \<in> set profiles. mpAlias p = d \<longrightarrow> \<not> profile_enabled getenv p \<or> (\<exists>e. factory p = Inl e)
   | Inr r \<Rightarrow> (\<forall>a. llm_Resolve r a \<noteq> None \<and>
        llm_Resolve r a = (if a \<noteq> [] \<and> a \<in> set (llm_Names r) then llm_Get r a else llm_Get r d)) \<and>
        (\<forall>a v. llm_Get r a = Some v \<longrightarrow>
           (\<exists>p \<in> set profiles. mpAlias p = a \<and> profile_enabled getenv p \<and> factory p = Inr v)) \<and>
        sorted (llm_Names r) \<and> distinct (llm_Names r)"
proof -
  let ?m = "register_profiles getenv factory [] profiles"
  show ?thesis
  proof (cases "map_of ?m d")
    case None
    with register_profiles_None [OF None] show ?thesis by (auto simp: llm_NewRegistry_def)
  next
    case (Some v)
    have k: "a \<in> fst ` set ?m \<longleftrightarrow> map_of ?m a \<noteq> None" for a
      by (simp add: map_of_eq_None_iff)
    have "keys_ok ?m" by (rule register_profiles_keys) simp
    with Some k register_profiles_source [of getenv factory "[]" profiles] show ?thesis
      by (auto simp: llm_NewRegistry_def llm_Resolve_def llm_Get_def llm_Default_def llm_Names_def)
  qed
qed

definition demo_profile :: "string \<Rightarrow> model_profile" where
  "demo_profile a = \<lparr>mpAlias = a, mpType = ''openai'', mpModel = ''m'', mpAPIKeyEnv = [], mpBaseURL = [],
     mpEnableThinking = False, mpMaxTokens = 0, mpTemperature = None\<rparr>"

theorem llm_registry_resolves_witness:
  "case llm_NewRegistry (\<lambda>s. s) (\<lambda>_. []) ''d'' [demo_profile ''d'']
      (\<lambda>p. Inr \<lparr>provName = mpAlias p, provStream = fake_Stream None\<rparr>) of
     Inl e \<Rightarrow> False
   | Inr r \<Rightarrow> llm_Resolve r ''x'' = llm_Get r ''d'' \<and> llm_Resolve r ''x'' \<noteq> None"
  using llm_registry_resolves [where quote = "\<lambda>s. s" and getenv = "\<lambda>_. []" and d = "''d''"
      and profiles = "[demo_profile ''d'']"
      and factory = "\<lambda>p. Inr \<lparr>provName = mpAlias p, provStream = fake_Stream None\<rparr>"]
  by (simp add: llm_NewRegistry_def demo_profile_def profile_enabled_def llm_Names_def llm_Get_def)

end
