(* ===== verification/Tools.thy ===== *)
theory Tools
  imports Llm
begin

text \<open>
  internal/tool: the tool interface and the registry the agent, the commands and the MCP
  manager share. A tool is a record of its methods on an external world \<open>'w\<close>; \<open>Call\<close> gets the
  caller's open_id (the only value the program puts into the tool's context) and the raw
  arguments, and returns, fails or panics.
\<close>

section \<open>The tool interface (tool.go)\<close>

datatype source = SourceBuiltin | SourceMCP

definition MCPNamePrefix :: string where
  "MCPNamePrefix = ''mcp__''"

text \<open>\<open>Result.Meta\<close> is only for display and read by nobody; the outcome keeps \<open>Content\<close>.\<close>

datatype tool_outcome = ToolOk string | ToolErr go_error | ToolPanic string

record 'w tool =
  tName :: string
  tDescription :: string
  tInputSchema :: string
  tSource :: source
  tAvailable :: "'w \<Rightarrow> bool"
  tCall :: "string \<Rightarrow> string \<Rightarrow> 'w \<Rightarrow> 'w \<times> tool_outcome"

text \<open>The \<open>UserError\<close> interface has one implementation.\<close>

fun UserMessage :: "go_error \<Rightarrow> string option" where
  "UserMessage (SimpleUserError m) = Some m"
| "UserMessage _ = None"

section \<open>The registry (registry.go)\<close>

type_synonym 'w tool_registry = "'w tool gomap"

definition tool_Register ::
  "(string \<Rightarrow> string) \<Rightarrow> 'w tool \<Rightarrow> 'w tool_registry \<Rightarrow> go_error + 'w tool_registry" where
  "tool_Register quote t r =
     (let n = tName t in
      if n = [] then Inl (Errorf ''tool name is empty'')
      else if tSource t = SourceMCP \<and> \<not> HasPrefix n MCPNamePrefix then
        Inl (Errorf (''mcp-sourced tool '' @ quote n @ '' must use prefix '' @ quote MCPNamePrefix))
      else if tSource t \<noteq> SourceMCP \<and> HasPrefix n MCPNamePrefix then
        Inl (Errorf (''non-mcp tool '' @ quote n @ '' must not use reserved prefix '' @ quote MCPNamePrefix))
      else if map_of r n \<noteq> None then Inl (Errorf (''tool '' @ quote n @ '' already registered''))
      else Inr (AList.update n t r))"

definition tool_Get :: "'w tool_registry \<Rightarrow> string \<Rightarrow> 'w tool option" where
  "tool_Get r name = map_of r name"

text \<open>
  \<open>List\<close> sorts with the comparison \<open>tool_less\<close>; since names are unique the order is total and
  the result does not depend on the map's iteration order. It is computed by sorting on the key
  \<open>tool_key\<close>, whose order is \<open>tool_less\<close> (\<open>tool_key_less\<close>).
\<close>

definition tool_less :: "'w tool \<Rightarrow> 'w tool \<Rightarrow> bool" where
  "tool_less a b =
     (if tSource a \<noteq> tSource b then tSource a = SourceBuiltin else tName a < tName b)"

definition tool_key :: "'w tool \<Rightarrow> nat \<times> string" where
  "tool_key t = (case tSource t of SourceBuiltin \<Rightarrow> 0 | SourceMCP \<Rightarrow> 1, tName t)"

lemma tool_key_less: "tool_less a b \<longleftrightarrow> tool_key a < tool_key b"
  by (cases "tSource a"; cases "tSource b") (simp_all add: tool_less_def tool_key_def)

definition tool_List :: "'w tool_registry \<Rightarrow> 'w tool list" where
  "tool_List r = sort_key tool_key (map snd r)"

definition tool_Available :: "'w tool_registry \<Rightarrow> 'w \<Rightarrow> 'w tool list" where
  "tool_Available r w = filter (\<lambda>t. tAvailable t w) (tool_List r)"

definition tool_RemoveByPrefix :: "string \<Rightarrow> 'w tool_registry \<Rightarrow> 'w tool_registry" where
  "tool_RemoveByPrefix prefix r = filter (\<lambda>(n, t). \<not> HasPrefix n prefix) r"

text \<open>
  The registry invariant: one entry per name, stored under its tool's own non-empty name, and
  the prefix \<open>mcp__\<close> reserved for MCP tools.
\<close>

definition registry_ok :: "'w tool_registry \<Rightarrow> bool" where
  "registry_ok r \<longleftrightarrow> keys_ok r \<and>
     (\<forall>(n, t) \<in> set r. n = tName t \<and> n \<noteq> [] \<and> (tSource t = SourceMCP \<longleftrightarrow> HasPrefix n MCPNamePrefix))"

lemma registry_ok_empty: "registry_ok []"
  by (simp add: registry_ok_def)

lemma tool_Register_Inr:
  "tool_Register quote t r = Inr r' \<longleftrightarrow>
   r' = AList.update (tName t) t r \<and> tName t \<noteq> [] \<and> map_of r (tName t) = None \<and>
   (tSource t = SourceMCP \<longleftrightarrow> HasPrefix (tName t) MCPNamePrefix)"
  by (auto simp: tool_Register_def Let_def)

lemma tool_Register_ok:
  "registry_ok r \<Longrightarrow> tool_Register quote t r = Inr r' \<Longrightarrow> registry_ok r'"
  by (auto simp: tool_Register_Inr registry_ok_def dest!: set_update_cases)

lemma tool_RemoveByPrefix_ok: "registry_ok r \<Longrightarrow> registry_ok (tool_RemoveByPrefix p r)"
  by (auto simp: registry_ok_def tool_RemoveByPrefix_def distinct_map_filter)

lemma registry_ok_Get:
  "registry_ok r \<Longrightarrow> tool_Get r n = Some t \<Longrightarrow>
   tName t = n \<and> n \<noteq> [] \<and> (tSource t = SourceMCP \<longleftrightarrow> HasPrefix n MCPNamePrefix)"
  by (auto simp: registry_ok_def tool_Get_def dest!: map_of_SomeD)

lemma tool_Get_Register:
  "tool_Register quote t r = Inr r' \<Longrightarrow>
   tool_Get r' n = (if n = tName t then Some t else tool_Get r n)"
  by (auto simp: tool_Register_Inr tool_Get_def update_conv)

lemma tool_Get_RemoveByPrefix:
  "tool_Get (tool_RemoveByPrefix p r) n = (if HasPrefix n p then None else tool_Get r n)"
  by (simp add: tool_Get_def tool_RemoveByPrefix_def map_of_filter_key)

lemma set_tool_List: "set (tool_List r) = snd ` set r"
  by (simp add: tool_List_def)

lemma mem_tool_List: "registry_ok r \<Longrightarrow> t \<in> set (tool_List r) \<longleftrightarrow> tool_Get r (tName t) = Some t"
  by (force simp: set_tool_List registry_ok_def tool_Get_def intro: rev_image_eqI dest: map_of_SomeD)

lemma tool_List_names: "registry_ok r \<Longrightarrow> distinct (map tName (tool_List r))"
proof -
  assume ok: "registry_ok r"
  then have "map fst r = map tName (map snd r)" by (auto simp: registry_ok_def)
  with ok have "distinct (map tName (map snd r))" by (simp add: registry_ok_def)
  moreover have "mset (map tName (tool_List r)) = mset (map tName (map snd r))"
    by (simp add: tool_List_def image_mset.compositionality)
  ultimately show ?thesis by (metis mset_eq_imp_distinct_iff)
qed

lemma tool_key_inj: "tool_key a = tool_key b \<Longrightarrow> tName a = tName b"
  by (simp add: tool_key_def)

lemma tool_List_sorted: "registry_ok r \<Longrightarrow> sorted_wrt tool_less (tool_List r)"
proof -
  assume ok: "registry_ok r"
  have "sorted (map tool_key (tool_List r))" by (simp add: tool_List_def)
  moreover have "distinct (map tool_key (tool_List r))"
    using tool_List_names [OF ok] by (auto simp: distinct_map inj_on_def dest: tool_key_inj)
  ultimately have "sorted_wrt (<) (map tool_key (tool_List r))"
    by (simp add: strict_sorted_iff)
  then show ?thesis
    by (simp add: sorted_wrt_map) (erule sorted_wrt_mono_rel [rotated], simp add: tool_key_less)
qed

lemma mem_tool_Available:
  "registry_ok r \<Longrightarrow>
   t \<in> set (tool_Available r w) \<longleftrightarrow> tool_Get r (tName t) = Some t \<and> tAvailable t w"
  by (auto simp: tool_Available_def mem_tool_List)

section \<open>Registries by name\<close>

text \<open>
  The contract the agent, the commands and the startup code rely on, for tools as for model
  providers: adding under a name is seen by that name's lookup and by no other, and looking up
  never invents entries. \<open>name\<close> is the name an entry is stored under.
\<close>

locale named_registry =
  fixes add :: "'a \<Rightarrow> 'r \<Rightarrow> 'r option"
    and get :: "'r \<Rightarrow> string \<Rightarrow> 'a option"
    and name :: "'a \<Rightarrow> string"
    and empty :: 'r
  assumes get_empty: "get empty n = None"
    and get_add: "add a r = Some r' \<Longrightarrow> get r' n = (if n = name a then Some a else get r n)"
begin

fun add_all :: "'a list \<Rightarrow> 'r \<Rightarrow> 'r" where
  "add_all [] r = r"
| "add_all (a # as) r = add_all as (case add a r of None \<Rightarrow> r | Some r' \<Rightarrow> r')"

lemma get_add_other: "add a r = Some r' \<Longrightarrow> n \<noteq> name a \<Longrightarrow> get r' n = get r n"
  by (simp add: get_add)

lemma add_all_other: "n \<notin> name ` set as \<Longrightarrow> get (add_all as r) n = get r n"
  by (induction as arbitrary: r) (auto simp: get_add split: option.split)

lemma add_all_source: "get (add_all as r) n = Some a \<Longrightarrow> get r n = Some a \<or> a \<in> set as \<and> name a = n"
proof (induction as arbitrary: r)
  case (Cons b as)
  then show ?case
    by (cases "add b r") (auto simp: get_add split: if_splits dest!: Cons.IH)
qed simp

lemma add_all_empty: "get (add_all as empty) n = Some a \<Longrightarrow> a \<in> set as \<and> name a = n"
  using add_all_source [of as empty n a] by (simp add: get_empty)

end

definition tool_try_add :: "'w tool \<Rightarrow> 'w tool_registry \<Rightarrow> 'w tool_registry option" where
  "tool_try_add t r = (case tool_Register (\<lambda>s. s) t r of Inl _ \<Rightarrow> None | Inr r' \<Rightarrow> Some r')"

definition llm_add :: "string \<times> 'w provider \<Rightarrow> 'w provider gomap \<Rightarrow> 'w provider gomap option" where
  "llm_add p m = Some (AList.update (fst p) (snd p) m)"

interpretation tools: named_registry tool_try_add tool_Get tName "[] :: 'w tool_registry"
  by unfold_locales
     (auto simp: tool_try_add_def tool_Get_Register split: sum.splits, simp add: tool_Get_def)

interpretation models: named_registry llm_add "\<lambda>m n. map_option (Pair n) (map_of m n)" fst
    "[] :: 'w provider gomap"
  by unfold_locales (auto simp: llm_add_def update_conv)

section \<open>Properties\<close>

text \<open>Registering keeps the registry well-formed (one tool per name, stored under its own non-empty
  name, the prefix of MCP tools reserved for them); it fails exactly on an empty name, a prefix that
  does not fit the source or a taken name, and otherwise adds that tool and changes no other.\<close>
theorem registry_Register:
  assumes "registry_ok r"
  shows "case tool_Register quote t r of
      Inr r' \<Rightarrow> registry_ok r' \<and> tool_Get r (tName t) = None \<and>
        (\<forall>n. tool_Get r' n = (if n = tName t then Some t else tool_Get r n))
    | Inl e \<Rightarrow> tName t = [] \<or> (tSource t = SourceMCP \<longleftrightarrow> \<not> HasPrefix (tName t) MCPNamePrefix)
        \<or> tool_Get r (tName t) \<noteq> None"
proof (cases "tool_Register quote t r")
  case (Inl e)
  then show ?thesis by (auto simp: tool_Register_def Let_def tool_Get_def split: if_splits)
next
  case (Inr r')
  then have "tool_Get r (tName t) = None" by (simp add: tool_Register_Inr tool_Get_def)
  with Inr tool_Register_ok [OF assms Inr] tool_Get_Register [OF Inr] show ?thesis by simp
qed

definition demo_tool :: "string \<Rightarrow> source \<Rightarrow> nat tool" where
  "demo_tool n s = \<lparr>tName = n, tDescription = [], tInputSchema = [], tSource = s,
     tAvailable = (\<lambda>w. w < 5), tCall = (\<lambda>caller args w. (w + 1, ToolOk args))\<rparr>"

theorem registry_Register_witness:
  "case tool_Register (\<lambda>s. s) (demo_tool ''t'' SourceBuiltin) [] of
     Inr r' \<Rightarrow> registry_ok r' \<and> tool_Get r' ''t'' \<noteq> None
   | Inl e \<Rightarrow> False"
  using registry_Register [OF registry_ok_empty, where quote = "\<lambda>s. s" and t = "demo_tool ''t'' SourceBuiltin"]
  by (simp add: tool_Register_def Let_def) (simp add: demo_tool_def MCPNamePrefix_def)

text \<open>The tools offered are exactly the registered tools that are available, each once, built-in
  tools before MCP tools and each group in the order of its names.\<close>
theorem available_sorted:
  assumes "registry_ok r"
  shows "set (tool_Available r w) = {t. tool_Get r (tName t) = Some t \<and> tAvailable t w} \<and>
    distinct (map tName (tool_Available r w)) \<and> sorted_wrt tool_less (tool_Available r w)"
proof -
  have "distinct (map tName (tool_Available r w))"
    using tool_List_names [OF assms] by (simp add: tool_Available_def distinct_map_filter)
  moreover have "sorted_wrt tool_less (tool_Available r w)"
    using tool_List_sorted [OF assms] by (simp add: tool_Available_def sorted_wrt_filter)
  ultimately show ?thesis using mem_tool_Available [OF assms] by auto
qed

theorem available_sorted_witness:
  "distinct (map tName (tool_Available
     [(''b'', demo_tool ''b'' SourceBuiltin), (''mcp__a'', demo_tool ''mcp__a'' SourceMCP)] 1))"
  using available_sorted [of "[(''b'', demo_tool ''b'' SourceBuiltin), (''mcp__a'', demo_tool ''mcp__a'' SourceMCP)]" 1]
  by (simp add: registry_ok_def demo_tool_def MCPNamePrefix_def)

text \<open>Dropping a prefix removes the tools whose name starts with it and only those, and keeps the
  registry well-formed.\<close>
theorem registry_RemoveByPrefix:
  assumes "registry_ok r"
  shows "registry_ok (tool_RemoveByPrefix p r) \<and>
    (\<forall>n. tool_Get (tool_RemoveByPrefix p r) n = (if HasPrefix n p then None else tool_Get r n))"
  using assms by (simp add: tool_RemoveByPrefix_ok tool_Get_RemoveByPrefix)

theorem registry_RemoveByPrefix_witness:
  "tool_Get (tool_RemoveByPrefix ''mcp__a__'' [(''mcp__a__x'', demo_tool ''mcp__a__x'' SourceMCP)]) ''mcp__a__x'' = None"
  using registry_RemoveByPrefix [of "[(''mcp__a__x'', demo_tool ''mcp__a__x'' SourceMCP)]" "''mcp__a__''"]
  by (simp add: registry_ok_def demo_tool_def MCPNamePrefix_def)

end
