(* ===== verification/Json.thy ===== *)
theory Json
  imports Prelude
begin

text \<open>
  What the program uses of Go's \<open>encoding/json\<close>. A JSON text is read into a tree that keeps the
  literals as written: \<open>JStr\<close> holds the body of the string literal (between the quotes, escapes
  included), \<open>JNum\<close> the number literal. Printing a parsed tree therefore gives back the text
  without its insignificant white space, which is what \<open>json.RawMessage\<close> is marshalled to.
  The scanner's limit of 10000 nested values and the wording of its error messages are not
  modelled.
\<close>

datatype json =
    JNull
  | JBool bool
  | JNum string
  | JStr string
  | JArr "json list"
  | JObj "(string \<times> json) list"

section \<open>String literals\<close>

definition hex_digit :: "nat \<Rightarrow> char" where
  "hex_digit n = (if n < 10 then char_of (48 + n) else char_of (87 + n))"

definition hex_val :: "char \<Rightarrow> nat option" where
  "hex_val c =
     (if 48 \<le> byte c \<and> byte c \<le> 57 then Some (byte c - 48)
      else if 97 \<le> byte c \<and> byte c \<le> 102 then Some (byte c - 87)
      else if 65 \<le> byte c \<and> byte c \<le> 70 then Some (byte c - 55)
      else None)"

definition hex4 :: "char \<Rightarrow> char \<Rightarrow> char \<Rightarrow> char \<Rightarrow> nat option" where
  "hex4 a b c d =
     (case (hex_val a, hex_val b, hex_val c, hex_val d) of
        (Some w, Some x, Some y, Some z) \<Rightarrow> Some (w * 4096 + x * 256 + y * 16 + z)
      | _ \<Rightarrow> None)"

abbreviation BS :: char where "BS \<equiv> CHR 0x5C"
abbreviation DQ :: char where "DQ \<equiv> CHR 0x22"

text \<open>The escape of one ASCII byte; \<open>html\<close> is the encoder's \<open>EscapeHTML\<close> flag (on by default).\<close>

definition esc_byte :: "bool \<Rightarrow> char \<Rightarrow> string" where
  "esc_byte html c =
     (if c = DQ \<or> c = BS then [BS, c]
      else if c = CHR 0x08 then [BS, CHR ''b'']
      else if c = CHR 0x0C then [BS, CHR ''f'']
      else if c = CHR 0x0A then [BS, CHR ''n'']
      else if c = CHR 0x0D then [BS, CHR ''r'']
      else if c = CHR 0x09 then [BS, CHR ''t'']
      else if byte c < 32 \<or> (html \<and> (c = CHR ''<'' \<or> c = CHR ''>'' \<or> c = CHR ''&''))
      then [BS, CHR ''u'', CHR ''0'', CHR ''0'', hex_digit (byte c div 16), hex_digit (byte c mod 16)]
      else [c])"

function escape :: "bool \<Rightarrow> string \<Rightarrow> string" where
  "escape html [] = []"
| "escape html (c # s) =
     (if byte c < 0x80 then esc_byte html c @ escape html s
      else case decode_rune (c # s) of (r, n) \<Rightarrow>
        (if r = RuneError \<and> n = 1 then [BS] @ ''ufffd''
         else if r = 0x2028 then [BS] @ ''u2028''
         else if r = 0x2029 then [BS] @ ''u2029''
         else take n (c # s)) @ escape html (drop n (c # s)))"
  by pat_completeness auto
termination
proof (relation "measure (\<lambda>(html, s). length s)", goal_cases)
  case (3 html c s r n)
  then have "0 < n \<and> n \<le> length (c # s)"
    using decode_rune_width [of "c # s"] by (metis list.distinct(1) snd_conv)
  then show ?case by auto
qed auto

text \<open>
  Decoding a literal body. A surrogate pair gives one rune, a lone surrogate U+FFFD, and so does
  a byte that is not valid UTF-8.
\<close>

definition is_surr :: "nat \<Rightarrow> bool" where
  "is_surr r \<longleftrightarrow> 0xD800 \<le> r \<and> r < 0xE000"

definition surr_pair :: "nat \<Rightarrow> nat \<Rightarrow> nat option" where
  "surr_pair a b =
     (if 0xD800 \<le> a \<and> a < 0xDC00 \<and> 0xDC00 \<le> b \<and> b < 0xE000
      then Some ((a - 0xD800) * 1024 + (b - 0xDC00) + 0x10000) else None)"

definition esc_char :: "char \<Rightarrow> char option" where
  "esc_char e =
     (if e = DQ \<or> e = BS \<or> e = CHR ''/'' then Some e
      else if e = CHR ''b'' then Some (CHR 0x08)
      else if e = CHR ''f'' then Some (CHR 0x0C)
      else if e = CHR ''n'' then Some (CHR 0x0A)
      else if e = CHR ''r'' then Some (CHR 0x0D)
      else if e = CHR ''t'' then Some (CHR 0x09)
      else None)"

definition read_u :: "string \<Rightarrow> nat option" where
  "read_u s = (case s of b # u # p # q # x # y # _ \<Rightarrow>
     if b = BS \<and> u = CHR ''u'' then hex4 p q x y else None | _ \<Rightarrow> None)"

function unescape :: "string \<Rightarrow> string" where
  "unescape [] = []"
| "unescape (c # s) =
     (if c = BS then
        (case read_u (c # s) of
           Some r \<Rightarrow>
             (if is_surr r then
                (case Option.bind (read_u (drop 5 s)) (surr_pair r) of
                   Some r' \<Rightarrow> utf8_enc r' @ unescape (drop 11 s)
                 | None \<Rightarrow> utf8_enc RuneError @ unescape (drop 5 s))
              else utf8_enc r @ unescape (drop 5 s))
         | None \<Rightarrow>
             (case s of e # s' \<Rightarrow>
                (case esc_char e of Some x \<Rightarrow> x # unescape s' | None \<Rightarrow> unescape s')
              | [] \<Rightarrow> []))
      else if byte c < 0x80 then c # unescape s
      else case decode_rune (c # s) of (r, n) \<Rightarrow>
        (if r = RuneError \<and> n = 1 then utf8_enc RuneError else take n (c # s))
          @ unescape (drop n (c # s)))"
  by pat_completeness auto
termination
  apply (relation "measure length")
  apply (auto simp: less_Suc_eq_le)[7]
  subgoal for c s r n
    using decode_rune_width [of "c # s"] by (cases "decode_rune (c # s)") auto
  done

declare escape.simps(2) [simp del] unescape.simps(2) [simp del]

section \<open>Reading\<close>

definition skip_ws :: "string \<Rightarrow> string" where
  "skip_ws s = dropWhile (\<lambda>c. c = CHR '' '' \<or> c = CHR 0x09 \<or> c = CHR 0x0A \<or> c = CHR 0x0D) s"

fun read_str :: "string \<Rightarrow> (string \<times> string) option" where
  "read_str [] = None"
| "read_str (c # s) =
     (if c = DQ then Some ([], s)
      else if c = BS then
        (case s of
           e # s' \<Rightarrow>
             if esc_char e \<noteq> None then map_option (\<lambda>(b, r). (c # e # b, r)) (read_str s')
             else if e = CHR ''u'' then
               (case s' of p # q # x # y # s'' \<Rightarrow>
                  if hex4 p q x y \<noteq> None
                  then map_option (\<lambda>(b, r). (c # e # p # q # x # y # b, r)) (read_str s'')
                  else None
                | _ \<Rightarrow> None)
             else None
         | [] \<Rightarrow> None)
      else if byte c < 32 then None
      else map_option (\<lambda>(b, r). (c # b, r)) (read_str s))"

definition span_digits :: "string \<Rightarrow> string \<times> string" where
  "span_digits s = (takeWhile is_digit s, dropWhile is_digit s)"

definition read_int_part :: "string \<Rightarrow> (string \<times> string) option" where
  "read_int_part s =
     (case s of [] \<Rightarrow> None
      | c # r \<Rightarrow> if c = CHR ''0'' then Some ([c], r)
                 else if is_digit c then Some (span_digits s) else None)"

definition read_frac :: "string \<Rightarrow> (string \<times> string) option" where
  "read_frac s =
     (case s of c # r \<Rightarrow>
        if c = CHR ''.'' then
          (case span_digits r of (d, r') \<Rightarrow> if d = [] then None else Some (c # d, r'))
        else Some ([], s)
      | [] \<Rightarrow> Some ([], s))"

definition read_exp :: "string \<Rightarrow> (string \<times> string) option" where
  "read_exp s =
     (case s of c # r \<Rightarrow>
        if c = CHR ''e'' \<or> c = CHR ''E'' then
          (let (sg, r1) = (case r of x # r1 \<Rightarrow> if x = CHR ''+'' \<or> x = CHR ''-'' then ([x], r1) else ([], r)
                           | [] \<Rightarrow> ([], r));
               (d, r2) = span_digits r1
           in if d = [] then None else Some (c # sg @ d, r2))
        else Some ([], s)
      | [] \<Rightarrow> Some ([], s))"

definition read_num :: "string \<Rightarrow> (string \<times> string) option" where
  "read_num s =
     (let (sg, s1) = (case s of c # r \<Rightarrow> if c = CHR ''-'' then ([c], r) else ([], s) | [] \<Rightarrow> ([], s))
      in case read_int_part s1 of None \<Rightarrow> None
         | Some (i, s2) \<Rightarrow>
             (case read_frac s2 of None \<Rightarrow> None
              | Some (f, s3) \<Rightarrow>
                  (case read_exp s3 of None \<Rightarrow> None
                   | Some (e, s4) \<Rightarrow> Some (sg @ i @ f @ e, s4))))"

text \<open>
  The parser spends one unit of fuel per call; every call but the one from an array or object to
  its next value has consumed a byte, so \<open>2 * length s + 2\<close> is enough (\<open>read_json_fuel\<close> below).
\<close>

fun read_val :: "nat \<Rightarrow> string \<Rightarrow> (json \<times> string) option"
and read_elems :: "nat \<Rightarrow> string \<Rightarrow> (json list \<times> string) option"
and read_members :: "nat \<Rightarrow> string \<Rightarrow> ((string \<times> json) list \<times> string) option"
where
  "read_val 0 s = None"
| "read_val (Suc n) s =
     (case skip_ws s of
        [] \<Rightarrow> None
      | c # r \<Rightarrow>
          if c = DQ then map_option (\<lambda>(b, t). (JStr b, t)) (read_str r)
          else if c = CHR ''['' then
            (case skip_ws r of
               [] \<Rightarrow> None
             | d # t \<Rightarrow> if d = CHR '']'' then Some (JArr [], t)
                        else map_option (\<lambda>(vs, t). (JArr vs, t)) (read_elems n r))
          else if c = CHR ''{'' then
            (case skip_ws r of
               [] \<Rightarrow> None
             | d # t \<Rightarrow> if d = CHR ''}'' then Some (JObj [], t)
                        else map_option (\<lambda>(ms, t). (JObj ms, t)) (read_members n r))
          else if HasPrefix (c # r) ''null'' then Some (JNull, drop 4 (c # r))
          else if HasPrefix (c # r) ''true'' then Some (JBool True, drop 4 (c # r))
          else if HasPrefix (c # r) ''false'' then Some (JBool False, drop 5 (c # r))
          else map_option (\<lambda>(b, t). (JNum b, t)) (read_num (c # r)))"
| "read_elems 0 s = None"
| "read_elems (Suc n) s =
     (case read_val n s of
        None \<Rightarrow> None
      | Some (v, r) \<Rightarrow>
          (case skip_ws r of
             [] \<Rightarrow> None
           | c # t \<Rightarrow>
               if c = CHR '','' then map_option (\<lambda>(vs, u). (v # vs, u)) (read_elems n t)
               else if c = CHR '']'' then Some ([v], t)
               else None))"
| "read_members 0 s = None"
| "read_members (Suc n) s =
     (case skip_ws s of
        [] \<Rightarrow> None
      | q # s1 \<Rightarrow>
          if q \<noteq> DQ then None
          else case read_str s1 of
            None \<Rightarrow> None
          | Some (k, s2) \<Rightarrow>
              (case skip_ws s2 of
                 [] \<Rightarrow> None
               | x # s3 \<Rightarrow>
                   if x \<noteq> CHR '':'' then None
                   else case read_val n s3 of
                     None \<Rightarrow> None
                   | Some (v, r) \<Rightarrow>
                       (case skip_ws r of
                          [] \<Rightarrow> None
                        | c # t \<Rightarrow>
                            if c = CHR '','' then
                              map_option (\<lambda>(ms, u). ((k, v) # ms, u)) (read_members n t)
                            else if c = CHR ''}'' then Some ([(k, v)], t)
                            else None)))"

definition read_json :: "string \<Rightarrow> json option" where
  "read_json s =
     (case read_val (2 * length s + 2) s of
        Some (v, r) \<Rightarrow> if skip_ws r = [] then Some v else None
      | None \<Rightarrow> None)"

definition json_valid :: "string \<Rightarrow> bool" where
  "json_valid s \<longleftrightarrow> read_json s \<noteq> None"

section \<open>Printing\<close>

fun print_json :: "json \<Rightarrow> string" where
  "print_json JNull = ''null''"
| "print_json (JBool b) = (if b then ''true'' else ''false'')"
| "print_json (JNum s) = s"
| "print_json (JStr b) = [DQ] @ b @ [DQ]"
| "print_json (JArr vs) = ''['' @ Join (map print_json vs) '','' @ '']''"
| "print_json (JObj ms) =
     ''{'' @ Join (map (\<lambda>(k, v). [DQ] @ k @ [DQ] @ '':'' @ print_json v) ms) '','' @ ''}''"

abbreviation jstr :: "string \<Rightarrow> json" where
  "jstr s \<equiv> JStr (escape True s)"

abbreviation jint :: "int \<Rightarrow> json" where
  "jint i \<equiv> JNum (dec_int i)"

text \<open>
  \<open>compact\<close> with \<open>EscapeHTML\<close>, as applied to a \<open>json.RawMessage\<close>: the bytes of the literals are
  kept, but \<open><\<close>, \<open>>\<close>, \<open>&\<close>, U+2028 and U+2029 are escaped.
\<close>

fun html_body :: "string \<Rightarrow> string" where
  "html_body [] = []"
| "html_body (c # s) =
     (if c = CHR ''<'' \<or> c = CHR ''>'' \<or> c = CHR ''&'' then esc_byte True c @ html_body s
      else case s of
        b # d # s' \<Rightarrow>
          if c = CHR 0xE2 \<and> b = CHR 0x80 \<and> (d = CHR 0xA8 \<or> d = CHR 0xA9)
          then [BS] @ ''u202'' @ [hex_digit (byte d mod 16)] @ html_body s'
          else c # html_body s
      | _ \<Rightarrow> c # html_body s)"

fun html_json :: "json \<Rightarrow> json" where
  "html_json (JStr b) = JStr (html_body b)"
| "html_json (JArr vs) = JArr (map html_json vs)"
| "html_json (JObj ms) = JObj (map (\<lambda>(k, v). (html_body k, html_json v)) ms)"
| "html_json v = v"

section \<open>Decoding into Go values\<close>

text \<open>
  Decoding into a struct field: \<open>None\<close> is a type error, \<open>Some None\<close> leaves the field as it is
  (JSON null), \<open>Some (Some x)\<close> stores \<open>x\<close>.
\<close>

definition go_int_min :: int where "go_int_min = - (2 ^ 63)"
definition go_int_max :: int where "go_int_max = 2 ^ 63 - 1"

definition num_int :: "string \<Rightarrow> int option" where
  "num_int b =
     (let (neg, d) = (case b of c # r \<Rightarrow> if c = CHR ''-'' then (True, r) else (False, b)
                      | [] \<Rightarrow> (False, b));
          v = (if neg then - int (digits_val d) else int (digits_val d))
      in if d \<noteq> [] \<and> list_all is_digit d \<and> go_int_min \<le> v \<and> v \<le> go_int_max then Some v else None)"

fun as_string :: "json \<Rightarrow> string option option" where
  "as_string (JStr b) = Some (Some (unescape b))"
| "as_string JNull = Some None"
| "as_string _ = None"

fun as_int :: "json \<Rightarrow> int option option" where
  "as_int (JNum b) = map_option Some (num_int b)"
| "as_int JNull = Some None"
| "as_int _ = None"

fun as_bool :: "json \<Rightarrow> bool option option" where
  "as_bool (JBool b) = Some (Some b)"
| "as_bool JNull = Some None"
| "as_bool _ = None"

definition lower_byte :: "char \<Rightarrow> char" where
  "lower_byte c = (if 65 \<le> byte c \<and> byte c \<le> 90 then char_of (byte c + 32) else c)"

text \<open>
  A struct is decoded member by member: a member goes to the field of its name, letter case
  aside, an unknown one is ignored, the last of several for one field wins. \<open>put\<close> stores a
  member for a field name and fails on a type error.
\<close>

fun decode_members ::
  "(string \<Rightarrow> json \<Rightarrow> 'r \<Rightarrow> 'r option) \<Rightarrow> 'r \<Rightarrow> (string \<times> json) list \<Rightarrow> 'r option" where
  "decode_members put r [] = Some r"
| "decode_members put r ((k, v) # ms) =
     (case put (map lower_byte (unescape k)) v r of
        None \<Rightarrow> None | Some r' \<Rightarrow> decode_members put r' ms)"

fun decode_struct ::
  "(string \<Rightarrow> json \<Rightarrow> 'r \<Rightarrow> 'r option) \<Rightarrow> 'r \<Rightarrow> json \<Rightarrow> 'r option" where
  "decode_struct put r (JObj ms) = decode_members put r ms"
| "decode_struct put r JNull = Some r"
| "decode_struct put r _ = None"

definition put_string :: "json \<Rightarrow> (string \<Rightarrow> 'r) \<Rightarrow> 'r \<Rightarrow> 'r option" where
  "put_string v f r = (case as_string v of None \<Rightarrow> None | Some None \<Rightarrow> Some r | Some (Some s) \<Rightarrow> Some (f s))"

definition put_int :: "json \<Rightarrow> (int \<Rightarrow> 'r) \<Rightarrow> 'r \<Rightarrow> 'r option" where
  "put_int v f r = (case as_int v of None \<Rightarrow> None | Some None \<Rightarrow> Some r | Some (Some i) \<Rightarrow> Some (f i))"

definition put_bool :: "json \<Rightarrow> (bool \<Rightarrow> 'r) \<Rightarrow> 'r \<Rightarrow> 'r option" where
  "put_bool v f r = (case as_bool v of None \<Rightarrow> None | Some None \<Rightarrow> Some r | Some (Some b) \<Rightarrow> Some (f b))"

fun decode_all :: "('a \<Rightarrow> 'b option) \<Rightarrow> 'a list \<Rightarrow> 'b list option" where
  "decode_all f [] = Some []"
| "decode_all f (x # xs) =
     (case f x of None \<Rightarrow> None
      | Some y \<Rightarrow> (case decode_all f xs of None \<Rightarrow> None | Some ys \<Rightarrow> Some (y # ys)))"

lemma decode_all_map: "(\<And>x. x \<in> set xs \<Longrightarrow> f (g x) = Some (h x)) \<Longrightarrow> decode_all f (map g xs) = Some (map h xs)"
  by (induction xs) auto

section \<open>Maps\<close>

text \<open>\<open>hex.EncodeToString\<close>.\<close>

definition hex_encode :: "string \<Rightarrow> string" where
  "hex_encode bs = concat (map (\<lambda>c. [hex_digit (byte c div 16), hex_digit (byte c mod 16)]) bs)"

text \<open>A Go map is written with its keys sorted. \<open>cstr\<close> is a string written by an encoder that does not escape HTML.\<close>

definition go_map :: "(string \<times> json) list \<Rightarrow> json" where
  "go_map ms = JObj (sort_key fst ms)"

definition cstr :: "string \<Rightarrow> json" where
  "cstr s = JStr (escape False s)"

end
