(* ===== verification/Json_Roundtrip.thy ===== *)
theory Json_Roundtrip
  imports Json
begin

text \<open>
  Printing and reading JSON are inverse to each other: on the bodies of string literals
  (\<open>unescape_escape\<close>, for valid UTF-8), and on whole trees whose literals are well-formed
  (\<open>read_json_print\<close>). The fuel of \<open>read_json\<close> is enough for every printed tree.
\<close>

section \<open>String literals\<close>

lemma hex_val_digit [simp]: "n < 16 \<Longrightarrow> hex_val (hex_digit n) = Some n"
  by (auto simp: hex_val_def hex_digit_def)

lemma byte_inject: "byte c = (byte d :: nat) \<longleftrightarrow> c = d"
  by simp

lemma hex4_byte:
  "byte c < 128 \<Longrightarrow> hex4 (CHR ''0'') (CHR ''0'') (hex_digit (byte c div 16)) (hex_digit (byte c mod 16)) = Some (byte c)"
proof -
  assume "byte c < 128"
  then have "byte c div 16 < 16" "byte c mod 16 < 16" by auto
  moreover have "hex_val (CHR ''0'') = Some 0" by (simp add: hex_val_def)
  ultimately show ?thesis by (simp add: hex4_def)
qed

lemma read_str_esc_byte:
  "byte c < 128 \<Longrightarrow>
   read_str (esc_byte h c @ s) = map_option (\<lambda>(b, r). (esc_byte h c @ b, r)) (read_str s)"
  by (auto simp: esc_byte_def esc_char_def hex4_byte option.map_comp comp_def case_prod_beta)

lemma read_str_high:
  "\<forall>x \<in> set p. 128 \<le> byte x \<Longrightarrow>
   read_str (p @ s) = map_option (\<lambda>(b, r). (p @ b, r)) (read_str s)"
proof (induction p)
  case Nil
  show ?case by (simp add: option.map_ident case_prod_beta)
next
  case (Cons c p)
  then have "c \<noteq> DQ" "c \<noteq> BS" "\<not> byte c < 32" by auto
  with Cons show ?case by (simp add: option.map_comp comp_def case_prod_beta)
qed

lemma decode_rune_high:
  "decode_rune (c # s) = (r, n) \<Longrightarrow> 128 \<le> byte c \<Longrightarrow> \<not> (r = RuneError \<and> n = 1) \<Longrightarrow>
   \<forall>x \<in> set (take n (c # s)). 128 \<le> byte x"
  by (auto simp: decode_rune.simps Let_def is_cont_def lo2_def split: if_splits list.splits)

lemma decode_rune_take:
  "decode_rune (c # s) = (r, n) \<Longrightarrow> \<not> (r = RuneError \<and> n = 1) \<Longrightarrow>
   decode_rune (take n (c # s) @ t) = (r, n)"
  by (auto simp: decode_rune.simps Let_def split: if_splits list.splits)

lemma decode_rune_width2:
  "decode_rune (c # s) = (r, 2) \<Longrightarrow> r < 2048"
  by (auto simp: decode_rune.simps Let_def is_cont_def split: if_splits list.splits)

lemma decode_rune_width4:
  "decode_rune (c # s) = (r, 4) \<Longrightarrow> 65536 \<le> r"
proof -
  assume d: "decode_rune (c # s) = (r, 4)"
  then obtain b where x: "240 \<le> byte c" and b: "lo2 (byte c) \<le> byte b"
    and r: "(byte c - 240) * 262144 + (byte b - 128) * 4096 \<le> r"
    by (auto simp: decode_rune.simps Let_def split: if_splits list.splits)
  show ?thesis
  proof (cases "byte c = 240")
    case True
    with b r show ?thesis by (simp add: lo2_def)
  next
    case False
    with x r show ?thesis by simp
  qed
qed

lemma decode_rune_width3:
  "decode_rune (c # s) = (r, 3) \<Longrightarrow>
   \<exists>b e s'. s = b # e # s' \<and> 224 \<le> byte c \<and> byte c \<le> 239 \<and> 128 \<le> byte b \<and> byte b \<le> 191
     \<and> 128 \<le> byte e \<and> byte e \<le> 191
     \<and> r = (byte c - 224) * 4096 + (byte b - 128) * 64 + (byte e - 128)"
  by (auto simp: decode_rune.simps Let_def is_cont_def lo2_def hi2_def split: if_splits list.splits)

lemma decode_rune_widths:
  "decode_rune (c # s) = (r, n) \<Longrightarrow> n = 1 \<and> (r < 128 \<or> r = RuneError) \<or> n = 2 \<or> n = 3 \<or> n = 4"
  by (auto simp: decode_rune.simps Let_def split: if_splits list.splits)

lemma decode_rune_2028:
  assumes d: "decode_rune (c # s) = (r, n)" and r: "r = 0x2028 \<or> r = 0x2029"
  shows "take n (c # s) = utf8_enc r"
proof -
  have "n = 3"
    using decode_rune_widths [OF d] d r decode_rune_width2 [of c s r] decode_rune_width4 [of c s r]
    by (auto simp: RuneError_def)
  then obtain b e s' where s: "s = b # e # s'" and c: "224 \<le> byte c" "byte c \<le> 239"
    and b: "128 \<le> byte b" "byte b \<le> 191" and e: "128 \<le> byte e" "byte e \<le> 191"
    and eq: "r = (byte c - 224) * 4096 + (byte b - 128) * 64 + (byte e - 128)"
    using decode_rune_width3 [of c s r] d by blast
  obtain x y z where xyz: "byte c = 224 + x" "byte b = 128 + y" "byte e = 128 + z"
    using c b e by (meson le_Suc_ex)
  have "x * 4096 + y * 64 + z = 8232 \<or> x * 4096 + y * 64 + z = 8233" "y < 64" "z < 64"
    using eq r b e xyz by auto
  then have x: "x = 2" by arith
  then have yz: "y * 64 + z = r - 8192" "y < 64" "z < 64"
    using \<open>y < 64\<close> \<open>z < 64\<close> eq xyz by simp_all
  then have y: "y = 0" using r by arith
  with yz have z: "z = r - 8192" by simp
  then have "c = CHR 0xE2" "b = CHR 0x80" "e = (if r = 0x2028 then CHR 0xA8 else CHR 0xA9)"
    using r xyz x y z by (auto simp flip: byte_inject)
  then show ?thesis using s \<open>n = 3\<close> r by (auto simp: utf8_enc_def)
qed

lemma read_str_escape:
  "read_str (escape h s @ DQ # t) = Some (escape h s, t)"
proof (induction h s rule: escape.induct)
  case (1 h)
  show ?case by simp
next
  case (2 h c s)
  show ?case
  proof (cases "byte c < 128")
    case True
    with 2 show ?thesis by (simp add: escape.simps(2) read_str_esc_byte)
  next
    case False
    obtain r n where d: "decode_rune (c # s) = (r, n)" by fastforce
    let ?rest = "escape h (drop n (c # s))"
    let ?p = "if r = RuneError \<and> n = 1 then [BS] @ ''ufffd'' else if r = 0x2028 then [BS] @ ''u2028''
          else if r = 0x2029 then [BS] @ ''u2029'' else take n (c # s)"
    have IH: "read_str (?rest @ DQ # t) = Some (?rest, t)"
      using 2(2) [OF _ d [symmetric]] False by simp
    have "read_str (?p @ x) = map_option (\<lambda>(b, r). (?p @ b, r)) (read_str x)" for x
      using decode_rune_high [OF d] False
      by (cases "read_str x") (auto simp: esc_char_def hex4_def hex_val_def read_str_high)
    moreover have "escape h (c # s) = ?p @ ?rest"
      using False d by (simp add: escape.simps(2))
    ultimately show ?thesis by (simp only: append_assoc IH) simp
  qed
qed

lemma esc_byte_unescape:
  "byte c < 128 \<Longrightarrow> unescape (esc_byte h c @ s) = c # unescape s"
proof -
  assume c: "byte c < 128"
  have u: "unescape (BS # CHR ''u'' # CHR ''0'' # CHR ''0'' # hex_digit (byte c div 16) # hex_digit (byte c mod 16) # s)
      = c # unescape s"
    using c by (simp add: unescape.simps(2) read_u_def hex4_byte is_surr_def utf8_enc_def)
  have n: "unescape (BS # e # s) = x # unescape s" if "esc_char e = Some x" "e \<noteq> CHR ''u''" for e x
    using that by (subst unescape.simps(2)) (simp add: read_u_def split: list.splits)
  show ?thesis
    using c u by (auto simp: esc_byte_def n esc_char_def unescape.simps(2) [of c s])
qed

text \<open>
  Encoding and decoding a string replaces every byte that is not part of valid UTF-8 by U+FFFD.
\<close>

function sanitize :: "string \<Rightarrow> string" where
  "sanitize s =
     (if s = [] then [] else case decode_rune s of (r, n) \<Rightarrow>
       (if r = RuneError \<and> n = 1 then utf8_enc RuneError else take n s) @ sanitize (drop n s))"
  by pat_completeness auto
termination
proof (relation "measure length", goal_cases)
  case (2 s r n)
  then have "0 < n \<and> n \<le> length s" using decode_rune_width [of s] by (metis snd_conv)
  with 2 show ?case by simp
qed simp

declare sanitize.simps [simp del]

lemma sanitize_Nil [simp]: "sanitize [] = []"
  by (simp add: sanitize.simps)

lemma sanitize_valid: "utf8_valid s \<Longrightarrow> sanitize s = s"
proof (induction s rule: sanitize.induct)
  case (1 s)
  obtain r n where d: "decode_rune s = (r, n)" by fastforce
  show ?case
  proof (cases "s = []")
    case False
    with 1(2) d have "\<not> (r = RuneError \<and> n = 1)" "utf8_valid (drop n s)"
      by (auto simp: utf8_valid.simps [of s] split: if_splits)
    with 1(1) [OF False d [symmetric]] False d show ?thesis
      by (subst sanitize.simps) auto
  qed simp
qed

lemma unescape_escape_sanitize: "unescape (escape h s) = sanitize s"
proof (induction h s rule: escape.induct)
  case (1 h)
  show ?case by simp
next
  case (2 h c s)
  show ?case
  proof (cases "byte c < 128")
    case True
    then have "sanitize (c # s) = c # sanitize s"
      by (simp add: sanitize.simps [of "c # s"] decode_rune_ascii RuneError_def)
    with True 2(1) show ?thesis by (simp add: escape.simps(2) esc_byte_unescape)
  next
    case False
    obtain r n where d: "decode_rune (c # s) = (r, n)" by fastforce
    let ?rest = "escape h (drop n (c # s))"
    have IH: "unescape ?rest = sanitize (drop n (c # s))"
      using 2(2) [OF _ d [symmetric]] False by simp
    have n: "n \<noteq> 0" using decode_rune_width [of "c # s"] d by simp
    show ?thesis
    proof (cases "r = RuneError \<and> n = 1")
      case True
      have fffd: "unescape ([BS] @ ''ufffd'' @ x) = utf8_enc RuneError @ unescape x" for x
        by (simp add: unescape.simps(2) read_u_def hex4_def hex_val_def is_surr_def RuneError_def)
      have "escape h (c # s) = [BS] @ ''ufffd'' @ ?rest"
        using False d True by (simp add: escape.simps(2))
      moreover have "sanitize (c # s) = utf8_enc RuneError @ sanitize (drop n (c # s))"
        using d True by (subst sanitize.simps) simp
      ultimately show ?thesis using IH fffd by (simp del: append.simps)
    next
      case ok: False
      have u: "unescape (take n (c # s) @ x) = take n (c # s) @ unescape x" for x
      proof -
        from n obtain tl where tl: "take n (c # s) @ x = c # tl" by (cases n) auto
        have "decode_rune (c # tl) = (r, n)" using decode_rune_take [OF d ok] tl by metis
        moreover have "take n (c # tl) = take n (c # s)" "drop n (c # tl) = x"
          unfolding tl [symmetric] using decode_rune_width [of "c # s"] d by auto
        moreover have "c \<noteq> BS" using False by auto
        ultimately show ?thesis using False ok unfolding tl
          by (auto simp add: unescape.simps(2) [of c])
      qed
      have s28: "unescape ([BS] @ ''u2028'' @ x) = utf8_enc 0x2028 @ unescape x"
                "unescape ([BS] @ ''u2029'' @ x) = utf8_enc 0x2029 @ unescape x" for x
        by (simp_all add: unescape.simps(2) read_u_def hex4_def hex_val_def is_surr_def)
      have e: "escape h (c # s) = (if r = 0x2028 then [BS] @ ''u2028'' else if r = 0x2029 then [BS] @ ''u2029''
         else take n (c # s)) @ ?rest"
        using False d ok by (auto simp add: escape.simps(2))
      have z: "sanitize (c # s) = take n (c # s) @ sanitize (drop n (c # s))"
        using d ok by (subst sanitize.simps) auto
      have "utf8_enc r = take n (c # s)" if "r = 0x2028 \<or> r = 0x2029"
        using decode_rune_2028 [OF d that] by simp
      then show ?thesis unfolding e z using IH u s28 n
        by (cases "r = 0x2028"; cases "r = 0x2029") (simp_all del: append.simps)
    qed
  qed
qed

lemma unescape_escape: "utf8_valid s \<Longrightarrow> unescape (escape h s) = s"
  by (simp add: unescape_escape_sanitize sanitize_valid)

lemma unescape_plain: "list_all (\<lambda>c. byte c < 128 \<and> c \<noteq> BS) s \<Longrightarrow> unescape s = s"
  by (induction s) (auto simp: unescape.simps(2))

section \<open>Trees\<close>

definition wf_body :: "string \<Rightarrow> bool" where
  "wf_body b \<longleftrightarrow> read_str (b @ [DQ]) = Some (b, [])"

definition wf_num :: "string \<Rightarrow> bool" where
  "wf_num b \<longleftrightarrow> read_num b = Some (b, [])"

fun wf_json :: "json \<Rightarrow> bool" where
  "wf_json (JNum b) \<longleftrightarrow> wf_num b"
| "wf_json (JStr b) \<longleftrightarrow> wf_body b"
| "wf_json (JArr vs) \<longleftrightarrow> list_all wf_json vs"
| "wf_json (JObj ms) \<longleftrightarrow> list_all (\<lambda>(k, v). wf_body k \<and> wf_json v) ms"
| "wf_json _ \<longleftrightarrow> True"

definition delim :: "string \<Rightarrow> bool" where
  "delim t \<longleftrightarrow> (case t of [] \<Rightarrow> True | c # _ \<Rightarrow> c = CHR '','' \<or> c = CHR '']'' \<or> c = CHR ''}'')"

lemma read_str_plain:
  "c \<noteq> DQ \<Longrightarrow> c \<noteq> BS \<Longrightarrow> read_str (c # s) = Some (b, r) \<Longrightarrow>
   \<not> byte c < 32 \<and> (\<exists>b'. b = c # b' \<and> read_str s = Some (b', r))"
  by (auto split: if_splits)

lemma read_str_bs:
  "read_str (BS # s) = Some (b, r) \<Longrightarrow>
   (\<exists>e s' b'. s = e # s' \<and> esc_char e \<noteq> None \<and> b = BS # e # b' \<and> read_str s' = Some (b', r)) \<or>
   (\<exists>p q x y s' b'. s = CHR ''u'' # p # q # x # y # s' \<and> hex4 p q x y \<noteq> None \<and>
      b = BS # CHR ''u'' # p # q # x # y # b' \<and> read_str s' = Some (b', r))"
  by (auto split: if_splits list.splits)

lemma read_str_extend: "read_str s = Some (b, r) \<Longrightarrow> read_str (s @ t) = Some (b, r @ t)"
proof (induction s arbitrary: b rule: length_induct)
  case (1 s)
  show ?case
  proof (cases s)
    case Nil
    with 1 show ?thesis by simp
  next
    case (Cons c s0)
    have IH: "read_str s' = Some (b', r) \<Longrightarrow> length s' \<le> length s0 \<Longrightarrow> read_str (s' @ t) = Some (b', r @ t)" for s' b'
      using 1(1) Cons by auto
    consider "c = DQ" | "c = BS" | "c \<noteq> DQ" "c \<noteq> BS" by blast
    then show ?thesis
    proof cases
      case 1
      with Cons \<open>read_str s = Some (b, r)\<close> show ?thesis by auto
    next
      case 2
      have u: "esc_char (CHR ''u'') = None" by (simp add: esc_char_def)
      from 1(2) have "read_str (BS # s0) = Some (b, r)" by (simp only: Cons 2)
      from read_str_bs [OF this] u show ?thesis
        by (elim disjE exE conjE) (use IH Cons 2 in auto)
    next
      case 3
      with Cons 1(2) show ?thesis by (auto dest!: read_str_plain IH)
    qed
  qed
qed

lemma wf_bodyD: "wf_body b \<Longrightarrow> read_str (b @ DQ # t) = Some (b, t)"
  using read_str_extend [of "b @ [DQ]" b "[]" t] by (simp add: wf_body_def)

lemma wf_body_escape [simp]: "wf_body (escape h s)"
  by (simp add: wf_body_def read_str_escape)

lemma delim_not_digit: "delim t \<Longrightarrow> takeWhile is_digit t = [] \<and> dropWhile is_digit t = t"
  by (auto simp: delim_def is_digit_def split: list.splits)

lemma span_digits_extend:
  "delim t \<Longrightarrow> span_digits s = (d, r) \<Longrightarrow> span_digits (s @ t) = (d, r @ t)"
proof -
  assume "delim t"
  note n = delim_not_digit [OF this]
  have "takeWhile is_digit (s @ t) = takeWhile is_digit s \<and> dropWhile is_digit (s @ t) = dropWhile is_digit s @ t"
    by (induction s) (simp_all add: n)
  then show "span_digits s = (d, r) \<Longrightarrow> span_digits (s @ t) = (d, r @ t)"
    by (auto simp: span_digits_def)
qed

lemma read_int_part_extend:
  "delim t \<Longrightarrow> read_int_part s = Some (i, r) \<Longrightarrow> read_int_part (s @ t) = Some (i, r @ t)"
  using span_digits_extend [of t s i r]
  by (auto simp: read_int_part_def split: list.splits if_splits)

lemma read_frac_extend:
  "delim t \<Longrightarrow> read_frac s = Some (i, r) \<Longrightarrow> read_frac (s @ t) = Some (i, r @ t)"
  by (auto simp: read_frac_def delim_def span_digits_extend split: list.splits if_splits prod.splits)

lemma read_exp_extend:
  assumes t: "delim t" and s: "read_exp s = Some (i, r)"
  shows "read_exp (s @ t) = Some (i, r @ t)"
proof (cases s)
  case Nil
  with s t show ?thesis by (auto simp: read_exp_def delim_def split: list.splits)
next
  case (Cons c s1)
  show ?thesis
  proof (cases "c = CHR ''e'' \<or> c = CHR ''E''")
    case False
    with s Cons show ?thesis by (auto simp: read_exp_def)
  next
    case True
    obtain sg r1 where sg: "(case s1 of x # r1 \<Rightarrow> if x = CHR ''+'' \<or> x = CHR ''-'' then ([x], r1) else ([], s1)
        | [] \<Rightarrow> ([], s1)) = (sg, r1)" by fastforce
    obtain d r2 where d: "span_digits r1 = (d, r2)" by fastforce
    from s Cons True sg d have i: "d \<noteq> []" "i = c # sg @ d" "r = r2"
      by (auto simp: read_exp_def Let_def split: if_splits)
    have "s1 \<noteq> []" using sg d i by (auto simp: span_digits_def)
    then have "(case s1 @ t of x # r1 \<Rightarrow> if x = CHR ''+'' \<or> x = CHR ''-'' then ([x], r1) else ([], s1 @ t)
        | [] \<Rightarrow> ([], s1 @ t)) = (sg, r1 @ t)" using sg by (auto split: list.splits if_splits)
    with True Cons i span_digits_extend [OF t d] show ?thesis
      by (auto simp: read_exp_def Let_def)
  qed
qed

lemma read_num_extend:
  assumes t: "delim t" and s: "read_num s = Some (b, r)"
  shows "read_num (s @ t) = Some (b, r @ t)"
proof -
  obtain sg s1 where sg: "(case s of c # r \<Rightarrow> if c = CHR ''-'' then ([c], r) else ([], s) | [] \<Rightarrow> ([], s)) = (sg, s1)"
    by fastforce
  from s sg obtain i s2 f s3 e where
    p: "read_int_part s1 = Some (i, s2)" "read_frac s2 = Some (f, s3)" "read_exp s3 = Some (e, r)"
       "b = sg @ i @ f @ e"
    by (auto simp: read_num_def Let_def split: option.splits)
  have "s \<noteq> []" using sg p(1) by (auto simp: read_int_part_def)
  then have "(case s @ t of c # r \<Rightarrow> if c = CHR ''-'' then ([c], r) else ([], s @ t) | [] \<Rightarrow> ([], s @ t))
     = (sg, s1 @ t)" using sg by (auto split: list.splits if_splits)
  with p read_int_part_extend [OF t p(1)] read_frac_extend [OF t p(2)] read_exp_extend [OF t p(3)]
  show ?thesis by (simp add: read_num_def Let_def)
qed

lemma wf_numD: "wf_num b \<Longrightarrow> delim t \<Longrightarrow> read_num (b @ t) = Some (b, t)"
  using read_num_extend [of t b b "[]"] by (simp add: wf_num_def)

lemma wf_num_head: "wf_num b \<Longrightarrow> \<exists>c b'. b = c # b' \<and> (c = CHR ''-'' \<or> is_digit c)"
  by (auto simp: wf_num_def read_num_def read_int_part_def is_digit_def Let_def split: list.splits if_splits)

lemma dec_nat_head: "n \<noteq> 0 \<Longrightarrow> \<exists>c s. dec_nat n = c # s \<and> is_digit c \<and> c \<noteq> CHR ''0''"
proof (induction n rule: dec_nat.induct)
  case (1 n)
  show ?case
  proof (cases "n < 10")
    case True
    then have b: "byte (char_of (48 + n) :: char) = 48 + n" by simp
    have "char_of (48 + n) \<noteq> CHR ''0''"
    proof
      assume "char_of (48 + n) = CHR ''0''"
      then have "byte (char_of (48 + n) :: char) = byte (CHR ''0'')" by (rule arg_cong)
      with b 1(2) show False by simp
    qed
    moreover have "is_digit (char_of (48 + n))" using b True by (simp add: is_digit_def)
    ultimately show ?thesis using True by (subst dec_nat.simps) simp
  next
    case False
    then have "n div 10 \<noteq> 0" by simp
    with False 1(1) obtain c s where "dec_nat (n div 10) = c # s" "is_digit c" "c \<noteq> CHR ''0''" by blast
    with False show ?thesis by (subst dec_nat.simps) simp
  qed
qed

lemma digits_wf:
  "\<forall>x \<in> set s. is_digit x \<Longrightarrow> is_digit c \<Longrightarrow> c \<noteq> CHR ''0'' \<Longrightarrow>
   read_num (c # s) = Some (c # s, []) \<and> read_num (CHR ''-'' # c # s) = Some (CHR ''-'' # c # s, [])"
proof -
  assume s: "\<forall>x \<in> set s. is_digit x" and c: "is_digit c" "c \<noteq> CHR ''0''"
  then have "span_digits (c # s) = (c # s, [])" "c \<noteq> CHR ''-''"
    by (auto simp: span_digits_def is_digit_def takeWhile_eq_all_conv)
  with c show ?thesis by (simp add: read_num_def read_int_part_def read_frac_def read_exp_def)
qed

lemma dec_nat_wf: "read_num (dec_nat n) = Some (dec_nat n, []) \<and> read_num (CHR ''-'' # dec_nat n) = Some (CHR ''-'' # dec_nat n, [])"
proof (cases "n = 0")
  case True
  then show ?thesis
    by (simp add: dec_nat.simps read_num_def read_int_part_def read_frac_def read_exp_def)
next
  case False
  then obtain c s where "dec_nat n = c # s" "is_digit c" "c \<noteq> CHR ''0''" using dec_nat_head by blast
  with digits_wf [of s c] dec_nat_digits [of _ n] show ?thesis by auto
qed

lemma wf_num_dec_int [simp]: "wf_num (dec_int i)"
  using dec_nat_wf [of "nat i"] dec_nat_wf [of "nat (- i)"]
  by (simp add: wf_num_def dec_int_def)

lemma num_int_dec_int: "go_int_min \<le> i \<Longrightarrow> i \<le> go_int_max \<Longrightarrow> num_int (dec_int i) = Some i"
proof -
  assume b: "go_int_min \<le> i" "i \<le> go_int_max"
  have d: "list_all is_digit (dec_nat n)" for n by (auto simp: list_all_iff dec_nat_digits)
  obtain c s where c: "dec_nat (nat i) = c # s" "is_digit c"
    using dec_nat_digits [of _ "nat i"] by (cases "dec_nat (nat i)") auto
  then have "c \<noteq> CHR ''-''" by (auto simp: is_digit_def)
  with b c d [of "nat i"] d [of "nat (- i)"] show ?thesis
    using digits_val_dec_nat [of "nat i"] digits_val_dec_nat [of "nat (- i)"]
    by (auto simp: num_int_def dec_int_def Let_def)
qed

lemma skip_ws_Cons: "c \<noteq> CHR '' '' \<Longrightarrow> c \<noteq> CHR 0x09 \<Longrightarrow> c \<noteq> CHR 0x0A \<Longrightarrow> c \<noteq> CHR 0x0D \<Longrightarrow>
   skip_ws (c # s) = c # s"
  by (simp add: skip_ws_def)

lemma is_digit_ne:
  "is_digit c \<Longrightarrow> c \<noteq> CHR '' '' \<and> c \<noteq> CHR 0x09 \<and> c \<noteq> CHR 0x0A \<and> c \<noteq> CHR 0x0D \<and> c \<noteq> DQ \<and> c \<noteq> CHR ''[''
    \<and> c \<noteq> CHR ''{'' \<and> c \<noteq> CHR ''n'' \<and> c \<noteq> CHR ''t'' \<and> c \<noteq> CHR ''f'' \<and> c \<noteq> CHR '']'' \<and> c \<noteq> CHR ''}''"
  by (auto simp: is_digit_def)

lemma print_head:
  "wf_json v \<Longrightarrow> \<exists>c s. print_json v = c # s \<and> c \<noteq> CHR '' '' \<and> c \<noteq> CHR 0x09 \<and> c \<noteq> CHR 0x0A \<and> c \<noteq> CHR 0x0D
     \<and> c \<noteq> CHR '']'' \<and> c \<noteq> CHR ''}''"
  by (cases v) (auto dest!: wf_num_head is_digit_ne)

lemma read_val_num:
  "wf_num b \<Longrightarrow> delim t \<Longrightarrow> read_val (Suc n) (b @ t) = Some (JNum b, t)"
  using wf_num_head [of b] wf_numD [of b t]
  by (auto simp: skip_ws_Cons dest!: is_digit_ne)

lemma read_elems_print:
  assumes "\<And>v t n. v \<in> set vs \<Longrightarrow> delim t \<Longrightarrow> 2 * length (print_json v) \<le> n \<Longrightarrow>
      read_val n (print_json v @ t) = Some (v, t)"
    and "vs \<noteq> []" and "1 + 2 * length (Join (map print_json vs) '','') \<le> n"
  shows "read_elems n (Join (map print_json vs) '','' @ CHR '']'' # t) = Some (vs, t)"
  using assms
proof (induction vs arbitrary: n)
  case (Cons v vs)
  then obtain m where n: "n = Suc m" by (cases n) auto
  show ?case
  proof (cases "vs = []")
    case True
    with Cons.prems n show ?thesis by (simp add: delim_def skip_ws_Cons)
  next
    case False
    let ?j = "Join (map print_json vs) '',''"
    have j: "Join (map print_json (v # vs)) '','' = print_json v @ CHR '','' # ?j"
      using False by (simp add: Join_Cons)
    have "read_val m (print_json v @ CHR '','' # ?j @ CHR '']'' # t) = Some (v, CHR '','' # ?j @ CHR '']'' # t)"
      using Cons.prems(1) [of v "CHR '','' # ?j @ CHR '']'' # t" m] Cons.prems(3) n j by (simp add: delim_def)
    moreover have "read_elems m (?j @ CHR '']'' # t) = Some (vs, t)"
      using Cons.IH [of m] Cons.prems False n j by auto
    ultimately show ?thesis unfolding j n by (simp add: skip_ws_Cons)
  qed
qed simp

definition print_member :: "string \<times> json \<Rightarrow> string" where
  "print_member = (\<lambda>(k, v). [DQ] @ k @ [DQ] @ '':'' @ print_json v)"

lemma read_members_print:
  assumes "\<And>k v t n. (k, v) \<in> set ms \<Longrightarrow> delim t \<Longrightarrow> 2 * length (print_json v) \<le> n \<Longrightarrow>
      read_val n (print_json v @ t) = Some (v, t)"
    and "\<And>k v. (k, v) \<in> set ms \<Longrightarrow> wf_body k"
    and "ms \<noteq> []" and "1 + 2 * length (Join (map print_member ms) '','') \<le> n"
  shows "read_members n (Join (map print_member ms) '','' @ CHR ''}'' # t) = Some (ms, t)"
  using assms
proof (induction ms arbitrary: n)
  case (Cons p ms)
  obtain k v where p: "p = (k, v)" by fastforce
  obtain m where n: "n = Suc m" using Cons.prems by (cases n) auto
  have k: "read_str (k @ DQ # x) = Some (k, x)" for x using Cons.prems(2) p wf_bodyD by auto
  show ?case
  proof (cases "ms = []")
    case True
    with Cons.prems(1) [of k v "CHR ''}'' # t" m] Cons.prems(4) n k p show ?thesis
      by (simp add: delim_def skip_ws_Cons print_member_def)
  next
    case False
    let ?j = "Join (map print_member ms) '',''"
    have j: "Join (map print_member (p # ms)) '','' = DQ # k @ DQ # CHR '':'' # print_json v @ CHR '','' # ?j"
      using False by (simp add: Join_Cons p print_member_def)
    have "read_val m (print_json v @ CHR '','' # ?j @ CHR ''}'' # t) = Some (v, CHR '','' # ?j @ CHR ''}'' # t)"
      using Cons.prems(1) [of k v "CHR '','' # ?j @ CHR ''}'' # t" m] Cons.prems(4) n j p by (simp add: delim_def)
    moreover have "read_members m (?j @ CHR ''}'' # t) = Some (ms, t)"
    proof (rule Cons.IH [OF _ _ False])
      show "1 + 2 * length ?j \<le> m" using Cons.prems(4) n j by simp
    qed (meson Cons.prems list.set_intros(2))+
    ultimately show ?thesis unfolding j n by (simp add: k p skip_ws_Cons)
  qed
qed simp

lemma read_val_print:
  "wf_json v \<Longrightarrow> delim t \<Longrightarrow> 2 * length (print_json v) \<le> n \<Longrightarrow> read_val n (print_json v @ t) = Some (v, t)"
proof (induction v arbitrary: t n)
  case JNull
  then show ?case by (cases n) (simp_all add: skip_ws_Cons)
next
  case (JBool b)
  then show ?case by (cases n; cases b) (auto simp add: skip_ws_Cons)
next
  case (JNum b)
  then have b: "wf_num b" and l: "2 * length b \<le> n" by simp_all
  obtain c b' where "b = c # b'" using wf_num_head [OF b] by blast
  with l obtain m where "n = Suc m" by (cases n) auto
  with read_val_num [OF b JNum.prems(2)] show ?case by (simp only: print_json.simps)
next
  case (JStr b)
  then show ?case by (cases n) (auto simp add: skip_ws_Cons wf_bodyD)
next
  case (JArr vs)
  then obtain m where n: "n = Suc m" by (cases n) auto
  show ?case
  proof (cases vs)
    case Nil
    with n show ?thesis by (simp add: skip_ws_Cons)
  next
    case (Cons v vs')
    have wf: "\<And>x. x \<in> set vs \<Longrightarrow> wf_json x" using JArr.prems by (simp add: list_all_iff)
    have e: "read_elems m (Join (map print_json vs) '','' @ CHR '']'' # t) = Some (vs, t)"
      using JArr wf n Cons by (intro read_elems_print) auto
    obtain c s where c: "print_json v = c # s" "c \<noteq> CHR '' ''" "c \<noteq> CHR 0x09" "c \<noteq> CHR 0x0A"
        "c \<noteq> CHR 0x0D" "c \<noteq> CHR '']''"
      using print_head [of v] wf Cons by auto
    obtain s'' where j: "Join (map print_json vs) '','' = c # s''"
      using Cons c(1) by (cases vs') auto
    have "skip_ws (c # x) = c # x" for x using c by (simp add: skip_ws_Cons)
    with e n j c(6) show ?thesis by (simp add: skip_ws_Cons)
  qed
next
  case (JObj ms)
  then obtain m where n: "n = Suc m" by (cases n) auto
  have pm: "map (\<lambda>(k, v). [DQ] @ k @ [DQ] @ '':'' @ print_json v) ms = map print_member ms"
    by (simp add: print_member_def)
  show ?case
  proof (cases ms)
    case Nil
    with n show ?thesis by (simp add: skip_ws_Cons)
  next
    case (Cons p ms')
    have wf: "\<And>k x. (k, x) \<in> set ms \<Longrightarrow> wf_body k \<and> wf_json x" using JObj.prems by (auto simp add: list_all_iff)
    have e: "read_members m (Join (map print_member ms) '','' @ CHR ''}'' # t) = Some (ms, t)"
      using JObj wf n Cons unfolding print_json.simps pm
      by (intro read_members_print) (auto intro: snds.intros)
    obtain s where "Join (map print_member ms) '','' = DQ # s"
      using Cons by (cases p; cases ms') (auto simp: print_member_def)
    with e n show ?thesis unfolding print_json.simps pm by (simp add: skip_ws_Cons)
  qed
qed

lemma read_json_print: "wf_json v \<Longrightarrow> read_json (print_json v) = Some v"
  using read_val_print [of v "[]" "2 * length (print_json v) + 2"]
  by (simp add: read_json_def delim_def skip_ws_def)

section \<open>What is read is well-formed\<close>

lemma read_str_wf: "read_str s = Some (b, r) \<Longrightarrow> wf_body b"
proof (induction s arbitrary: b rule: length_induct)
  case (1 s)
  show ?case
  proof (cases s)
    case Nil
    with 1 show ?thesis by simp
  next
    case (Cons c s0)
    have IH: "read_str s' = Some (b', r) \<Longrightarrow> length s' \<le> length s0 \<Longrightarrow> wf_body b'" for s' b'
      using 1(1) [rule_format, of s' b'] Cons by (simp add: less_Suc_eq_le)
    have u: "esc_char (CHR ''u'') = None" by (simp add: esc_char_def)
    consider "c = DQ" | "c = BS" | "c \<noteq> DQ" "c \<noteq> BS" by blast
    then show ?thesis
    proof cases
      case 1
      with Cons \<open>read_str s = Some (b, r)\<close> show ?thesis by (auto simp: wf_body_def)
    next
      case 2
      from 1(2) have "read_str (BS # s0) = Some (b, r)" by (simp only: Cons 2)
      from read_str_bs [OF this] u show ?thesis
        by (elim disjE exE conjE) (use IH in \<open>force simp: wf_body_def\<close>)+
    next
      case 3
      with Cons 1(2) IH show ?thesis by (fastforce dest!: read_str_plain simp: wf_body_def)
    qed
  qed
qed

lemma span_digits_take:
  "span_digits s = (d, r) \<Longrightarrow> u = [] \<or> \<not> is_digit (hd u) \<Longrightarrow> span_digits (d @ u) = (d, u)"
proof -
  assume "span_digits s = (d, r)" and u: "u = [] \<or> \<not> is_digit (hd u)"
  then have d: "\<forall>x \<in> set d. is_digit x" by (auto simp: span_digits_def dest: set_takeWhileD)
  have "takeWhile is_digit u = [] \<and> dropWhile is_digit u = u" using u by (cases u) auto
  with d show ?thesis by (simp add: span_digits_def takeWhile_append2 dropWhile_append2)
qed

lemma read_int_part_take:
  "read_int_part s = Some (i, r) \<Longrightarrow> u = [] \<or> \<not> is_digit (hd u) \<Longrightarrow> read_int_part (i @ u) = Some (i, u)"
proof -
  assume r: "read_int_part s = Some (i, r)" and u: "u = [] \<or> \<not> is_digit (hd u)"
  obtain c s' where s: "s = c # s'" using r by (cases s) (auto simp: read_int_part_def)
  show ?thesis
  proof (cases "c = CHR ''0''")
    case True
    with r s show ?thesis by (auto simp: read_int_part_def)
  next
    case False
    with r s have c: "is_digit c" "span_digits s = (i, r)" by (auto simp: read_int_part_def split: if_splits)
    then obtain i' where "i = c # i'" using s by (auto simp: span_digits_def)
    with c False span_digits_take [OF c(2) u] show ?thesis by (simp add: read_int_part_def)
  qed
qed

lemma read_int_part_head: "read_int_part s = Some (i, r) \<Longrightarrow> \<exists>c i'. i = c # i' \<and> is_digit c"
proof -
  assume r: "read_int_part s = Some (i, r)"
  then obtain c s' where s: "s = c # s'" by (cases s) (auto simp: read_int_part_def)
  have "is_digit (CHR ''0'')" by (simp add: is_digit_def)
  with r s show ?thesis by (auto simp: read_int_part_def span_digits_def split: if_splits)
qed

lemma read_frac_take:
  "read_frac s = Some (f, r) \<Longrightarrow> u = [] \<or> hd u = CHR ''e'' \<or> hd u = CHR ''E'' \<Longrightarrow>
   read_frac (f @ u) = Some (f, u) \<and> (f = [] \<or> hd f = CHR ''.'')"
proof -
  assume r: "read_frac s = Some (f, r)" and u: "u = [] \<or> hd u = CHR ''e'' \<or> hd u = CHR ''E''"
  then have nd: "u = [] \<or> \<not> is_digit (hd u)" by (auto simp: is_digit_def)
  show ?thesis
  proof (cases "f = []")
    case True
    with u show ?thesis by (cases u) (auto simp: read_frac_def)
  next
    case False
    with r obtain d s' r' where "f = CHR ''.'' # d" "span_digits s' = (d, r')" "d \<noteq> []"
      by (auto simp: read_frac_def split: list.splits if_splits prod.splits)
    with span_digits_take [OF _ nd] show ?thesis by (auto simp: read_frac_def)
  qed
qed

lemma read_exp_take:
  "read_exp s = Some (e, r) \<Longrightarrow> read_exp e = Some (e, []) \<and> (e = [] \<or> hd e = CHR ''e'' \<or> hd e = CHR ''E'')"
proof -
  assume r: "read_exp s = Some (e, r)"
  show ?thesis
  proof (cases "e = []")
    case True
    then show ?thesis by (simp add: read_exp_def)
  next
    case False
    then obtain c s1 where s: "s = c # s1" and c: "c = CHR ''e'' \<or> c = CHR ''E''"
      using r by (auto simp: read_exp_def split: list.splits if_splits)
    obtain sg r1 where sg1: "(case s1 of x # r1 \<Rightarrow> if x = CHR ''+'' \<or> x = CHR ''-'' then ([x], r1) else ([], s1)
        | [] \<Rightarrow> ([], s1)) = (sg, r1)" by fastforce
    obtain d r2 where d1: "span_digits r1 = (d, r2)" by fastforce
    from r s c sg1 d1 have d: "span_digits r1 = (d, r)" "d \<noteq> []" and e: "e = c # sg @ d"
      by (auto simp: read_exp_def Let_def split: if_splits)
    have sg: "sg = [] \<or> sg = ''+'' \<or> sg = ''-''" using sg1 by (auto split: list.splits if_splits)
    have "\<forall>x \<in> set d. is_digit x" using d by (auto simp: span_digits_def dest: set_takeWhileD)
    then have "hd d \<noteq> CHR ''+''" "hd d \<noteq> CHR ''-''" using d(2) by (cases d; auto simp: is_digit_def)+
    then have "read_exp e = Some (e, [])"
      using e c sg d span_digits_take [OF d(1), of "[]"] by (cases d) (auto simp: read_exp_def)
    with e c show ?thesis by auto
  qed
qed

lemma read_num_wf: "read_num s = Some (b, r) \<Longrightarrow> wf_num b"
proof -
  assume s: "read_num s = Some (b, r)"
  obtain sg s1 where sg: "(case s of c # r \<Rightarrow> if c = CHR ''-'' then ([c], r) else ([], s) | [] \<Rightarrow> ([], s)) = (sg, s1)"
    by fastforce
  from s sg obtain i s2 f s3 e where
    p: "read_int_part s1 = Some (i, s2)" "read_frac s2 = Some (f, s3)" "read_exp s3 = Some (e, r)"
       "b = sg @ i @ f @ e"
    by (auto simp: read_num_def Let_def split: option.splits)
  have e: "read_exp e = Some (e, [])" "e = [] \<or> hd e = CHR ''e'' \<or> hd e = CHR ''E''"
    using read_exp_take [OF p(3)] by auto
  have f: "read_frac (f @ e) = Some (f, e)" "f = [] \<or> hd f = CHR ''.''"
    using read_frac_take [OF p(2) e(2)] by auto
  have "f @ e = [] \<or> \<not> is_digit (hd (f @ e))" using e(2) f(2) by (cases f) (auto simp: is_digit_def)
  then have i: "read_int_part (i @ f @ e) = Some (i, f @ e)" by (rule read_int_part_take [OF p(1)])
  obtain c i' where c: "i = c # i'" "is_digit c"
    using read_int_part_head [OF p(1)] by blast
  have "sg = [] \<or> sg = ''-''" using sg by (auto split: list.splits if_splits)
  moreover have "c \<noteq> CHR ''-''" using c by (auto simp: is_digit_def)
  ultimately show ?thesis using i f e p(4) c
    by (auto simp: wf_num_def read_num_def Let_def)
qed

lemma read_wf:
  "read_val n s = Some (v, r) \<Longrightarrow> wf_json v"
  "read_elems n s = Some (vs, r) \<Longrightarrow> list_all wf_json vs"
  "read_members n s = Some (ms, r) \<Longrightarrow> list_all (\<lambda>(k, v). wf_body k \<and> wf_json v) ms"
proof (induction n s and n s and n s arbitrary: v r and vs r and ms r rule: read_val_read_elems_read_members.induct)
  case (2 n s)
  then show ?case
    by (auto split: list.splits if_splits dest: read_str_wf read_num_wf)
next
  case (4 n s)
  then show ?case
    by (auto split: list.splits if_splits option.splits)
next
  case (6 n s)
  then show ?case
    by (auto split: list.splits if_splits option.splits) (erule read_str_wf)+
qed simp_all

lemma read_json_wf: "read_json s = Some v \<Longrightarrow> wf_json v"
  by (auto simp: read_json_def simp del: read_val.simps split: option.splits if_splits dest: read_wf(1))

section \<open>Compaction of raw JSON keeps it well-formed\<close>

lemma wf_body_Nil [simp]: "wf_body []"
  by (simp add: wf_body_def)

lemma wf_body_Cons_plain:
  "c \<noteq> DQ \<Longrightarrow> c \<noteq> BS \<Longrightarrow> \<not> byte c < 32 \<Longrightarrow> wf_body (c # b) \<longleftrightarrow> wf_body b"
  by (auto simp: wf_body_def)

lemma wf_body_esc: "esc_char e \<noteq> None \<Longrightarrow> wf_body (BS # e # b) \<longleftrightarrow> wf_body b"
  by (auto simp: wf_body_def)

lemma wf_body_u:
  "hex4 p q x y \<noteq> None \<Longrightarrow> wf_body (BS # CHR ''u'' # p # q # x # y # b) \<longleftrightarrow> wf_body b"
  by (auto simp: wf_body_def esc_char_def)

lemma wf_body_cases:
  assumes "wf_body b"
  obtains "b = []"
  | c b' where "b = c # b'" "c \<noteq> DQ" "c \<noteq> BS" "\<not> byte c < 32" "wf_body b'"
  | e b' where "b = BS # e # b'" "esc_char e \<noteq> None" "wf_body b'"
  | p q x y b' where "b = BS # CHR ''u'' # p # q # x # y # b'" "hex4 p q x y \<noteq> None" "wf_body b'"
proof (cases b)
  case Nil
  with that show ?thesis by blast
next
  case (Cons c b0)
  have r: "read_str (c # b0 @ [DQ]) = Some (c # b0, [])" using assms Cons by (simp add: wf_body_def)
  consider "c = DQ" | "c = BS" | "c \<noteq> DQ" "c \<noteq> BS" by blast
  then show ?thesis
  proof cases
    case 1
    with r show ?thesis by simp
  next
    case 2
    have r2: "read_str (BS # b0 @ [DQ]) = Some (BS # b0, [])" using r 2 by (simp only:)
    have u: "esc_char (CHR ''u'') = None" by (simp add: esc_char_def)
    from read_str_bs [OF r2] show ?thesis
    proof (elim disjE exE conjE)
      fix e s' b'
      assume a: "b0 @ [DQ] = e # s'" "esc_char e \<noteq> None" "BS # b0 = BS # e # b'" "read_str s' = Some (b', [])"
      then have "b0 = e # b'" "s' = b' @ [DQ]" by auto
      with a 2 Cons that(3) show ?thesis by (simp add: wf_body_def)
    next
      fix p q x y s' b'
      assume a: "b0 @ [DQ] = CHR ''u'' # p # q # x # y # s'" "hex4 p q x y \<noteq> None"
        "BS # b0 = BS # CHR ''u'' # p # q # x # y # b'" "read_str s' = Some (b', [])"
      then have "b0 = CHR ''u'' # p # q # x # y # b'" "s' = b' @ [DQ]" by auto
      with a 2 Cons that(4) show ?thesis by (simp add: wf_body_def)
    qed
  next
    case 3
    from read_str_plain [OF 3 r] have "\<not> byte c < 32" "read_str (b0 @ [DQ]) = Some (b0, [])" by auto
    with 3 Cons that(2) show ?thesis by (simp add: wf_body_def)
  qed
qed

declare html_body.simps(2) [simp del]

lemma html_body_skip:
  "c \<noteq> CHR ''<'' \<Longrightarrow> c \<noteq> CHR ''>'' \<Longrightarrow> c \<noteq> CHR ''&'' \<Longrightarrow> c \<noteq> CHR 0xE2 \<Longrightarrow> html_body (c # s) = c # html_body s"
  by (subst html_body.simps(2)) (simp split: list.splits)

lemma esc_char_plain:
  "esc_char e \<noteq> None \<Longrightarrow> e \<noteq> CHR ''<'' \<and> e \<noteq> CHR ''>'' \<and> e \<noteq> CHR ''&'' \<and> e \<noteq> CHR 0xE2"
  by (auto simp: esc_char_def split: if_splits)

lemma hex_val_plain:
  "hex_val c \<noteq> None \<Longrightarrow> c \<noteq> CHR ''<'' \<and> c \<noteq> CHR ''>'' \<and> c \<noteq> CHR ''&'' \<and> c \<noteq> CHR 0xE2"
  by (auto simp: hex_val_def split: if_splits)

lemma hex4_plain:
  "hex4 p q x y \<noteq> None \<Longrightarrow> c \<in> {p, q, x, y} \<Longrightarrow> c \<noteq> CHR ''<'' \<and> c \<noteq> CHR ''>'' \<and> c \<noteq> CHR ''&'' \<and> c \<noteq> CHR 0xE2"
  by (rule hex_val_plain) (auto simp: hex4_def split: option.splits)

lemma html_body_wf: "wf_body b \<Longrightarrow> wf_body (html_body b)"
proof (induction b rule: length_induct)
  case (1 b)
  from 1(2) show ?case
  proof (cases rule: wf_body_cases)
    case 1
    then show ?thesis by simp
  next
    case (2 c b')
    have IH: "wf_body (html_body b'')" if "wf_body b''" "length b'' \<le> length b'" for b''
      using "1.IH" 2 that by auto
    show ?thesis
    proof (cases "c = CHR ''<'' \<or> c = CHR ''>'' \<or> c = CHR ''&''")
      case True
      then have "html_body b = BS # CHR ''u'' # CHR ''0'' # CHR ''0'' # hex_digit (byte c div 16) #
          hex_digit (byte c mod 16) # html_body b'" and "byte c < 128"
        using 2 by (auto simp: esc_byte_def html_body.simps(2))
      with IH [of b'] 2 show ?thesis by (simp add: wf_body_u hex4_byte)
    next
      case False
      show ?thesis
      proof (cases "\<exists>d s. c = CHR 0xE2 \<and> b' = CHR 0x80 # d # s \<and> (d = CHR 0xA8 \<or> d = CHR 0xA9)")
        case True
        then obtain d s where d: "c = CHR 0xE2" "b' = CHR 0x80 # d # s" "d = CHR 0xA8 \<or> d = CHR 0xA9" by blast
        then have h: "html_body b = BS # CHR ''u'' # CHR ''2'' # CHR ''0'' # CHR ''2'' # hex_digit (byte d mod 16) # html_body s"
          using 2 by (auto simp: html_body.simps(2))
        have x: "hex4 (CHR ''2'') (CHR ''0'') (CHR ''2'') (hex_digit (byte d mod 16)) \<noteq> None"
          using d(3) by (auto simp: hex4_def hex_val_def hex_digit_def)
        have "wf_body s" using d 2 by (auto simp: wf_body_Cons_plain)
        with h x IH [of s] d show ?thesis by (simp add: wf_body_u)
      next
        case nls: False
        then have "html_body b = c # html_body b'" using False 2
          by (cases b'; cases "tl b'") (auto simp: html_body.simps(2))
        with IH [of b'] 2 show ?thesis by (simp add: wf_body_Cons_plain)
      qed
    qed
  next
    case (3 e b')
    then have "html_body b = BS # e # html_body b'"
      using esc_char_plain [of e] by (simp add: html_body_skip)
    with "1.IH" 3 show ?thesis by (simp add: wf_body_esc)
  next
    case (4 p q x y b')
    then have "html_body b = BS # CHR ''u'' # p # q # x # y # html_body b'"
      using hex4_plain [of p q x y] by (simp add: html_body_skip)
    with "1.IH" 4 show ?thesis by (simp add: wf_body_u)
  qed
qed

lemma html_json_wf: "wf_json v \<Longrightarrow> wf_json (html_json v)"
  by (induction v) (auto simp: list_all_iff html_body_wf intro: snds.intros)

end
