(* ===== verification/Gotime.thy ===== *)
theory Gotime
  imports Prelude "HOL-Library.Monad_Syntax"
begin

text \<open>
  The part of Go's \<open>time\<close> package the program uses: the proleptic Gregorian calendar, the text
  of an instant in RFC 3339 with nanoseconds (what \<open>time.Time\<close> is marshalled to in JSON) and its
  reading. An instant is a number of nanoseconds since 0001-01-01T00:00:00Z.
\<close>

section \<open>Days and dates\<close>

definition days_before :: "int \<Rightarrow> int" where
  "days_before y = 365 * (y - 1) + (y - 1) div 4 - (y - 1) div 100 + (y - 1) div 400"

text \<open>The year of a day and the day's number in the year, from 0.\<close>

definition year_day :: "int \<Rightarrow> int \<times> int" where
  "year_day d =
     (let a = d div 146097; d1 = d mod 146097;
          b = min 3 (d1 div 36524); d2 = d1 - b * 36524;
          c = d2 div 1461; d3 = d2 - c * 1461;
          e = min 3 (d3 div 365)
      in (400 * a + 100 * b + 4 * c + e + 1, d3 - e * 365))"

definition is_leap :: "int \<Rightarrow> bool" where
  "is_leap y \<longleftrightarrow> y mod 4 = 0 \<and> (y mod 100 \<noteq> 0 \<or> y mod 400 = 0)"

definition month_lens :: "int \<Rightarrow> nat list" where
  "month_lens y = [31, if is_leap y then 29 else 28, 31, 30, 31, 30, 31, 31, 30, 31, 30, 31]"

fun month_day :: "nat list \<Rightarrow> nat \<Rightarrow> nat \<Rightarrow> nat \<times> nat" where
  "month_day [] m d = (m, d)"
| "month_day (l # ls) m d = (if d < l then (m, d) else month_day ls (Suc m) (d - l))"

definition date_of :: "int \<Rightarrow> int \<times> nat \<times> nat" where
  "date_of d = (let (y, yd) = year_day d; (m, md) = month_day (month_lens y) 1 (nat yd) in (y, m, md + 1))"

definition day_of :: "int \<Rightarrow> nat \<Rightarrow> nat \<Rightarrow> int" where
  "day_of y m d = days_before y + int (sum_list (take (m - 1) (month_lens y))) + int d - 1"

lemma year_day_bounds:
  assumes "year_day d = (y, yd)"
  shows "days_before y + yd = d" "0 \<le> yd" "yd < (if is_leap y then 366 else 365)"
proof -
  define a d1 where ad: "a = d div 146097" "d1 = d mod 146097"
  define b where b: "b = min 3 (d1 div 36524)"
  define d2 where d2: "d2 = d1 - b * 36524"
  define c where c: "c = d2 div 1461"
  define d3 where d3: "d3 = d2 - c * 1461"
  define e where e: "e = min 3 (d3 div 365)"
  have y: "y = 400 * a + 100 * b + 4 * c + e + 1" "yd = d3 - e * 365"
    using assms by (simp_all only: year_day_def Let_def prod.inject ad b d2 c d3 e)
  have d: "d = 146097 * a + d1" "0 \<le> d1" "d1 < 146097" by (simp_all add: ad)
  have bb: "0 \<le> b" "b \<le> 3" "0 \<le> d2" "b < 3 \<Longrightarrow> d2 < 36524" "d2 < 36525"
    using d unfolding b d2 by (auto simp: min_def)
  have cc: "0 \<le> c" "c \<le> 24" "0 \<le> d3" "d3 < 1461" "c = 24 \<Longrightarrow> b < 3 \<Longrightarrow> d3 < 1460"
    using bb unfolding c d3 by auto
  have ee: "0 \<le> e" "e \<le> 3" "0 \<le> yd" "e < 3 \<Longrightarrow> yd < 365" "yd < 366"
    using cc unfolding e y(2) by (auto simp: min_def)
  have "y - 1 = e + (100 * a + 25 * b + c) * 4" using y by simp
  then have q4: "(y - 1) div 4 = 100 * a + 25 * b + c" using ee by (simp_all only: div_mult_self1)
  have "y - 1 = (4 * c + e) + (4 * a + b) * 100" using y by simp
  then have q100: "(y - 1) div 100 = 4 * a + b" using ee cc by (simp_all only: div_mult_self1)
  have "y - 1 = (100 * b + 4 * c + e) + a * 400" using y by simp
  then have q400: "(y - 1) div 400 = a" using ee cc bb by (simp_all only: div_mult_self1)
  show "days_before y + yd = d"
    unfolding days_before_def q4 q100 q400 using y d d2 d3 by simp
  show "0 \<le> yd" by (fact ee)
  show "yd < (if is_leap y then 366 else 365)"
  proof (cases "e = 3 \<and> yd = 365")
    case True
    then have m4: "y mod 4 = 0" using y by presburger
    have "d3 = 1460" using True y by simp
    then have "\<not> (c = 24 \<and> b < 3)" using cc by auto
    then have "c < 24 \<or> b = 3" using cc bb by auto
    then have "y mod 100 \<noteq> 0 \<or> y mod 400 = 0"
    proof
      assume "c < 24"
      have "y = (4 * c + 4) + (4 * a + b) * 100" using y True by simp
      then have "y mod 100 = 4 * c + 4" using \<open>c < 24\<close> cc by (simp only: mod_mult_self1) simp
      then show ?thesis using \<open>c < 24\<close> cc by simp
    next
      assume "b = 3"
      show ?thesis
      proof (cases "c = 24")
        case True
        then have "y = 400 * (a + 1)" using y \<open>b = 3\<close> \<open>e = 3 \<and> yd = 365\<close> by simp
        then show ?thesis by simp
      next
        case False
        have "y = (4 * c + 4) + (4 * a + b) * 100" using y True by simp
        then have "y mod 100 = 4 * c + 4" using False cc by (simp only: mod_mult_self1) simp
        then show ?thesis using False cc by simp
      qed
    qed
    with m4 ee show ?thesis by (simp add: is_leap_def)
  next
    case False
    with ee show ?thesis by (auto simp: not_less)
  qed
qed

lemma month_day_inv:
  assumes "month_day ls m d = (m', d')" "d < sum_list ls"
  shows "m \<le> m' \<and> m' < m + length ls \<and> sum_list (take (m' - m) ls) + d' = d \<and> d' < ls ! (m' - m)"
  using assms
proof (induction ls m d rule: month_day.induct)
  case (2 l ls m d)
  show ?case
  proof (cases "d < l")
    case False
    with 2 have "Suc m \<le> m' \<and> m' < Suc m + length ls \<and> sum_list (take (m' - Suc m) ls) + d' = d - l \<and>
        d' < ls ! (m' - Suc m)" by auto
    moreover then obtain k where "m' = Suc m + k" using le_Suc_ex by blast
    ultimately show ?thesis using False by auto
  qed (use 2 in auto)
qed simp

lemma sum_month_lens: "sum_list (month_lens y) = (if is_leap y then 366 else 365)"
  by (simp add: month_lens_def)

lemma date_of_bounds:
  assumes "date_of d = (y, m, md)"
  shows "day_of y m md = d" "1 \<le> m" "m \<le> 12" "1 \<le> md" "md \<le> month_lens y ! (m - 1)"
proof -
  obtain yd where yd: "year_day d = (y, yd)" and
    m: "month_day (month_lens y) 1 (nat yd) = (m, md - 1)" and md: "1 \<le> md"
    using assms by (auto simp: date_of_def Let_def split: prod.splits)
  note b = year_day_bounds [OF yd]
  have "nat yd < sum_list (month_lens y)" using b(2,3) by (auto simp: sum_month_lens split: if_splits)
  note i = month_day_inv [OF m this]
  have "int (sum_list (take (m - 1) (month_lens y))) + int (md - 1) = yd"
    using i b(2) by (metis nat_0_le of_nat_add)
  then show "day_of y m md = d" using b(1) md by (simp add: day_of_def)
  show "1 \<le> m" "m \<le> 12" "1 \<le> md" "md \<le> month_lens y ! (m - 1)"
    using i md by (auto simp: month_lens_def)
qed

section \<open>RFC 3339\<close>

definition pad :: "nat \<Rightarrow> nat \<Rightarrow> string" where
  "pad n k = replicate (n - length (dec_nat k)) (CHR ''0'') @ dec_nat k"

definition day_ns :: int where "day_ns = 86400 * sec"

text \<open>\<open>time.RFC3339Nano\<close>: the fraction without its trailing zeros.\<close>

definition fmt_frac :: "nat \<Rightarrow> string" where
  "fmt_frac ns = (if ns = 0 then [] else CHR ''.'' # TrimRight (pad 9 ns) ''0'')"

text \<open>\<open>MarshalJSON\<close> fails when the year does not have four digits.\<close>

definition fmt_RFC3339 :: "time \<Rightarrow> string option" where
  "fmt_RFC3339 t =
     (let (y, m, d) = date_of (t div day_ns); ns = nat (t mod day_ns); s = ns div 1000000000
      in if 0 \<le> y \<and> y \<le> 9999 then
           Some (pad 4 (nat y) @ ''-'' @ pad 2 m @ ''-'' @ pad 2 d @ ''T'' @
                 pad 2 (s div 3600) @ '':'' @ pad 2 (s div 60 mod 60) @ '':'' @ pad 2 (s mod 60) @
                 fmt_frac (ns mod 1000000000) @ ''Z'')
         else None)"

definition read_n :: "nat \<Rightarrow> string \<Rightarrow> (nat \<times> string) option" where
  "read_n n s =
     (if n \<le> length s \<and> list_all is_digit (take n s) then Some (digits_val (take n s), drop n s)
      else None)"

definition read_lit :: "char \<Rightarrow> string \<Rightarrow> string option" where
  "read_lit c s = (case s of d # r \<Rightarrow> if d = c then Some r else None | [] \<Rightarrow> None)"

definition read_fraction :: "string \<Rightarrow> (nat \<times> string) option" where
  "read_fraction s =
     (case s of c # d # r \<Rightarrow>
        if c = CHR ''.'' \<and> is_digit d then
          (let f = takeWhile is_digit (d # r)
           in Some (digits_val (take 9 (f @ replicate 9 (CHR ''0''))), dropWhile is_digit (d # r)))
        else Some (0, s)
      | _ \<Rightarrow> Some (0, s))"

text \<open>The zone, in seconds east of UTC.\<close>

definition read_zone :: "string \<Rightarrow> int option" where
  "read_zone s =
     (case s of [] \<Rightarrow> None
      | c # r \<Rightarrow>
          if c = CHR ''Z'' then (if r = [] then Some 0 else None)
          else if c = CHR ''+'' \<or> c = CHR ''-'' then
            do { (h, r) \<leftarrow> read_n 2 r; r \<leftarrow> read_lit (CHR '':'') r; (m, r) \<leftarrow> read_n 2 r;
                 if r = [] \<and> h < 24 \<and> m < 60
                 then Some (int (h * 3600 + m * 60) * (if c = CHR ''-'' then - 1 else 1)) else None }
          else None)"

definition parse_RFC3339 :: "string \<Rightarrow> time option" where
  "parse_RFC3339 s =
     do { (y, s) \<leftarrow> read_n 4 s; s \<leftarrow> read_lit (CHR ''-'') s;
          (m, s) \<leftarrow> read_n 2 s; s \<leftarrow> read_lit (CHR ''-'') s;
          (d, s) \<leftarrow> read_n 2 s; s \<leftarrow> read_lit (CHR ''T'') s;
          (hh, s) \<leftarrow> read_n 2 s; s \<leftarrow> read_lit (CHR '':'') s;
          (mm, s) \<leftarrow> read_n 2 s; s \<leftarrow> read_lit (CHR '':'') s;
          (ss, s) \<leftarrow> read_n 2 s; (ns, s) \<leftarrow> read_fraction s; z \<leftarrow> read_zone s;
          if 1 \<le> m \<and> m \<le> 12 \<and> 1 \<le> d \<and> d \<le> month_lens (int y) ! (m - 1) \<and> hh < 24 \<and> mm < 60 \<and> ss < 60
          then Some (day_of (int y) m d * day_ns + (int (hh * 3600 + mm * 60 + ss) - z) * sec + int ns)
          else None }"

lemma dec_nat_length: "k < 10 ^ n \<Longrightarrow> 0 < n \<Longrightarrow> length (dec_nat k) \<le> n"
proof (induction n arbitrary: k)
  case (Suc n)
  show ?case
  proof (cases "k < 10")
    case True
    then show ?thesis by (subst dec_nat.simps) simp
  next
    case False
    then have "k div 10 < 10 ^ n" "0 < n" using Suc.prems by (auto intro!: Nat.gr0I)
    with Suc.IH False show ?thesis by (subst dec_nat.simps) auto
  qed
qed simp

lemma digits_val_zeros [simp]: "digits_val (replicate n (CHR ''0'') @ s) = digits_val s"
  by (induction n) (simp_all add: digits_val_def)

lemma pad_facts:
  assumes "k < 10 ^ n" "0 < n"
  shows "length (pad n k) = n" "list_all is_digit (pad n k)" "digits_val (pad n k) = k"
  using dec_nat_length [OF assms]
  by (auto simp: pad_def list_all_iff digits_val_dec_nat is_digit_def dest: dec_nat_digits)

lemma read_n_pad [simp]: "k < 10 ^ n \<Longrightarrow> 0 < n \<Longrightarrow> read_n n (pad n k @ s) = Some (k, s)"
  by (simp add: read_n_def pad_facts)

lemma read_lit_Cons [simp]: "read_lit c (c # s) = Some s"
  by (simp add: read_lit_def)

lemma TrimRight_zeros: "\<exists>j. s = TrimRight s ''0'' @ replicate j (CHR ''0'')"
proof -
  let ?t = "takeWhile (\<lambda>c. c \<in> set ''0'') (rev s)"
  have "\<forall>c \<in> set ?t. c = CHR ''0''" by (auto dest: set_takeWhileD)
  then have t: "?t = replicate (length ?t) (CHR ''0'')" by (simp add: replicate_eqI)
  have "s = TrimRight s ''0'' @ rev ?t"
    unfolding TrimRight_def by (metis rev_append rev_rev_ident takeWhile_dropWhile_id)
  then show ?thesis by (metis t rev_replicate)
qed

lemma read_fraction_fmt: "ns < 1000000000 \<Longrightarrow> read_fraction (fmt_frac ns @ ''Z'') = Some (ns, ''Z'')"
proof (cases "ns = 0")
  case False
  assume ns: "ns < 1000000000"
  let ?p = "pad 9 ns"
  let ?f = "TrimRight ?p ''0''"
  have p: "length ?p = 9" "list_all is_digit ?p" "digits_val ?p = ns"
    using pad_facts [of ns 9] ns by auto
  obtain j where j: "?p = ?f @ replicate j (CHR ''0'')" using TrimRight_zeros by blast
  have "?f \<noteq> []"
  proof
    assume "?f = []"
    then have "digits_val ?p = digits_val (replicate j (CHR ''0'') @ [])" using j by simp
    then show False using p(3) False by (simp only: digits_val_zeros) (simp add: digits_val_def)
  qed
  then obtain d f' where f: "?f = d # f'" by (cases ?f) auto
  have dig: "list_all is_digit ?f" using p(2) j by (metis list_all_append)
  have z: "\<not> is_digit (CHR ''Z'')" by (simp add: is_digit_def)
  have "length ?f + j = 9" using p(1) j by (metis length_append length_replicate)
  then have "take 9 (?f @ replicate 9 (CHR ''0'')) = ?p"
    by (subst j) (simp add: min_def)
  moreover have "takeWhile is_digit (?f @ ''Z'') = ?f" "dropWhile is_digit (?f @ ''Z'') = ''Z''"
    using dig z by (auto simp: list_all_iff takeWhile_append dropWhile_append)
  ultimately show ?thesis
    using False f dig p(3) by (simp add: fmt_frac_def read_fraction_def Let_def)
qed (simp add: fmt_frac_def read_fraction_def)

lemma parse_fmt_RFC3339: "fmt_RFC3339 t = Some s \<Longrightarrow> parse_RFC3339 s = Some t"
proof -
  assume a: "fmt_RFC3339 t = Some s"
  obtain y m d where dt: "date_of (t div day_ns) = (y, m, d)" by (cases "date_of (t div day_ns)") auto
  define ns where ns: "ns = nat (t mod day_ns)"
  define x where x: "x = ns div 1000000000"
  note b = date_of_bounds [OF dt]
  have y: "0 \<le> y" "y \<le> 9999" and s: "s = pad 4 (nat y) @ ''-'' @ pad 2 m @ ''-'' @ pad 2 d @ ''T'' @
      pad 2 (x div 3600) @ '':'' @ pad 2 (x div 60 mod 60) @ '':'' @ pad 2 (x mod 60) @
      fmt_frac (ns mod 1000000000) @ ''Z''"
    using a dt by (auto simp: fmt_RFC3339_def Let_def ns x split: if_splits)
  have nsb: "int ns = t mod day_ns" by (simp add: ns day_ns_def)
  have "int ns < day_ns" using nsb by (simp add: day_ns_def)
  then have xb: "x < 86400" unfolding x day_ns_def by simp
  have "month_lens y ! (m - 1) \<in> set (month_lens y)"
    using b(2,3) by (intro nth_mem) (auto simp: month_lens_def)
  then have "month_lens y ! (m - 1) \<le> 31" by (auto simp: month_lens_def split: if_splits)
  then have db: "d < 100" using b(5) by simp
  have xs: "x div 3600 * 3600 + x div 60 mod 60 * 60 + x mod 60 = x"
  proof -
    have "x div 3600 = x div 60 div 60" by (simp flip: div_mult2_eq)
    moreover have "x div 60 div 60 * 60 + x div 60 mod 60 = x div 60" "x div 60 * 60 + x mod 60 = x"
      by (rule div_mult_mod_eq)+
    ultimately show ?thesis by linarith
  qed
  have "int ns = int x * sec + int (ns mod 1000000000)" unfolding x by (simp add: zdiv_int zmod_int)
  then have "day_of y m d * day_ns + int x * sec + int (ns mod 1000000000) = t"
    using b(1) nsb div_mult_mod_eq [of t day_ns] by simp
  moreover have "read_zone ''Z'' = Some 0" by (simp add: read_zone_def)
  moreover have "x div 3600 < 24" using xb by simp
  ultimately show ?thesis
    using y b db xs by (simp add: s parse_RFC3339_def read_fraction_fmt)
qed

text \<open>The text needs no escapes in a JSON string.\<close>

definition plain_char :: "char \<Rightarrow> bool" where
  "plain_char c \<longleftrightarrow> is_digit c \<or> c \<in> set ''-:.TZ''"

lemma pad_plain: "c \<in> set (pad n k) \<Longrightarrow> plain_char c"
proof -
  assume "c \<in> set (pad n k)"
  then consider "c = CHR ''0''" | "c \<in> set (dec_nat k)" by (auto simp: pad_def)
  then show ?thesis
    by cases (simp_all add: plain_char_def dec_nat_digits, simp add: is_digit_def)
qed

lemma fmt_frac_plain: "c \<in> set (fmt_frac k) \<Longrightarrow> plain_char c"
  by (auto simp: fmt_frac_def TrimRight_def dest!: set_dropWhileD intro: pad_plain split: if_splits)
     (simp add: plain_char_def)

lemma lit_plain: "plain_char (CHR ''-'')" "plain_char (CHR '':'')" "plain_char (CHR ''T'')" "plain_char (CHR ''Z'')"
  by (simp_all add: plain_char_def)

lemma fmt_RFC3339_plain: "fmt_RFC3339 t = Some s \<Longrightarrow> list_all plain_char s"
  by (auto simp: fmt_RFC3339_def Let_def list_all_iff lit_plain split: prod.splits if_splits
      intro: pad_plain fmt_frac_plain)

end
