(* ===== verification/Sessions.thy ===== *)
theory Sessions
  imports Tools Json_Roundtrip Gotime
begin

text \<open>
  internal/session: the session record and its caps (store.go), the JSON text it is stored as,
  the in-memory store (memory.go), the Redis store (redis.go) and the per-user lock (lock.go).
  The Redis client is a parameter, a record of the operations the code calls on an external
  world \<open>'w\<close>; \<open>redis_laws\<close> states what is documented of it.
\<close>

section \<open>Sessions and their caps (store.go)\<close>

record session =
  sessKey :: string
  sessUserOpenID :: string
  sessChatID :: string
  sessChatType :: string
  sessProvider :: string
  sessMessages :: "message list"
  sessCreatedAt :: time
  sessUpdatedAt :: time
  sessTraceID :: string

definition session_zero :: session where
  "session_zero = \<lparr>sessKey = [], sessUserOpenID = [], sessChatID = [], sessChatType = [],
     sessProvider = [], sessMessages = [], sessCreatedAt = 0, sessUpdatedAt = 0, sessTraceID = []\<rparr>"

definition MaxMessages :: nat where "MaxMessages = 40"
definition MaxMessageContent :: nat where "MaxMessageContent = 20 * 1024"

text \<open>The digit loop of \<open>itoa\<close> and its in-place reversal.\<close>

function itoa_digits :: "int \<Rightarrow> string \<Rightarrow> string" where
  "itoa_digits n buf =
     (if n > 0 then itoa_digits (n div 10) (buf @ [char_of (nat (48 + n mod 10))]) else buf)"
  by pat_completeness auto
termination by (relation "measure (\<lambda>(n, buf). nat n)") auto

function itoa_reverse :: "int \<Rightarrow> int \<Rightarrow> string \<Rightarrow> string" where
  "itoa_reverse i j buf =
     (if i < j then itoa_reverse (i + 1) (j - 1) (buf[nat i := buf ! nat j, nat j := buf ! nat i]) else buf)"
  by pat_completeness auto
termination by (relation "measure (\<lambda>(i, j, buf). nat (j - i))") auto

declare itoa_digits.simps [simp del] itoa_reverse.simps [simp del]

definition itoa :: "int \<Rightarrow> string" where
  "itoa n = (if n = 0 then ''0'' else
     let buf = itoa_digits n [] in itoa_reverse 0 (int (length buf) - 1) buf)"

definition trim_marker :: "nat \<Rightarrow> string" where
  "trim_marker truncated = NL @ ''['' @ utf8 [0x2026] @ '' truncated '' @ itoa (int truncated) @ '' chars]''"

definition trim_content :: "message \<Rightarrow> message" where
  "trim_content m =
     (if length (msgContent m) > MaxMessageContent
      then m\<lparr>msgContent := take MaxMessageContent (msgContent m)
               @ trim_marker (length (msgContent m) - MaxMessageContent)\<rparr>
      else m)"

definition TrimMessages :: "message list \<Rightarrow> message list" where
  "TrimMessages msgs =
     (let ms = map trim_content msgs
      in if length ms > MaxMessages then drop (length ms - MaxMessages) ms else ms)"

lemma itoa_digits_rev: "0 \<le> n \<Longrightarrow> itoa_digits n buf = buf @ (if n = 0 then [] else rev (dec_nat (nat n)))"
proof (induction n buf rule: itoa_digits.induct)
  case (1 n buf)
  show ?case
  proof (cases "n > 0")
    case True
    then have m: "nat (48 + n mod 10) = 48 + nat n mod 10" "nat (n div 10) = nat n div 10"
      by (simp_all add: nat_add_distrib nat_mod_distrib nat_div_distrib)
    have "itoa_digits n buf = itoa_digits (n div 10) (buf @ [char_of (48 + nat n mod 10)])"
      using True m by (simp add: itoa_digits.simps [of n])
    also have "\<dots> = buf @ [char_of (48 + nat n mod 10)] @ (if n div 10 = 0 then [] else rev (dec_nat (nat n div 10)))"
      using 1 True m by simp
    also have "\<dots> = buf @ rev (dec_nat (nat n))"
      using True by (subst dec_nat.simps [of "nat n"]) (auto simp: pos_imp_zdiv_nonneg_iff)
    finally show ?thesis using True by simp
  qed (use 1 in \<open>simp add: itoa_digits.simps\<close>)
qed

lemma itoa_reverse_nth:
  assumes "0 \<le> i" "i \<le> j + 1" "j < int (length buf)" "k < length buf"
  shows "length (itoa_reverse i j buf) = length buf \<and>
    itoa_reverse i j buf ! k = (if i \<le> int k \<and> int k \<le> j then buf ! nat (i + j - int k) else buf ! k)"
  using assms
proof (induction i j buf rule: itoa_reverse.induct)
  case (1 i j buf)
  show ?case
  proof (cases "i < j")
    case True
    let ?b = "buf[nat i := buf ! nat j, nat j := buf ! nat i]"
    have "length (itoa_reverse (i + 1) (j - 1) ?b) = length ?b \<and>
      itoa_reverse (i + 1) (j - 1) ?b ! k =
        (if i + 1 \<le> int k \<and> int k \<le> j - 1 then ?b ! nat (i + j - int k) else ?b ! k)"
      using 1(1) [OF True] 1 True by (simp add: algebra_simps)
    moreover have "itoa_reverse i j buf = itoa_reverse (i + 1) (j - 1) ?b"
      using True by (subst itoa_reverse.simps) simp
    moreover obtain a b where ab: "i = int a" "j = int b" "a < b" "b < length buf"
      using 1 True by (metis nonneg_int_cases of_nat_less_iff order_le_less_trans order_less_imp_le)
    moreover have "?b ! k = (if k = b then buf ! a else if k = a then buf ! b else buf ! k)"
      using ab 1(5) by (auto simp: nth_list_update)
    moreover have "?b ! nat (i + j - int k) = buf ! nat (i + j - int k)" if "a < k" "k < b"
    proof -
      have "nat (i + j - int k) = a + b - k" "a + b - k \<noteq> a" "a + b - k \<noteq> b" using ab that by auto
      then show ?thesis by (simp add: ab)
    qed
    ultimately show ?thesis
      by (cases "k = a \<or> k = b"; cases "a < k \<and> k < b") auto
  next
    case False
    with 1 show ?thesis by (auto simp: itoa_reverse.simps [of i] nat_eq_iff intro!: arg_cong [of _ _ "(!) buf"])
  qed
qed

lemma itoa_reverse_rev: "itoa_reverse 0 (int (length buf) - 1) buf = rev buf"
proof (cases "buf = []")
  case False
  then have 0: "0 < length buf" by simp
  have n: "length (itoa_reverse 0 (int (length buf) - 1) buf) = length buf \<and>
    itoa_reverse 0 (int (length buf) - 1) buf ! k = buf ! nat (int (length buf) - 1 - int k)"
    if "k < length buf" for k
    using itoa_reverse_nth [of 0 "int (length buf) - 1" buf k] that by simp
  show ?thesis
  proof (rule nth_equalityI)
    show "length (itoa_reverse 0 (int (length buf) - 1) buf) = length (rev buf)" using n [OF 0] by simp
    fix k assume "k < length (itoa_reverse 0 (int (length buf) - 1) buf)"
    then have k: "k < length buf" using n [OF 0] by simp
    then have "nat (int (length buf) - 1 - int k) = length buf - Suc k" by simp
    with n [OF k] k show "itoa_reverse 0 (int (length buf) - 1) buf ! k = rev buf ! k"
      by (simp add: rev_nth)
  qed
qed (simp add: itoa_reverse.simps)

lemma itoa_dec: "0 \<le> n \<Longrightarrow> itoa n = dec_int n"
proof -
  assume "0 \<le> n"
  have "dec_nat 0 = ''0''" by (simp add: dec_nat.simps)
  with \<open>0 \<le> n\<close> show ?thesis
    by (auto simp: itoa_def itoa_digits_rev Let_def dec_int_def itoa_reverse_rev)
qed

lemma itoa_neg: "n < 0 \<Longrightarrow> itoa n = []"
  by (simp add: itoa_def itoa_digits.simps itoa_reverse.simps)

lemma length_trim_marker: "length (trim_marker n) = 23 + length (dec_nat n)"
  by (simp add: trim_marker_def itoa_dec dec_int_def utf8_def utf8_enc_def)

lemma TrimMessages_length: "length (TrimMessages ms) = min MaxMessages (length ms)"
  by (auto simp: TrimMessages_def Let_def)

lemma TrimMessages_suffix: "\<exists>older. map trim_content ms = older @ TrimMessages ms"
  by (auto simp: TrimMessages_def Let_def) (metis append_take_drop_id)

lemma TrimMessages_id:
  "length ms \<le> MaxMessages \<Longrightarrow> \<forall>m \<in> set ms. length (msgContent m) \<le> MaxMessageContent \<Longrightarrow> TrimMessages ms = ms"
  by (auto simp: TrimMessages_def Let_def intro!: map_idI) (auto simp: trim_content_def)

section \<open>The stored form\<close>

text \<open>
  \<open>json.Marshal\<close> of a session (the struct tags of store.go and internal/llm/types.go). It fails,
  here \<open>None\<close>, when the arguments of a tool call are not JSON or a time has no four-digit year.
  A nil slice and an empty one are not told apart: both are written \<open>null\<close>.
\<close>

definition put_time :: "json \<Rightarrow> (time \<Rightarrow> 'r) \<Rightarrow> 'r \<Rightarrow> 'r option" where
  "put_time v f r =
     (case v of JStr b \<Rightarrow> map_option f (parse_RFC3339 b) | JNull \<Rightarrow> Some r | _ \<Rightarrow> None)"

definition time_json :: "time \<Rightarrow> json option" where
  "time_json t = map_option JStr (fmt_RFC3339 t)"

definition omitempty :: "string \<Rightarrow> string \<Rightarrow> (string \<times> json) list" where
  "omitempty k v = (if v = [] then [] else [(k, jstr v)])"

definition args_json :: "string \<Rightarrow> json option" where
  "args_json a = (if a = [] then Some JNull else map_option html_json (read_json a))"

definition tool_call_json :: "tool_call \<Rightarrow> json option" where
  "tool_call_json tc =
     (case args_json (tcArguments tc) of None \<Rightarrow> None
      | Some a \<Rightarrow> Some (JObj [(''id'', jstr (tcID tc)), (''name'', jstr (tcName tc)), (''arguments'', a)]))"

definition message_json :: "message \<Rightarrow> json option" where
  "message_json m =
     (case decode_all tool_call_json (msgToolCalls m) of None \<Rightarrow> None
      | Some cs \<Rightarrow> Some (JObj
          ([(''role'', jstr (msgRole m))] @ omitempty ''content'' (msgContent m) @
           omitempty ''thinking'' (msgThinking m) @
           (if cs = [] then [] else [(''tool_calls'', JArr cs)]) @
           omitempty ''tool_call_id'' (msgToolCallID m) @ omitempty ''name'' (msgName m) @
           (if msgIsError m then [(''is_error'', JBool True)] else []))))"

definition session_json :: "session \<Rightarrow> json option" where
  "session_json s =
     (case (decode_all message_json (sessMessages s), time_json (sessCreatedAt s), time_json (sessUpdatedAt s)) of
        (Some ms, Some c, Some u) \<Rightarrow> Some (JObj
          [(''key'', jstr (sessKey s)), (''user_open_id'', jstr (sessUserOpenID s)),
           (''chat_id'', jstr (sessChatID s)), (''chat_type'', jstr (sessChatType s)),
           (''provider'', jstr (sessProvider s)),
           (''messages'', if ms = [] then JNull else JArr ms),
           (''created_at'', c), (''updated_at'', u), (''trace_id_last'', jstr (sessTraceID s))])
      | _ \<Rightarrow> None)"

definition session_encode :: "session \<Rightarrow> string option" where
  "session_encode s = map_option print_json (session_json s)"

text \<open>\<open>json.Unmarshal\<close> of it. The arguments of a tool call are kept as raw JSON.\<close>

definition tool_call_put :: "string \<Rightarrow> json \<Rightarrow> tool_call \<Rightarrow> tool_call option" where
  "tool_call_put f v r =
     (if f = ''id'' then put_string v (\<lambda>x. r\<lparr>tcID := x\<rparr>) r
      else if f = ''name'' then put_string v (\<lambda>x. r\<lparr>tcName := x\<rparr>) r
      else if f = ''arguments'' then Some (r\<lparr>tcArguments := print_json v\<rparr>)
      else Some r)"

definition tool_call_unjson :: "json \<Rightarrow> tool_call option" where
  "tool_call_unjson = decode_struct tool_call_put \<lparr>tcID = [], tcName = [], tcArguments = []\<rparr>"

definition put_list :: "(json \<Rightarrow> 'a option) \<Rightarrow> json \<Rightarrow> ('a list \<Rightarrow> 'r) \<Rightarrow> 'r option" where
  "put_list dec v f =
     (case v of JArr vs \<Rightarrow> map_option f (decode_all dec vs) | JNull \<Rightarrow> Some (f []) | _ \<Rightarrow> None)"

definition message_put :: "string \<Rightarrow> json \<Rightarrow> message \<Rightarrow> message option" where
  "message_put f v r =
     (if f = ''role'' then put_string v (\<lambda>x. r\<lparr>msgRole := x\<rparr>) r
      else if f = ''content'' then put_string v (\<lambda>x. r\<lparr>msgContent := x\<rparr>) r
      else if f = ''thinking'' then put_string v (\<lambda>x. r\<lparr>msgThinking := x\<rparr>) r
      else if f = ''tool_calls'' then put_list tool_call_unjson v (\<lambda>x. r\<lparr>msgToolCalls := x\<rparr>)
      else if f = ''tool_call_id'' then put_string v (\<lambda>x. r\<lparr>msgToolCallID := x\<rparr>) r
      else if f = ''name'' then put_string v (\<lambda>x. r\<lparr>msgName := x\<rparr>) r
      else if f = ''is_error'' then put_bool v (\<lambda>x. r\<lparr>msgIsError := x\<rparr>) r
      else Some r)"

definition message_unjson :: "json \<Rightarrow> message option" where
  "message_unjson = decode_struct message_put message_zero"

definition session_put :: "string \<Rightarrow> json \<Rightarrow> session \<Rightarrow> session option" where
  "session_put f v r =
     (if f = ''key'' then put_string v (\<lambda>x. r\<lparr>sessKey := x\<rparr>) r
      else if f = ''user_open_id'' then put_string v (\<lambda>x. r\<lparr>sessUserOpenID := x\<rparr>) r
      else if f = ''chat_id'' then put_string v (\<lambda>x. r\<lparr>sessChatID := x\<rparr>) r
      else if f = ''chat_type'' then put_string v (\<lambda>x. r\<lparr>sessChatType := x\<rparr>) r
      else if f = ''provider'' then put_string v (\<lambda>x. r\<lparr>sessProvider := x\<rparr>) r
      else if f = ''messages'' then put_list message_unjson v (\<lambda>x. r\<lparr>sessMessages := x\<rparr>)
      else if f = ''created_at'' then put_time v (\<lambda>x. r\<lparr>sessCreatedAt := x\<rparr>) r
      else if f = ''updated_at'' then put_time v (\<lambda>x. r\<lparr>sessUpdatedAt := x\<rparr>) r
      else if f = ''trace_id_last'' then put_string v (\<lambda>x. r\<lparr>sessTraceID := x\<rparr>) r
      else Some r)"

definition session_decode :: "string \<Rightarrow> session option" where
  "session_decode raw = Option.bind (read_json raw) (decode_struct session_put session_zero)"

text \<open>
  What a session becomes when it is written and read back: bytes that are not UTF-8 are replaced,
  absent arguments become \<open>null\<close> and other arguments their compact form.
\<close>

definition norm_args :: "string \<Rightarrow> string" where
  "norm_args a = (case args_json a of None \<Rightarrow> a | Some v \<Rightarrow> print_json v)"

definition norm_tool_call :: "tool_call \<Rightarrow> tool_call" where
  "norm_tool_call tc = \<lparr>tcID = sanitize (tcID tc), tcName = sanitize (tcName tc),
     tcArguments = norm_args (tcArguments tc)\<rparr>"

definition norm_message :: "message \<Rightarrow> message" where
  "norm_message m = \<lparr>msgRole = sanitize (msgRole m), msgContent = sanitize (msgContent m),
     msgThinking = sanitize (msgThinking m), msgToolCalls = map norm_tool_call (msgToolCalls m),
     msgToolCallID = sanitize (msgToolCallID m), msgName = sanitize (msgName m),
     msgIsError = msgIsError m\<rparr>"

definition norm_session :: "session \<Rightarrow> session" where
  "norm_session s = \<lparr>sessKey = sanitize (sessKey s), sessUserOpenID = sanitize (sessUserOpenID s),
     sessChatID = sanitize (sessChatID s), sessChatType = sanitize (sessChatType s),
     sessProvider = sanitize (sessProvider s), sessMessages = map norm_message (sessMessages s),
     sessCreatedAt = sessCreatedAt s, sessUpdatedAt = sessUpdatedAt s,
     sessTraceID = sanitize (sessTraceID s)\<rparr>"

lemma args_json_wf: "args_json a = Some v \<Longrightarrow> wf_json v"
  by (auto simp: args_json_def html_json_wf read_json_wf split: if_splits)

definition field_key :: "string \<Rightarrow> bool" where
  "field_key k \<longleftrightarrow> list_all (\<lambda>c. byte c < 128 \<and> c \<noteq> BS \<and> c \<noteq> DQ \<and> 90 < byte c) k"

lemma lower_byte_id: "90 < byte c \<Longrightarrow> lower_byte c = c"
  by (simp add: lower_byte_def)

lemma field_key_decode [simp]:
  assumes "field_key k"
  shows "map lower_byte (unescape k) = k"
proof -
  have "unescape k = k"
    using assms by (intro unescape_plain) (simp add: field_key_def list_all_iff)
  moreover have "map lower_byte k = k"
    using assms by (intro map_idI lower_byte_id) (simp add: field_key_def list_all_iff)
  ultimately show ?thesis by simp
qed

lemma field_keys [simp]:
  "field_key ''id''" "field_key ''name''" "field_key ''arguments''" "field_key ''role''"
  "field_key ''content''" "field_key ''thinking''" "field_key ''tool_calls''"
  "field_key ''tool_call_id''" "field_key ''is_error''" "field_key ''key''"
  "field_key ''user_open_id''" "field_key ''chat_id''" "field_key ''chat_type''"
  "field_key ''provider''" "field_key ''messages''" "field_key ''created_at''"
  "field_key ''updated_at''" "field_key ''trace_id_last''"
  by (simp_all add: field_key_def)

lemma decode_members_field:
  "field_key k \<Longrightarrow> decode_members put r ((k, v) # ms) =
     (case put k v r of None \<Rightarrow> None | Some r' \<Rightarrow> decode_members put r' ms)"
  by simp

lemma put_string_jstr [simp]: "put_string (jstr s) f r = Some (f (sanitize s))"
  by (simp add: put_string_def unescape_escape_sanitize)

lemma tool_call_roundtrip:
  "tool_call_json tc = Some v \<Longrightarrow> tool_call_unjson v = Some (norm_tool_call tc)"
  by (auto simp: tool_call_json_def tool_call_unjson_def tool_call_put_def norm_tool_call_def
      norm_args_def decode_members_field simp del: decode_members.simps(2) split: option.splits)

lemma calls_roundtrip:
  "decode_all tool_call_json tcs = Some cs \<Longrightarrow>
   decode_all tool_call_unjson cs = Some (map norm_tool_call tcs)"
  by (induction tcs arbitrary: cs) (auto split: option.splits dest: tool_call_roundtrip)

lemma decode_omitempty:
  assumes "field_key k" "\<And>j. put k j r = put_string j f r" "f [] = r"
  shows "decode_members put r (omitempty k v @ ms) = decode_members put (f (sanitize v)) ms"
  using assms by (simp add: omitempty_def del: field_key_decode) (simp add: decode_members_field)

lemma message_roundtrip:
  assumes "message_json m = Some v"
  shows "message_unjson v = Some (norm_message m)"
proof -
  obtain cs where cs: "decode_all tool_call_json (msgToolCalls m) = Some cs"
    using assms by (auto simp: message_json_def split: option.splits)
  have v: "v = JObj ([(''role'', jstr (msgRole m))] @ omitempty ''content'' (msgContent m) @
           omitempty ''thinking'' (msgThinking m) @
           (if cs = [] then [] else [(''tool_calls'', JArr cs)]) @
           omitempty ''tool_call_id'' (msgToolCallID m) @ omitempty ''name'' (msgName m) @
           (if msgIsError m then [(''is_error'', JBool True)] else []))"
    using assms cs by (simp add: message_json_def)
  let ?D = "decode_members message_put"
  have role: "?D r ((''role'', jstr x) # ms) = ?D (r\<lparr>msgRole := sanitize x\<rparr>) ms" for r x ms
    by (subst decode_members_field) (simp_all add: message_put_def)
  have content: "?D r (omitempty ''content'' x @ ms) = ?D (r\<lparr>msgContent := sanitize x\<rparr>) ms"
    if "msgContent r = []" for r x ms
    using that by (intro decode_omitempty) (simp_all add: message_put_def)
  have thinking: "?D r (omitempty ''thinking'' x @ ms) = ?D (r\<lparr>msgThinking := sanitize x\<rparr>) ms"
    if "msgThinking r = []" for r x ms
    using that by (intro decode_omitempty) (simp_all add: message_put_def)
  have callid: "?D r (omitempty ''tool_call_id'' x @ ms) = ?D (r\<lparr>msgToolCallID := sanitize x\<rparr>) ms"
    if "msgToolCallID r = []" for r x ms
    using that by (intro decode_omitempty) (simp_all add: message_put_def)
  have name: "?D r (omitempty ''name'' x @ ms) = ?D (r\<lparr>msgName := sanitize x\<rparr>) ms"
    if "msgName r = []" for r x ms
    using that by (intro decode_omitempty) (simp_all add: message_put_def)
  have calls: "?D r ((if cs = [] then [] else [(''tool_calls'', JArr cs)]) @ ms)
      = ?D (r\<lparr>msgToolCalls := map norm_tool_call (msgToolCalls m)\<rparr>) ms" if "msgToolCalls r = []" for r ms
  proof (cases "cs = []")
    case True
    with cs have "msgToolCalls m = []" by (cases "msgToolCalls m") (auto split: option.splits)
    with True that show ?thesis by (cases r) simp
  next
    case False
    have "message_put ''tool_calls'' (JArr cs) r = Some (r\<lparr>msgToolCalls := map norm_tool_call (msgToolCalls m)\<rparr>)"
      using calls_roundtrip [OF cs] by (simp add: message_put_def put_list_def)
    with False show ?thesis by (simp add: decode_members_field del: decode_members.simps(2))
  qed
  have err: "?D r (if msgIsError m then [(''is_error'', JBool True)] else []) = Some (r\<lparr>msgIsError := msgIsError m\<rparr>)"
    if "\<not> msgIsError r" for r
    using that by (simp add: decode_members_field message_put_def put_bool_def)
  have e: "[(''role'', jstr (msgRole m))] @ ms = (''role'', jstr (msgRole m)) # ms" for ms by simp
  show ?thesis
    unfolding v message_unjson_def decode_struct.simps e role
    by (simp add: content thinking calls callid name err message_zero_def norm_message_def
        del: decode_members.simps)
qed

lemma messages_roundtrip:
  "decode_all message_json ms = Some vs \<Longrightarrow> decode_all message_unjson vs = Some (map norm_message ms)"
  by (induction ms arbitrary: vs) (auto split: option.splits dest: message_roundtrip)

lemma messages_json_Nil: "decode_all f ms = Some [] \<longleftrightarrow> ms = []"
  by (cases ms) (auto split: option.splits)

lemma put_time_json:
  "time_json t = Some v \<Longrightarrow> put_time v f r = Some (f t)"
  by (auto simp: time_json_def put_time_def parse_fmt_RFC3339)

lemma session_unjson:
  assumes "session_json s = Some v"
  shows "decode_struct session_put session_zero v = Some (norm_session s)"
proof -
  obtain ms c u where p: "decode_all message_json (sessMessages s) = Some ms"
    "time_json (sessCreatedAt s) = Some c" "time_json (sessUpdatedAt s) = Some u"
    using assms by (auto simp: session_json_def split: option.splits)
  have l: "put_list message_unjson (if ms = [] then JNull else JArr ms) f = Some (f (map norm_message (sessMessages s)))" for f :: "message list \<Rightarrow> session"
    using messages_roundtrip [OF p(1)] messages_json_Nil [of message_json "sessMessages s"] p(1)
    by (auto simp: put_list_def)
  show ?thesis
    using assms p
    by (auto simp: session_json_def session_put_def decode_members_field l put_time_json norm_session_def session_zero_def
        simp del: decode_members.simps(2))
qed

lemma plain_char_body: "plain_char c \<Longrightarrow> c \<noteq> DQ \<and> c \<noteq> BS \<and> \<not> byte c < 32"
  by (auto simp: plain_char_def is_digit_def)

lemma wf_time_json: "time_json t = Some v \<Longrightarrow> wf_json v"
proof -
  assume "time_json t = Some v"
  then obtain s where s: "fmt_RFC3339 t = Some s" "v = JStr s" by (auto simp: time_json_def)
  have "list_all plain_char s \<Longrightarrow> wf_body s"
    by (induction s) (auto simp: wf_body_Cons_plain dest: plain_char_body)
  then show ?thesis using s fmt_RFC3339_plain [OF s(1)] by simp
qed

lemma wf_body_key: "field_key k \<Longrightarrow> wf_body k"
  unfolding field_key_def by (induction k) (auto simp: wf_body_Cons_plain)

lemmas wf_literal_keys = field_keys [THEN wf_body_key]

lemma wf_omitempty: "field_key k \<Longrightarrow> list_all (\<lambda>(k, v). wf_body k \<and> wf_json v) (omitempty k v)"
  by (simp add: omitempty_def wf_body_key)

lemma decode_all_wf:
  "decode_all f xs = Some vs \<Longrightarrow> (\<And>x v. f x = Some v \<Longrightarrow> wf_json v) \<Longrightarrow> list_all wf_json vs"
  by (induction xs arbitrary: vs) (auto split: option.splits)

lemma wf_tool_call_json: "tool_call_json tc = Some v \<Longrightarrow> wf_json v"
  by (auto simp: tool_call_json_def wf_literal_keys args_json_wf split: option.splits)

lemma wf_message_json: "message_json m = Some v \<Longrightarrow> wf_json v"
  by (auto simp: message_json_def wf_literal_keys wf_omitempty dest!: decode_all_wf [OF _ wf_tool_call_json]
      split: option.splits)

lemma wf_session_json: "session_json s = Some v \<Longrightarrow> wf_json v"
  by (auto simp: session_json_def wf_literal_keys wf_time_json dest!: decode_all_wf [OF _ wf_message_json]
      split: option.splits)

lemma session_codec: "session_encode s = Some raw \<Longrightarrow> session_decode raw = Some (norm_session s)"
  by (auto simp: session_encode_def session_decode_def read_json_print wf_session_json session_unjson)

section \<open>The Redis client\<close>

text \<open>
  The operations of the client library the program calls, on a world \<open>'w\<close>: \<open>GET\<close> (a reply, nil or
  an error), \<open>SET\<close> and \<open>SET NX\<close> with a time to live, \<open>DEL\<close>, and \<open>EVAL\<close>, which runs a script
  atomically on the key space.
\<close>

datatype get_reply = GetVal string | GetNil | GetErr go_error

type_synonym keyspace = "string \<Rightarrow> string option"

record 'w redis =
  rcGet :: "string \<Rightarrow> 'w \<Rightarrow> 'w \<times> get_reply"
  rcSet :: "string \<Rightarrow> string \<Rightarrow> int \<Rightarrow> 'w \<Rightarrow> 'w \<times> go_error option"
  rcSetNX :: "string \<Rightarrow> string \<Rightarrow> int \<Rightarrow> 'w \<Rightarrow> 'w \<times> (go_error + bool)"
  rcDel :: "string \<Rightarrow> 'w \<Rightarrow> 'w \<times> go_error option"
  rcEval :: "(keyspace \<Rightarrow> keyspace \<times> int) \<Rightarrow> 'w \<Rightarrow> 'w \<times> (go_error + int)"

text \<open>
  What is documented of them. \<open>view w\<close> is the live key space in the world \<open>w\<close>; an operation that
  reports an error may or may not have taken effect. Keys expire between operations.
\<close>

definition redis_laws :: "'w redis \<Rightarrow> ('w \<Rightarrow> keyspace) \<Rightarrow> bool" where
  "redis_laws rc view \<longleftrightarrow>
     (\<forall>k w w' r. rcGet rc k w = (w', r) \<longrightarrow> view w' = view w \<and>
        (\<forall>v. r = GetVal v \<longrightarrow> view w k = Some v) \<and> (r = GetNil \<longrightarrow> view w k = None)) \<and>
     (\<forall>k v ttl w w' r. rcSet rc k v ttl w = (w', r) \<longrightarrow>
        view w' = (view w)(k \<mapsto> v) \<or> r \<noteq> None \<and> view w' = view w) \<and>
     (\<forall>k v ttl w w' r. rcSetNX rc k v ttl w = (w', r) \<longrightarrow>
        (case r of
           Inr True \<Rightarrow> view w k = None \<and> view w' = (view w)(k \<mapsto> v)
         | Inr False \<Rightarrow> view w k \<noteq> None \<and> view w' = view w
         | Inl e \<Rightarrow> view w' = view w \<or> view w k = None \<and> view w' = (view w)(k \<mapsto> v))) \<and>
     (\<forall>k w w' r. rcDel rc k w = (w', r) \<longrightarrow>
        view w' = (view w)(k := None) \<or> r \<noteq> None \<and> view w' = view w) \<and>
     (\<forall>f w w' r. rcEval rc f w = (w', r) \<longrightarrow>
        (case r of Inr n \<Rightarrow> f (view w) = (view w', n)
         | Inl e \<Rightarrow> view w' = view w \<or> view w' = fst (f (view w))))"

lemma redis_get:
  "redis_laws rc view \<Longrightarrow> rcGet rc k w = (w', r) \<Longrightarrow>
   view w' = view w \<and> (\<forall>v. r = GetVal v \<longrightarrow> view w k = Some v) \<and> (r = GetNil \<longrightarrow> view w k = None)"
  unfolding redis_laws_def by (elim conjE) metis

lemma redis_set:
  "redis_laws rc view \<Longrightarrow> rcSet rc k v ttl w = (w', r) \<Longrightarrow>
   view w' = (view w)(k \<mapsto> v) \<or> r \<noteq> None \<and> view w' = view w"
  unfolding redis_laws_def by blast

lemma redis_setnx:
  "redis_laws rc view \<Longrightarrow> rcSetNX rc k v ttl w = (w', r) \<Longrightarrow>
   (case r of
      Inr True \<Rightarrow> view w k = None \<and> view w' = (view w)(k \<mapsto> v)
    | Inr False \<Rightarrow> view w k \<noteq> None \<and> view w' = view w
    | Inl e \<Rightarrow> view w' = view w \<or> view w k = None \<and> view w' = (view w)(k \<mapsto> v))"
  unfolding redis_laws_def by blast

lemma redis_del:
  "redis_laws rc view \<Longrightarrow> rcDel rc k w = (w', r) \<Longrightarrow>
   view w' = (view w)(k := None) \<or> r \<noteq> None \<and> view w' = view w"
  unfolding redis_laws_def by blast

lemma redis_eval:
  "redis_laws rc view \<Longrightarrow> rcEval rc f w = (w', r) \<Longrightarrow>
   (case r of Inr n \<Rightarrow> f (view w) = (view w', n)
    | Inl e \<Rightarrow> view w' = view w \<or> view w' = fst (f (view w)))"
  unfolding redis_laws_def by blast

text \<open>
  An instance of the laws: a server in memory with a clock and a deadline per key, used where a
  statement about the Redis store or lock is evaluated.
\<close>

record mem_redis =
  mrNow :: time
  mrKeys :: "string \<Rightarrow> (string \<times> time option) option"

definition mr_view :: "mem_redis \<Rightarrow> keyspace" where
  "mr_view w k =
     (case mrKeys w k of None \<Rightarrow> None
      | Some (v, None) \<Rightarrow> Some v
      | Some (v, Some d) \<Rightarrow> if mrNow w < d then Some v else None)"

definition mr_put :: "string \<Rightarrow> string \<Rightarrow> int \<Rightarrow> mem_redis \<Rightarrow> mem_redis" where
  "mr_put k v ttl w =
     w\<lparr>mrKeys := (mrKeys w)(k \<mapsto> (v, if 0 < ttl then Some (mrNow w + ttl) else None))\<rparr>"

definition mr_client :: "mem_redis redis" where
  "mr_client =
     \<lparr>rcGet = (\<lambda>k w. (w, case mr_view w k of Some v \<Rightarrow> GetVal v | None \<Rightarrow> GetNil)),
      rcSet = (\<lambda>k v ttl w. (mr_put k v ttl w, None)),
      rcSetNX = (\<lambda>k v ttl w. if mr_view w k = None then (mr_put k v ttl w, Inr True) else (w, Inr False)),
      rcDel = (\<lambda>k w. (w\<lparr>mrKeys := (mrKeys w)(k := None)\<rparr>, None)),
      rcEval = (\<lambda>f w. case f (mr_view w) of (m, n) \<Rightarrow>
        (w\<lparr>mrKeys := (\<lambda>k. if m k = mr_view w k then mrKeys w k
                          else map_option (\<lambda>v. (v, None)) (m k))\<rparr>, Inr n))\<rparr>"

definition mr_empty :: mem_redis where
  "mr_empty = \<lparr>mrNow = 0, mrKeys = (\<lambda>k. None)\<rparr>"

lemma mr_view_put [simp]: "mr_view (mr_put k v ttl w) = (mr_view w)(k \<mapsto> v)"
  by (auto simp: mr_view_def mr_put_def fun_eq_iff split: option.splits)

lemma mr_laws: "redis_laws mr_client mr_view"
proof -
  have del: "mr_view (w\<lparr>mrKeys := (mrKeys w)(k := None)\<rparr>) = (mr_view w)(k := None)" for w k
    by (auto simp: mr_view_def fun_eq_iff split: option.splits)
  have ev: "mr_view (w\<lparr>mrKeys := (\<lambda>k. if m k = mr_view w k then mrKeys w k
      else map_option (\<lambda>v. (v, None)) (m k))\<rparr>) = m" for w m
    by (auto simp: mr_view_def fun_eq_iff split: option.splits)
  show ?thesis
    by (auto simp: redis_laws_def mr_client_def del ev split: option.splits prod.splits if_splits)
qed

section \<open>The in-memory store (memory.go)\<close>

text \<open>Sessions are values here, so a copy is the session itself.\<close>

definition cloneSession :: "session \<Rightarrow> session" where
  "cloneSession s = s\<lparr>sessMessages := [] @ sessMessages s\<rparr>"

definition MemoryStore_Get :: "string \<Rightarrow> session gomap \<Rightarrow> session gomap \<times> (go_error + session option)" where
  "MemoryStore_Get key m = (m, Inr (map_option cloneSession (map_of m key)))"

definition MemoryStore_Save ::
  "string \<Rightarrow> session option \<Rightarrow> session gomap \<Rightarrow> session gomap \<times> session option \<times> go_error option" where
  "MemoryStore_Save key sess m =
     (case sess of None \<Rightarrow> (m, None, None)
      | Some s \<Rightarrow> (AList.update key (cloneSession s) m, Some s, None))"

definition MemoryStore_Delete :: "string \<Rightarrow> session gomap \<Rightarrow> session gomap \<times> go_error option" where
  "MemoryStore_Delete key m = (AList.delete key m, None)"

section \<open>The Redis store (redis.go)\<close>

record 'w redis_store =
  rsRdb :: "'w redis"
  rsTtl :: int

definition NewRedisStore :: "'w redis \<Rightarrow> int \<Rightarrow> 'w redis_store" where
  "NewRedisStore rdb ttl = \<lparr>rsRdb = rdb, rsTtl = (if ttl \<le> 0 then 24 * 3600 * sec else ttl)\<rparr>"

definition sessionRedisKey :: "string \<Rightarrow> string" where
  "sessionRedisKey key = ''bot:sess:'' @ key"

text \<open>The JSON library's errors are parameters, \<open>jerr\<close> (of the text read) and \<open>merr\<close>.\<close>

definition RedisStore_Get ::
  "(string \<Rightarrow> go_error) \<Rightarrow> 'w redis_store \<Rightarrow> string \<Rightarrow> 'w \<Rightarrow> 'w \<times> (go_error + session option)" where
  "RedisStore_Get jerr st key w =
     (case rcGet (rsRdb st) (sessionRedisKey key) w of
        (w', GetNil) \<Rightarrow> (w', Inr None)
      | (w', GetErr e) \<Rightarrow> (w', Inl (Wrapf ''redis get session'' e))
      | (w', GetVal raw) \<Rightarrow>
          (case session_decode raw of
             None \<Rightarrow> (w', Inl (Wrapf ''decode session'' (jerr raw)))
           | Some s \<Rightarrow> (w', Inr (Some s))))"

text \<open>
  \<open>Save\<close> updates the session it is given (caps and times) before it writes it; the session after
  the call is part of the result. \<open>now\<close> is what \<open>time.Now\<close> returns.
\<close>

definition stamp_session :: "time \<Rightarrow> session \<Rightarrow> session" where
  "stamp_session now s =
     (let s1 = s\<lparr>sessMessages := TrimMessages (sessMessages s), sessUpdatedAt := now\<rparr>
      in if sessCreatedAt s1 = 0 then s1\<lparr>sessCreatedAt := now\<rparr> else s1)"

definition RedisStore_Save ::
  "go_error \<Rightarrow> 'w redis_store \<Rightarrow> time \<Rightarrow> string \<Rightarrow> session option \<Rightarrow> 'w \<Rightarrow>
   'w \<times> session option \<times> go_error option" where
  "RedisStore_Save merr st now key sess w =
     (case sess of None \<Rightarrow> (w, None, Some (Errorf ''nil session''))
      | Some s0 \<Rightarrow>
          (let s = stamp_session now s0
           in case session_encode s of
                None \<Rightarrow> (w, Some s, Some (Wrapf ''encode session'' merr))
              | Some raw \<Rightarrow>
                  (case rcSet (rsRdb st) (sessionRedisKey key) raw (rsTtl st) w of
                     (w', Some e) \<Rightarrow> (w', Some s, Some (Wrapf ''redis set session'' e))
                   | (w', None) \<Rightarrow> (w', Some s, None))))"

definition RedisStore_Delete :: "'w redis_store \<Rightarrow> string \<Rightarrow> 'w \<Rightarrow> 'w \<times> go_error option" where
  "RedisStore_Delete st key w =
     (case rcDel (rsRdb st) (sessionRedisKey key) w of
        (w', Some e) \<Rightarrow> (w', Some (Wrapf ''redis del session'' e))
      | (w', None) \<Rightarrow> (w', None))"

lemma sessionRedisKey_inj [simp]: "sessionRedisKey a = sessionRedisKey b \<longleftrightarrow> a = b"
  by (simp add: sessionRedisKey_def)

section \<open>The store contract\<close>

text \<open>
  What the agent and the handler rely on. \<open>held w k\<close> is the session the store keeps under \<open>k\<close>;
  \<open>kept s\<close> is what is kept of a session \<open>s\<close> after \<open>Save\<close> returned it. A lookup that succeeds returns
  what is held, a successful save replaces it under its key only, and a failed one leaves either.
\<close>

locale session_store =
  fixes getS :: "string \<Rightarrow> 'w \<Rightarrow> 'w \<times> (go_error + session option)"
    and saveS :: "string \<Rightarrow> session \<Rightarrow> 'w \<Rightarrow> 'w \<times> session option \<times> go_error option"
    and delS :: "string \<Rightarrow> 'w \<Rightarrow> 'w \<times> go_error option"
    and held :: "'w \<Rightarrow> string \<Rightarrow> session option"
    and kept :: "session \<Rightarrow> session"
  assumes get_ok: "getS k w = (w', Inr so) \<Longrightarrow> so = held w k"
    and get_held: "getS k w = (w', r) \<Longrightarrow> held w' = held w"
    and save_ok: "saveS k s w = (w', so, None) \<Longrightarrow> \<exists>s'. so = Some s' \<and> held w' = (held w)(k \<mapsto> kept s')"
    and save_err: "saveS k s w = (w', so, Some e) \<Longrightarrow>
      \<exists>s'. so = Some s' \<and> (held w' = held w \<or> held w' = (held w)(k \<mapsto> kept s'))"
    and del_ok: "delS k w = (w', None) \<Longrightarrow> held w' = (held w)(k := None)"
    and del_err: "delS k w = (w', Some e) \<Longrightarrow> held w' = held w \<or> held w' = (held w)(k := None)"
begin

lemma save_other: "saveS k s w = (w', r) \<Longrightarrow> k' \<noteq> k \<Longrightarrow> held w' k' = held w k'"
  by (cases r; cases "snd r") (auto dest!: save_ok save_err)

lemma get_after_save:
  "saveS k s w = (w1, Some s1, None) \<Longrightarrow> getS k w1 = (w2, Inr r) \<Longrightarrow> r = Some (kept s1)"
  by (auto dest!: save_ok get_ok)

lemma get_after_delete: "delS k w = (w1, None) \<Longrightarrow> getS k w1 = (w2, Inr r) \<Longrightarrow> r = None"
  by (auto dest!: del_ok get_ok)

text \<open>Any sequence of saves under other keys leaves a session as it is.\<close>

fun save_all :: "(string \<times> session) list \<Rightarrow> 'w \<Rightarrow> 'w" where
  "save_all [] w = w"
| "save_all (p # ss) w = save_all ss (fst (saveS (fst p) (snd p) w))"

lemma save_all_other: "k \<notin> fst ` set ss \<Longrightarrow> held (save_all ss w) k = held w k"
proof (induction ss arbitrary: w)
  case (Cons p ss)
  obtain w' r where "saveS (fst p) (snd p) w = (w', r)"
    by (cases "saveS (fst p) (snd p) w")
  with Cons save_other [OF this, of k] show ?case by auto
qed simp

end

lemma cloneSession_id [simp]: "cloneSession s = s" "cloneSession = (\<lambda>s. s)"
  by (simp_all add: cloneSession_def fun_eq_iff)

interpretation mem: session_store MemoryStore_Get "\<lambda>k s. MemoryStore_Save k (Some s)" MemoryStore_Delete
  map_of "\<lambda>s. s"
  by unfold_locales
    (auto simp: MemoryStore_Get_def MemoryStore_Save_def MemoryStore_Delete_def
      update_conv' delete_conv' option.map_ident)

text \<open>The Redis store meets the same contract, under the laws of the client.\<close>

definition redis_held :: "('w \<Rightarrow> keyspace) \<Rightarrow> 'w \<Rightarrow> string \<Rightarrow> session option" where
  "redis_held view w key = Option.bind (view w (sessionRedisKey key)) session_decode"

lemma redis_held_set:
  "view w' = (view w)(sessionRedisKey k \<mapsto> raw) \<Longrightarrow> session_decode raw = Some s \<Longrightarrow>
   redis_held view w' = (redis_held view w)(k \<mapsto> s)"
  by (auto simp: redis_held_def fun_eq_iff)

lemma redis_held_same: "view w' = view w \<Longrightarrow> redis_held view w' = redis_held view w"
  by (auto simp: redis_held_def fun_eq_iff)

lemma redis_held_del:
  "view w' = (view w)(sessionRedisKey k := None) \<Longrightarrow> redis_held view w' = (redis_held view w)(k := None)"
  by (auto simp: redis_held_def fun_eq_iff)

lemma RedisStore_contract:
  assumes "redis_laws (rsRdb st) view"
  shows "session_store (RedisStore_Get jerr st) (\<lambda>k s w. RedisStore_Save merr st (clock w) k (Some s) w)
    (RedisStore_Delete st) (redis_held view) norm_session"
proof
  note laws = redis_get [OF assms] redis_set [OF assms] redis_del [OF assms]
  show "r = redis_held view w k" if "RedisStore_Get jerr st k w = (w', Inr r)" for k w w' r
    using that by (auto simp: RedisStore_Get_def redis_held_def split: prod.splits get_reply.splits option.splits
      dest!: laws(1))
  show "redis_held view w' = redis_held view w" if "RedisStore_Get jerr st k w = (w', r)" for k w w' r
    using that by (auto simp: RedisStore_Get_def split: prod.splits get_reply.splits option.splits
      dest!: laws(1) intro: redis_held_same)
  show "\<exists>s'. so = Some s' \<and> redis_held view w' = (redis_held view w)(k \<mapsto> norm_session s')"
    if "RedisStore_Save merr st (clock w) k (Some s) w = (w', so, None)" for k s w w' so
    using that by (auto simp: RedisStore_Save_def Let_def split: prod.splits option.splits
      dest!: laws(2) intro!: redis_held_set session_codec)
  show "\<exists>s'. so = Some s' \<and> (redis_held view w' = redis_held view w \<or>
      redis_held view w' = (redis_held view w)(k \<mapsto> norm_session s'))"
    if "RedisStore_Save merr st (clock w) k (Some s) w = (w', so, Some e)" for k s w w' so e
    using that by (auto simp: RedisStore_Save_def Let_def split: prod.splits option.splits
      dest!: laws(2) dest: redis_held_same redis_held_set [OF _ session_codec])
  show "redis_held view w' = (redis_held view w)(k := None)" if "RedisStore_Delete st k w = (w', None)" for k w w'
    using that by (auto simp: RedisStore_Delete_def split: prod.splits option.splits
      dest!: laws(3) intro: redis_held_del)
  show "redis_held view w' = redis_held view w \<or> redis_held view w' = (redis_held view w)(k := None)"
    if "RedisStore_Delete st k w = (w', Some e)" for k w w' e
    using that by (auto simp: RedisStore_Delete_def split: prod.splits option.splits
      dest!: laws(3) intro: redis_held_del redis_held_same)
qed

section \<open>The per-user lock (lock.go)\<close>

definition lockRedisKey :: "string \<Rightarrow> string" where
  "lockRedisKey key = ''bot:lock:'' @ key"

text \<open>The Lua script, run atomically by the server.\<close>

definition releaseScript :: "string \<Rightarrow> string \<Rightarrow> keyspace \<Rightarrow> keyspace \<times> int" where
  "releaseScript k arg ks = (if ks k = Some arg then (ks(k := None), 1) else (ks, 0))"

text \<open>\<open>rnd\<close> is what \<open>rand.Read\<close> gives: 16 bytes or an error.\<close>

definition randomToken :: "go_error + string \<Rightarrow> go_error + string" where
  "randomToken rnd = (case rnd of Inl e \<Rightarrow> Inl e | Inr b \<Rightarrow> Inr (hex_encode b))"

text \<open>\<open>Inr (Some t)\<close> is Go's \<open>(t, true, nil)\<close>, \<open>Inr None\<close> is \<open>("", false, nil)\<close>.\<close>

definition RedisLocker_TryAcquire ::
  "'w redis \<Rightarrow> string \<Rightarrow> int \<Rightarrow> go_error + string \<Rightarrow> 'w \<Rightarrow> 'w \<times> (go_error + string option)" where
  "RedisLocker_TryAcquire rc key ttl0 rnd w =
     (let ttl = (if ttl0 \<le> 0 then 60 * sec else ttl0)
      in case randomToken rnd of
           Inl e \<Rightarrow> (w, Inl e)
         | Inr token \<Rightarrow>
             (case rcSetNX rc (lockRedisKey key) token ttl w of
                (w', Inl e) \<Rightarrow> (w', Inl (Wrapf ''redis setnx'' e))
              | (w', Inr ok) \<Rightarrow> if \<not> ok then (w', Inr None) else (w', Inr (Some token))))"

definition RedisLocker_Release :: "'w redis \<Rightarrow> string \<Rightarrow> string \<Rightarrow> 'w \<Rightarrow> 'w \<times> go_error option" where
  "RedisLocker_Release rc key token w =
     (if token = [] then (w, None)
      else case rcEval rc (releaseScript (lockRedisKey key) token) w of
          (w', Inl e) \<Rightarrow> (w', Some (Wrapf ''redis release'' e))
        | (w', Inr n) \<Rightarrow> (w', None))"

lemma lockRedisKey_inj [simp]: "lockRedisKey a = lockRedisKey b \<longleftrightarrow> a = b"
  by (simp add: lockRedisKey_def)

lemma lock_session_keys [simp]: "lockRedisKey a \<noteq> sessionRedisKey b" "sessionRedisKey b \<noteq> lockRedisKey a"
  by (simp_all add: lockRedisKey_def sessionRedisKey_def)

text \<open>Who owns the lock of a key.\<close>

definition lock_owner :: "('w \<Rightarrow> keyspace) \<Rightarrow> 'w \<Rightarrow> string \<Rightarrow> string option" where
  "lock_owner view w key = view w (lockRedisKey key)"

lemma lock_owner_upd:
  "view w' = (view w)(lockRedisKey k := v) \<Longrightarrow> lock_owner view w' = (lock_owner view w)(k := v)"
  by (auto simp: lock_owner_def fun_eq_iff)

lemma lock_owner_same: "view w' = view w \<Longrightarrow> lock_owner view w' = lock_owner view w"
  by (auto simp: lock_owner_def fun_eq_iff)

lemma TryAcquire_cases:
  assumes "redis_laws rc view" "RedisLocker_TryAcquire rc key ttl rnd w = (w', r)"
  shows "case r of
      Inr (Some t) \<Rightarrow> lock_owner view w key = None \<and> lock_owner view w' = (lock_owner view w)(key \<mapsto> t)
        \<and> randomToken rnd = Inr t
    | Inr None \<Rightarrow> lock_owner view w key \<noteq> None \<and> lock_owner view w' = lock_owner view w
    | Inl e \<Rightarrow> lock_owner view w' = lock_owner view w \<or> lock_owner view w key = None \<and>
        (\<exists>t. lock_owner view w' = (lock_owner view w)(key \<mapsto> t))"
proof (cases "randomToken rnd")
  case (Inl e)
  with assms(2) show ?thesis by (auto simp: RedisLocker_TryAcquire_def)
next
  case (Inr t)
  define ttl' where "ttl' = (if ttl \<le> 0 then 60 * sec else ttl)"
  obtain w1 q where s: "rcSetNX rc (lockRedisKey key) t ttl' w = (w1, q)"
    by (cases "rcSetNX rc (lockRedisKey key) t ttl' w")
  have l: "lock_owner view w key = view w (lockRedisKey key)" by (simp add: lock_owner_def)
  have r: "(w', r) = (case q of Inl e \<Rightarrow> (w1, Inl (Wrapf ''redis setnx'' e))
      | Inr ok \<Rightarrow> if \<not> ok then (w1, Inr None) else (w1, Inr (Some t)))"
    using assms(2) Inr s by (simp add: RedisLocker_TryAcquire_def ttl'_def [symmetric])
  note nx = redis_setnx [OF assms(1) s]
  show ?thesis
  proof (cases q)
    case (Inl e)
    with nx r l show ?thesis by (auto dest: lock_owner_upd lock_owner_same)
  next
    case (Inr ok)
    with nx r l \<open>randomToken rnd = Inr t\<close> show ?thesis
      by (cases ok) (auto dest: lock_owner_upd lock_owner_same)
  qed
qed

lemma Release_cases:
  assumes "redis_laws rc view" "RedisLocker_Release rc key t w = (w', r)" "t \<noteq> []"
  shows "(if lock_owner view w key = Some t then lock_owner view w' = (lock_owner view w)(key := None)
          else lock_owner view w' = lock_owner view w) \<or> r \<noteq> None \<and> lock_owner view w' = lock_owner view w"
proof -
  obtain w1 q where e: "rcEval rc (releaseScript (lockRedisKey key) t) w = (w1, q)"
    by (cases "rcEval rc (releaseScript (lockRedisKey key) t) w")
  have l: "lock_owner view w key = view w (lockRedisKey key)" by (simp add: lock_owner_def)
  have w': "w' = w1 \<and> (r = None \<longleftrightarrow> (\<exists>n. q = Inr n))"
    using assms(2,3) e by (auto simp: RedisLocker_Release_def split: sum.splits)
  have "view w1 = (if view w (lockRedisKey key) = Some t then (view w)(lockRedisKey key := None) else view w)
      \<or> r \<noteq> None \<and> view w1 = view w"
    using redis_eval [OF assms(1) e] w' by (auto simp: releaseScript_def split: sum.splits if_splits)
  then show ?thesis using w' l by (auto dest: lock_owner_upd lock_owner_same split: if_splits)
qed

text \<open>
  The lock as a transition system: any number of holders, each step one call of the client, the
  expiry of a key, or a step that touches no lock. A state is a world and the acquisitions, a key
  with its token, that were neither released nor have expired.
\<close>

inductive lock_step ::
  "'w redis \<Rightarrow> ('w \<Rightarrow> keyspace) \<Rightarrow> 'w \<times> (string \<times> string) list \<Rightarrow> 'w \<times> (string \<times> string) list \<Rightarrow> bool"
  for rc view where
  acquire: "RedisLocker_TryAcquire rc key ttl rnd w = (w', Inr (Some t)) \<Longrightarrow>
    lock_step rc view (w, hs) (w', (key, t) # hs)"
| no_acquire: "RedisLocker_TryAcquire rc key ttl rnd w = (w', r) \<Longrightarrow> \<forall>t. r \<noteq> Inr (Some t) \<Longrightarrow>
    lock_step rc view (w, hs) (w', hs)"
| release: "t \<noteq> [] \<Longrightarrow> RedisLocker_Release rc key t w = (w', r) \<Longrightarrow>
    lock_step rc view (w, hs) (w', removeAll (key, t) hs)"
| expire: "view w' = (view w)(lockRedisKey key := None) \<Longrightarrow>
    lock_step rc view (w, hs) (w', filter (\<lambda>(k, t). k \<noteq> key) hs)"
| other: "lock_owner view w' = lock_owner view w \<Longrightarrow> lock_step rc view (w, hs) (w', hs)"

definition lock_inv :: "('w \<Rightarrow> keyspace) \<Rightarrow> 'w \<times> (string \<times> string) list \<Rightarrow> bool" where
  "lock_inv view s \<longleftrightarrow> distinct (map fst (snd s)) \<and>
     (\<forall>(k, t) \<in> set (snd s). lock_owner view (fst s) k = Some t)"

lemma lock_inv_removeAll: "lock_inv view (w, hs) \<Longrightarrow> lock_inv view (w, removeAll x hs)"
  by (auto simp: lock_inv_def removeAll_filter_not_eq distinct_map_filter)

lemma lock_inv_cong:
  "lock_owner view w' = lock_owner view w \<Longrightarrow> lock_inv view (w, hs) \<Longrightarrow> lock_inv view (w', hs)"
  by (simp add: lock_inv_def)

lemma lock_inv_grow:
  assumes "lock_inv view (w, hs)" "lock_owner view w key = None"
    "lock_owner view w' = (lock_owner view w)(key \<mapsto> t)"
  shows "lock_inv view (w', hs) \<and> lock_inv view (w', (key, t) # hs)"
  using assms by (force simp: lock_inv_def)

lemma lock_inv_drop:
  assumes "lock_inv view (w, hs)" "lock_owner view w' = (lock_owner view w)(key := None)"
    "\<forall>h \<in> set hs'. h \<in> set hs \<and> fst h \<noteq> key" "distinct (map fst hs')"
  shows "lock_inv view (w', hs')"
  using assms by (fastforce simp: lock_inv_def)

lemma lock_step_inv:
  assumes laws: "redis_laws rc view" and step: "lock_step rc view s s'" and inv: "lock_inv view s"
  shows "lock_inv view s'"
  using step inv
proof (induction rule: lock_step.induct)
  case (acquire key ttl rnd w w' t hs)
  then show ?case using TryAcquire_cases [OF laws acquire(1)] lock_inv_grow by fastforce
next
  case (no_acquire key ttl rnd w w' r hs)
  from TryAcquire_cases [OF laws no_acquire(1)] no_acquire(2) consider
      "lock_owner view w' = lock_owner view w"
    | t where "lock_owner view w key = None" "lock_owner view w' = (lock_owner view w)(key \<mapsto> t)"
    by (auto split: sum.splits option.splits)
  then show ?case
    using no_acquire(3) by cases (blast intro: lock_inv_cong dest: lock_inv_grow)+
next
  case (release t key w w' r hs)
  from Release_cases [OF laws release(2) release(1)] consider
      "lock_owner view w key = Some t" "lock_owner view w' = (lock_owner view w)(key := None)"
    | "lock_owner view w' = lock_owner view w" by (auto split: if_splits)
  then show ?case
  proof cases
    case 1
    have "fst h \<noteq> key" if "h \<in> set (removeAll (key, t) hs)" for h
    proof -
      obtain k u where h: "h = (k, u)" by (cases h)
      with that have "(k, u) \<in> set hs" "(k, u) \<noteq> (key, t)" by simp_all
      moreover from this release(3) have "lock_owner view w k = Some u" by (auto simp: lock_inv_def)
      ultimately show ?thesis using 1(1) h by auto
    qed
    moreover have "distinct (map fst (removeAll (key, t) hs))"
      using release(3) by (simp add: lock_inv_def removeAll_filter_not_eq distinct_map_filter)
    ultimately show ?thesis
      using release(3) by (intro lock_inv_drop [OF _ 1(2)]) auto
  next
    case 2
    with release(3) show ?thesis by (auto intro: lock_inv_cong lock_inv_removeAll)
  qed
next
  case (expire w' w key hs)
  have "lock_owner view w' = (lock_owner view w)(key := None)" by (rule lock_owner_upd) (fact expire(1))
  then show ?case
    using expire(2) by (auto simp: lock_inv_def distinct_map_filter)
next
  case (other w' w hs)
  then show ?case by (auto intro: lock_inv_cong)
qed

lemma lock_reach_inv:
  "(lock_step rc view)\<^sup>*\<^sup>* s s' \<Longrightarrow> redis_laws rc view \<Longrightarrow> lock_inv view s \<Longrightarrow> lock_inv view s'"
  by (induction rule: rtranclp_induct) (auto intro: lock_step_inv)

section \<open>Properties\<close>

lemma decode_all_None: "decode_all f xs = None \<longleftrightarrow> (\<exists>x \<in> set xs. f x = None)"
  by (induction xs) (auto split: option.splits)

text \<open>Trimming keeps the newest 40 messages, in order, each with at most 20480 bytes of the
  original content and a marker of bounded size.\<close>
theorem TrimMessages_caps:
  "length (TrimMessages ms) = min 40 (length ms) \<and>
   (\<exists>older. map trim_content ms = older @ TrimMessages ms) \<and>
   (\<forall>m \<in> set (TrimMessages ms). \<exists>m0 \<in> set ms. m = m0 \<and> length (msgContent m) \<le> 20480 \<or>
      20480 < length (msgContent m0) \<and>
      m = m0\<lparr>msgContent := take 20480 (msgContent m0) @ trim_marker (length (msgContent m0) - 20480)\<rparr>)"
proof -
  have "set (TrimMessages ms) \<subseteq> trim_content ` set ms"
    by (auto simp: TrimMessages_def Let_def dest: in_set_dropD)
  moreover have "trim_content m0 = m0 \<and> length (msgContent m0) \<le> 20480 \<or>
      20480 < length (msgContent m0) \<and>
      trim_content m0 = m0\<lparr>msgContent := take 20480 (msgContent m0) @ trim_marker (length (msgContent m0) - 20480)\<rparr>" for m0
    by (auto simp: trim_content_def MaxMessageContent_def)
  ultimately show ?thesis
    using TrimMessages_length [of ms] TrimMessages_suffix [of ms]
    by (auto simp: MaxMessages_def) (metis (no_types, lifting) imageE subsetD)
qed

theorem TrimMessages_caps_witness:
  "\<exists>m0 \<in> {message_zero}. message_zero = m0 \<and> length (msgContent message_zero) \<le> 20480 \<or>
      20480 < length (msgContent m0) \<and>
      message_zero = m0\<lparr>msgContent := take 20480 (msgContent m0) @ trim_marker (length (msgContent m0) - 20480)\<rparr>"
  using TrimMessages_caps [of "[message_zero]"]
  by (simp add: TrimMessages_def trim_content_def message_zero_def MaxMessages_def)

text \<open>Trimming is not idempotent: a stored message whose content was cut is cut again at the next
  save, and its marker then names the length of the first marker instead of the number of bytes
  that were dropped.\<close>
theorem trim_again:
  assumes "MaxMessageContent < length (msgContent m)"
  shows "msgContent (trim_content m) = take MaxMessageContent (msgContent m)
           @ trim_marker (length (msgContent m) - MaxMessageContent) \<and>
    msgContent (trim_content (trim_content m)) = take MaxMessageContent (msgContent m)
           @ trim_marker (23 + length (dec_nat (length (msgContent m) - MaxMessageContent)))"
  using assms by (auto simp: trim_content_def length_trim_marker)

theorem trim_again_witness:
  "msgContent (trim_content (trim_content (message_zero\<lparr>msgContent := replicate 20580 (CHR ''x'')\<rparr>)))
     = replicate 20480 (CHR ''x'') @ trim_marker 26"
  using trim_again [of "message_zero\<lparr>msgContent := replicate 20580 (CHR ''x'')\<rparr>"]
  by (simp add: MaxMessageContent_def dec_nat.simps)

text \<open>The hand-written integer formatting: decimal digits for every non-negative number (and
  nothing at all for a negative one).\<close>
theorem itoa_correct: "itoa n = (if n < 0 then [] else dec_int n)"
  by (simp add: itoa_dec itoa_neg)

text \<open>C8 A session that was saved without an error is read back: the caps applied, the update time
  set to the time of the save, and the strings and tool arguments as JSON keeps them; the sessions
  under other keys are untouched.\<close>
theorem redis_save_get:
  assumes "redis_laws (rsRdb st) view"
    and "RedisStore_Save merr st now key (Some s) w = (w1, s1, None)"
    and "RedisStore_Get jerr st key w1 = (w2, Inr r)"
  shows "r = Some (norm_session (stamp_session now s)) \<and> s1 = Some (stamp_session now s) \<and>
    (\<forall>k. k \<noteq> key \<longrightarrow> redis_held view w2 k = redis_held view w k)"
proof -
  note c = RedisStore_contract [OF assms(1), of jerr merr "\<lambda>_. now"]
  have s1: "s1 = Some (stamp_session now s)"
    using assms(2) by (auto simp: RedisStore_Save_def Let_def split: option.splits prod.splits)
  with session_store.get_after_save [OF c assms(2) [unfolded s1] assms(3)]
    session_store.save_other [OF c assms(2)] session_store.get_held [OF c assms(3)]
  show ?thesis by simp
qed


definition demo_session :: session where
  "demo_session = session_zero\<lparr>sessKey := ''p2p:u1'', sessMessages := [message_zero\<lparr>msgRole := ''user'', msgContent := ''hi''\<rparr>]\<rparr>"

theorem redis_save_get_witness:
  "\<exists>w1 w2. RedisStore_Save (Errorf ''m'') (NewRedisStore mr_client 0) 5 ''p2p:u1'' (Some demo_session) mr_empty
        = (w1, Some (stamp_session 5 demo_session), None) \<and>
      RedisStore_Get (\<lambda>_. Errorf ''j'') (NewRedisStore mr_client 0) ''p2p:u1'' w1
        = (w2, Inr (Some (norm_session (stamp_session 5 demo_session))))"
proof -
  let ?st = "NewRedisStore mr_client 0"
  let ?s = "stamp_session 5 demo_session"
  have t: "sessMessages ?s = sessMessages demo_session \<and> sessCreatedAt ?s = 5 \<and> sessUpdatedAt ?s = 5"
    by (simp add: stamp_session_def Let_def TrimMessages_id demo_session_def MaxMessages_def
        MaxMessageContent_def session_zero_def message_zero_def)
  have "fmt_RFC3339 5 \<noteq> None"
    by (auto simp: fmt_RFC3339_def date_of_def year_day_def day_ns_def split: prod.splits)
  moreover have "decode_all message_json (sessMessages demo_session) \<noteq> None"
    by (simp add: demo_session_def message_json_def message_zero_def)
  ultimately obtain raw where raw: "session_encode ?s = Some raw"
    using t by (auto simp: session_encode_def session_json_def time_json_def)
  have l: "redis_laws (rsRdb ?st) mr_view" by (simp add: NewRedisStore_def mr_laws)
  define w1 where "w1 = mr_put (sessionRedisKey ''p2p:u1'') raw (24 * 3600 * sec) mr_empty"
  have s: "RedisStore_Save (Errorf ''m'') ?st 5 ''p2p:u1'' (Some demo_session) mr_empty = (w1, Some ?s, None)"
    by (simp add: RedisStore_Save_def raw NewRedisStore_def mr_client_def w1_def)
  have g: "RedisStore_Get (\<lambda>_. Errorf ''j'') ?st ''p2p:u1'' w1 = (w1, Inr (Some (norm_session ?s)))"
    by (simp add: RedisStore_Get_def NewRedisStore_def mr_client_def w1_def session_codec [OF raw])
  from redis_save_get [OF l s g] s g show ?thesis by blast
qed

lemma session_encode_bad:
  assumes "m \<in> set (sessMessages s)" "tc \<in> set (msgToolCalls m)"
    and "tcArguments tc \<noteq> []" "\<not> json_valid (tcArguments tc)"
  shows "session_encode s = None"
proof -
  have "tool_call_json tc = None"
    using assms(3,4) by (simp add: tool_call_json_def args_json_def json_valid_def)
  with assms(2) have "decode_all tool_call_json (msgToolCalls m) = None" by (auto simp: decode_all_None)
  then have "message_json m = None" by (simp add: message_json_def)
  with assms(1) have "decode_all message_json (sessMessages s) = None" by (auto simp: decode_all_None)
  then show ?thesis by (simp add: session_encode_def session_json_def)
qed

lemma stamp_session_messages [simp]: "sessMessages (stamp_session now s) = TrimMessages (sessMessages s)"
  by (simp add: stamp_session_def Let_def)

text \<open>A message whose tool call has arguments that are not JSON cannot be stored: the save fails and
  the store is not written.\<close>
theorem save_rejects_bad_arguments:
  assumes "m \<in> set (TrimMessages (sessMessages s))" "tc \<in> set (msgToolCalls m)"
    and "tcArguments tc \<noteq> []" "\<not> json_valid (tcArguments tc)"
  shows "RedisStore_Save merr st now key (Some s) w =
    (w, Some (stamp_session now s), Some (Wrapf ''encode session'' merr))"
  using session_encode_bad [of m "stamp_session now s" tc] assms by (simp add: RedisStore_Save_def)

theorem save_rejects_bad_arguments_witness:
  "let tc = \<lparr>tcID = ''1'', tcName = ''t'', tcArguments = ''{''\<rparr>;
       s = session_zero\<lparr>sessMessages := [message_zero\<lparr>msgToolCalls := [tc]\<rparr>]\<rparr>
   in RedisStore_Save (Errorf ''m'') (NewRedisStore mr_client 0) 5 ''k'' (Some s) mr_empty =
        (mr_empty, Some (stamp_session 5 s), Some (Wrapf ''encode session'' (Errorf ''m'')))"
proof -
  let ?tc = "\<lparr>tcID = ''1'', tcName = ''t'', tcArguments = ''{''\<rparr>"
  let ?m = "message_zero\<lparr>msgToolCalls := [?tc]\<rparr>"
  have "TrimMessages [?m] = [?m]" by (rule TrimMessages_id) (simp_all add: MaxMessages_def message_zero_def)
  moreover have "\<not> json_valid ''{''"
    by (simp add: json_valid_def read_json_def skip_ws_def numeral_eq_Suc)
  ultimately show ?thesis
    unfolding Let_def by (intro save_rejects_bad_arguments [of ?m _ ?tc]) (simp_all add: session_zero_def)
qed

text \<open>C9 Mutual exclusion: in every state the lock system can reach, each key has at most one live
  acquisition, and the server still has its token; so nobody can acquire that key.\<close>
theorem lock_exclusion:
  assumes "redis_laws rc view" "(lock_step rc view)\<^sup>*\<^sup>* (w0, []) (w, hs)" "(key, t) \<in> set hs"
  shows "(\<forall>t'. (key, t') \<in> set hs \<longrightarrow> t' = t) \<and>
    (\<forall>ttl rnd. \<forall>w' t'. RedisLocker_TryAcquire rc key ttl rnd w \<noteq> (w', Inr (Some t')))"
proof -
  have "lock_inv view (w0, [])" by (simp add: lock_inv_def)
  with assms have i: "lock_inv view (w, hs)" by (blast intro: lock_reach_inv)
  then have "\<forall>t'. (key, t') \<in> set hs \<longrightarrow> t' = t"
    using assms(3) by (auto simp: lock_inv_def dest: eq_key_imp_eq_value)
  moreover have "lock_owner view w key = Some t" using i assms(3) by (auto simp: lock_inv_def)
  then have "RedisLocker_TryAcquire rc key ttl rnd w \<noteq> (w', Inr (Some t'))" for ttl rnd w' t'
    using TryAcquire_cases [OF assms(1), of key ttl rnd w w' "Inr (Some t')"] by auto
  ultimately show ?thesis by blast
qed

lemma mr_acquire:
  "mr_view w (lockRedisKey key) = None \<Longrightarrow>
   RedisLocker_TryAcquire mr_client key 0 (Inr b) w =
     (mr_put (lockRedisKey key) (hex_encode b) (60 * sec) w, Inr (Some (hex_encode b)))"
  by (simp add: RedisLocker_TryAcquire_def randomToken_def mr_client_def)

lemma mr_view_empty [simp]: "mr_view mr_empty = (\<lambda>k. None)"
  by (simp add: mr_view_def mr_empty_def fun_eq_iff)

theorem lock_exclusion_witness:
  "\<forall>ttl rnd. \<forall>w' t'. RedisLocker_TryAcquire mr_client ''u1'' ttl rnd
      (mr_put (lockRedisKey ''u1'') (hex_encode ''ab'') (60 * sec) mr_empty) \<noteq> (w', Inr (Some t'))"
proof -
  have "lock_step mr_client mr_view (mr_empty, [])
      (mr_put (lockRedisKey ''u1'') (hex_encode ''ab'') (60 * sec) mr_empty, [(''u1'', hex_encode ''ab'')])"
    by (rule lock_step.acquire [OF mr_acquire]) simp
  then have "(lock_step mr_client mr_view)\<^sup>*\<^sup>* (mr_empty, [])
      (mr_put (lockRedisKey ''u1'') (hex_encode ''ab'') (60 * sec) mr_empty, [(''u1'', hex_encode ''ab'')])"
    by blast
  from lock_exclusion [OF mr_laws this, of "''u1''" "hex_encode ''ab''"] show ?thesis by simp
qed

text \<open>Releasing with another token (a holder whose lock expired and was taken by someone else)
  does not change who owns the lock; releasing with the own token frees it.\<close>
theorem release_own_only:
  assumes "redis_laws rc view" "RedisLocker_Release rc key t w = (w', None)" "t \<noteq> []"
  shows "lock_owner view w' k =
    (if k = key \<and> lock_owner view w key = Some t then None else lock_owner view w k)"
  using Release_cases [OF assms] by (auto split: if_splits)

theorem release_own_only_witness:
  "lock_owner mr_view (fst (RedisLocker_Release mr_client ''k'' ''old''
      (mr_put (lockRedisKey ''k'') ''new'' 10 mr_empty))) ''k'' = Some ''new''"
proof -
  let ?w = "mr_put (lockRedisKey ''k'') ''new'' 10 mr_empty"
  obtain w' where w': "RedisLocker_Release mr_client ''k'' ''old'' ?w = (w', None)"
    by (simp add: RedisLocker_Release_def mr_client_def releaseScript_def)
  from release_own_only [OF mr_laws w'] w' show ?thesis by (simp add: lock_owner_def)
qed

end
