(* ===== verification/Agent.thy ===== *)
theory Agent
  imports Sessions
begin

text \<open>
  internal/agent: the request built for each step (context.go) and the loop that drives the
  provider, runs the tools it asks for and keeps the session (loop.go). One turn is a function
  from a session and a world to a session, a world, the events emitted in order and an error.
  Tools of one batch run concurrently; a schedule says in which order the calls take effect and
  in which order their end events are emitted.
\<close>

section \<open>The request of a step (context.go)\<close>

definition firstLine :: "string \<Rightarrow> string" where
  "firstLine s = (case Index s NL of None \<Rightarrow> s | Some i \<Rightarrow> take i s)"

definition default_preamble :: string where
  "default_preamble =
     ''You are an AI assistant running inside a Feishu (Lark) chat. Answer in the user'' @ [CHR 0x27] @
     ''s language. Prefer concise, well-formatted markdown. When a tool is appropriate, call it; '' @
     ''do not guess time-sensitive facts.''"

definition format_rules :: string where
  "format_rules =
     NL @ NL @ ''Formatting constraints for Feishu cards: output only Feishu-compatible markdown '' @
     ''(lark_md subset). Avoid HTML tags and markdown tables. Use inline code sparingly and only for '' @
     ''identifiers or commands. Do not rely on fancy markdown features.'' @
     NL @ NL @ ''Default answer style unless the user asks otherwise:'' @
     NL @ ''- Start with one direct answer sentence.'' @
     NL @ ''- Then give 2 to 4 short bullets only if they add value.'' @
     NL @ ''- Use at most 3 short sections.'' @
     NL @ ''- Keep each paragraph to 1 or 2 sentences.'' @
     NL @ ''- Avoid unnecessary blank lines and avoid many tiny sections.'' @
     NL @ ''- Do not add emojis unless they clearly help. If you use emojis, only use simple common '' @
     ''Unicode emojis such as '' @ utf8 [0x2705] @ '' '' @ utf8 [0x274C] @ '' '' @ utf8 [0x1F4A1] @
     '' '' @ utf8 [0x1F4CC] @ ''.'' @
     NL @ NL @ ''Preferred structure example:'' @
     NL @ utf8 [0x7ED3, 0x8BBA, 0xFF1A, 0x8FD9, 0x662F, 0x6700, 0x5173, 0x952E, 0x7684, 0x5224, 0x65AD, 0x3002] @
     NL @ utf8 [0x2022] @ '' '' @ utf8 [0x539F, 0x56E0, 0x4E00, 0xFF1A, 0x4E00, 0x53E5, 0x8BDD, 0x8BF4, 0x6E05, 0x3002] @
     NL @ utf8 [0x2022] @ '' '' @ utf8 [0x539F, 0x56E0, 0x4E8C, 0xFF1A, 0x4E00, 0x53E5, 0x8BDD, 0x8BF4, 0x6E05, 0x3002] @
     NL @ utf8 [0x4E0B, 0x4E00, 0x6B65, 0xFF1A, 0x5982, 0x679C, 0x9700, 0x8981, 0xFF0C, 0x518D, 0x7ED9, 0x4E00,
                0x4E2A, 0x660E, 0x786E, 0x52A8, 0x4F5C, 0x3002]"

definition tool_line :: "'w tool \<Rightarrow> string" where
  "tool_line t = ''- '' @ tName t @ '': '' @ firstLine (tDescription t) @ NL"

definition composeSystem :: "string \<Rightarrow> 'w tool_registry \<Rightarrow> 'w \<Rightarrow> string" where
  "composeSystem preamble reg w =
     (if preamble \<noteq> [] then preamble else default_preamble) @ format_rules @
     (let avail = tool_Available reg w
      in if avail = [] then [] else NL @ NL @ ''Available tools:'' @ NL @ concat (map tool_line avail))"

definition specsFromRegistry :: "'w tool_registry \<Rightarrow> 'w \<Rightarrow> tool_spec list" where
  "specsFromRegistry reg w =
     map (\<lambda>t. \<lparr>tsName = tName t, tsDescription = tDescription t, tsInputSchema = tInputSchema t\<rparr>)
       (tool_Available reg w)"

definition buildRequest :: "session \<Rightarrow> 'w tool_registry \<Rightarrow> string \<Rightarrow> bool \<Rightarrow> 'w \<Rightarrow> chat_request" where
  "buildRequest sess reg preamble enableThinking w =
     \<lparr>crSystem = composeSystem preamble reg w, crMessages = sessMessages sess,
      crTools = specsFromRegistry reg w, crModel = [], crTemperature = None, crMaxTokens = 0,
      crEnableThinking = enableThinking\<rparr>"

section \<open>The agent and its environment (loop.go)\<close>

definition DefaultMaxSteps :: int where "DefaultMaxSteps = 12"
definition DefaultToolTimeout :: int where "DefaultToolTimeout = 30 * sec"
definition MaxArgumentsLen :: nat where "MaxArgumentsLen = 100 * 1024"

type_synonym 'w save_fn = "string \<Rightarrow> session \<Rightarrow> 'w \<Rightarrow> 'w \<times> session option \<times> go_error option"

text \<open>
  \<open>agStore\<close> is the store's \<open>Save\<close>, or \<open>None\<close> for a nil store. The tool timeout only reaches the
  tools, through their context.
\<close>

record 'w agent =
  agProvider :: "'w provider"
  agRegistry :: "'w tool_registry"
  agStore :: "'w save_fn option"
  agMaxSteps :: int
  agToolTimeout :: int
  agPreamble :: string
  agThinking :: bool

definition NewAgent :: "'w provider \<Rightarrow> 'w tool_registry \<Rightarrow> 'w save_fn option \<Rightarrow> 'w agent" where
  "NewAgent p reg store =
     \<lparr>agProvider = p, agRegistry = reg, agStore = store, agMaxSteps = DefaultMaxSteps,
      agToolTimeout = DefaultToolTimeout, agPreamble = [], agThinking = False\<rparr>"

text \<open>
  One step of a batch: call \<open>i\<close> runs, or its goroutine emits its end event, \<open>ms\<close> milliseconds after
  it began.
\<close>

datatype exec_step = RunTool nat | EmitEnd nat int

text \<open>
  What a turn depends on besides the agent and the world: the caller in the context, the wording
  of \<open>%q\<close> and of JSON syntax errors, and the schedule of each batch (by its number and its size).
\<close>

record run_env =
  reCaller :: string
  reQuote :: "string \<Rightarrow> string"
  reJsonErr :: "string \<Rightarrow> string"
  reSched :: "nat \<Rightarrow> nat \<Rightarrow> exec_step list"

record tool_result =
  trID :: string
  trName :: string
  trContent :: string
  trIsError :: bool

definition tool_result_zero :: tool_result where
  "tool_result_zero = \<lparr>trID = [], trName = [], trContent = [], trIsError = False\<rparr>"

section \<open>Running tools\<close>

definition execOne :: "'w agent \<Rightarrow> run_env \<Rightarrow> tool_call \<Rightarrow> 'w \<Rightarrow> 'w \<times> tool_result" where
  "execOne a env c w =
     (let res = tool_result_zero\<lparr>trID := tcID c, trName := tcName c\<rparr>
      in case tool_Get (agRegistry a) (tcName c) of
           None \<Rightarrow> (w, res\<lparr>trIsError := True, trContent := ''unknown tool '' @ reQuote env (tcName c)\<rparr>)
         | Some t \<Rightarrow>
             if tcArguments c \<noteq> [] \<and> \<not> json_valid (tcArguments c) then
               (w, res\<lparr>trIsError := True,
                       trContent := ''invalid JSON arguments from model: '' @ reJsonErr env (tcArguments c)\<rparr>)
             else
               (case tCall t (reCaller env) (tcArguments c) w of
                  (w', ToolPanic rec) \<Rightarrow>
                    (w', res\<lparr>trIsError := True, trContent := ''internal error: '' @ rec\<rparr>)
                | (w', ToolErr err) \<Rightarrow>
                    (w', res\<lparr>trIsError := True,
                             trContent := (case UserMessage err of
                                             Some m \<Rightarrow> m | None \<Rightarrow> ''tool error: '' @ Error err)\<rparr>)
                | (w', ToolOk content) \<Rightarrow> (w', res\<lparr>trContent := content\<rparr>)))"

definition end_event :: "tool_call \<Rightarrow> tool_result \<Rightarrow> int \<Rightarrow> stream_event" where
  "end_event c r ms =
     (event EventToolCallEnd)\<lparr>evToolCallID := tcID c, evToolName := tcName c,
        evText := (if trIsError r then ''error: '' @ truncate_str (trContent r) 80 else ''success''),
        evStopReason := dec_int ms\<rparr>"

fun exec_steps ::
  "'w agent \<Rightarrow> run_env \<Rightarrow> tool_call list \<Rightarrow> exec_step list \<Rightarrow> 'w \<times> tool_result list \<Rightarrow>
   ('w \<times> tool_result list) \<times> stream_event list" where
  "exec_steps a env calls [] s = (s, [])"
| "exec_steps a env calls (RunTool i # ss) (w, out) =
     (let (w', r) = execOne a env (calls ! i) w in exec_steps a env calls ss (w', out[i := r]))"
| "exec_steps a env calls (EmitEnd i ms # ss) (w, out) =
     (let (s', evs) = exec_steps a env calls ss (w, out)
      in (s', end_event (calls ! i) (out ! i) ms # evs))"

definition execTools ::
  "'w agent \<Rightarrow> run_env \<Rightarrow> exec_step list \<Rightarrow> tool_call list \<Rightarrow> 'w \<Rightarrow>
   'w \<times> tool_result list \<times> stream_event list" where
  "execTools a env sched calls w =
     (let ((w', out), evs) = exec_steps a env calls sched (w, replicate (length calls) tool_result_zero)
      in (w', out, evs))"

text \<open>
  The schedules of \<open>n\<close> goroutines: each runs its call once, then emits its end event once, in any
  interleaving.
\<close>

fun runs_of :: "exec_step list \<Rightarrow> nat list" where
  "runs_of [] = []"
| "runs_of (RunTool i # ss) = i # runs_of ss"
| "runs_of (EmitEnd i ms # ss) = runs_of ss"

fun ends_of :: "exec_step list \<Rightarrow> nat list" where
  "ends_of [] = []"
| "ends_of (RunTool i # ss) = ends_of ss"
| "ends_of (EmitEnd i ms # ss) = i # ends_of ss"

fun ends_after_runs :: "nat list \<Rightarrow> exec_step list \<Rightarrow> bool" where
  "ends_after_runs started [] \<longleftrightarrow> True"
| "ends_after_runs started (RunTool i # ss) \<longleftrightarrow> ends_after_runs (i # started) ss"
| "ends_after_runs started (EmitEnd i ms # ss) \<longleftrightarrow> i \<in> set started \<and> ends_after_runs started ss"

definition valid_sched :: "nat \<Rightarrow> exec_step list \<Rightarrow> bool" where
  "valid_sched n ss \<longleftrightarrow> mset (runs_of ss) = mset [0..<n] \<and> mset (ends_of ss) = mset [0..<n]
     \<and> ends_after_runs [] ss"

definition seq_sched :: "nat \<Rightarrow> exec_step list" where
  "seq_sched n = concat (map (\<lambda>i. [RunTool i, EmitEnd i 0]) [0..<n])"

section \<open>One stream of events\<close>

record partial_call =
  pcName :: string
  pcArgs :: string

text \<open>The variables of one iteration of the outer loop.\<close>

record turn =
  tnThinking :: string
  tnText :: string
  tnPartials :: "partial_call gomap"
  tnOrder :: "string list"
  tnAsst :: message

definition turn_init :: turn where
  "turn_init = \<lparr>tnThinking = [], tnText = [], tnPartials = [], tnOrder = [],
     tnAsst = message_zero\<lparr>msgRole := RoleAssistant\<rparr>\<rparr>"

text \<open>The state of a run: the world, the session, the events emitted so far, the batches so far.\<close>

record 'w run_state =
  rsWorld :: 'w
  rsSess :: session
  rsOut :: "stream_event list"
  rsBatch :: nat

definition emit :: "stream_event \<Rightarrow> 'w run_state \<Rightarrow> 'w run_state" where
  "emit ev st = st\<lparr>rsOut := rsOut st @ [ev]\<rparr>"

definition saveSession :: "'w agent \<Rightarrow> 'w run_state \<Rightarrow> 'w run_state \<times> go_error option" where
  "saveSession a st =
     (case agStore a of None \<Rightarrow> (st, None)
      | Some save \<Rightarrow>
          (case save (sessKey (rsSess st)) (rsSess st) (rsWorld st) of
             (w', so, e) \<Rightarrow>
               (st\<lparr>rsWorld := w', rsSess := (case so of Some s' \<Rightarrow> s' | None \<Rightarrow> rsSess st)\<rparr>, e)))"

definition append_messages :: "message list \<Rightarrow> 'w run_state \<Rightarrow> 'w run_state" where
  "append_messages ms st = st\<lparr>rsSess := (rsSess st)\<lparr>sessMessages := sessMessages (rsSess st) @ ms\<rparr>\<rparr>"

definition previewArgs :: "string \<Rightarrow> string" where
  "previewArgs raw = (if length raw > 200 then take 200 raw @ ellipsis else raw)"

definition start_event :: "tool_call \<Rightarrow> stream_event" where
  "start_event tc = (event EventToolCallStart)\<lparr>evToolCallID := tcID tc, evToolName := tcName tc,
     evText := previewArgs (tcArguments tc)\<rparr>"

definition tool_message :: "tool_result \<Rightarrow> message" where
  "tool_message r = message_zero\<lparr>msgRole := RoleTool, msgContent := trContent r,
     msgToolCallID := trID r, msgName := trName r, msgIsError := trIsError r\<rparr>"

definition partial_of :: "turn \<Rightarrow> string \<Rightarrow> partial_call" where
  "partial_of tn i = (case map_of (tnPartials tn) i of Some pc \<Rightarrow> pc | None \<Rightarrow> \<lparr>pcName = [], pcArgs = []\<rparr>)"

definition collect_calls :: "turn \<Rightarrow> tool_call list" where
  "collect_calls tn =
     map (\<lambda>i. \<lparr>tcID = i, tcName = pcName (partial_of tn i), tcArguments = pcArgs (partial_of tn i)\<rparr>)
       (tnOrder tn)"

text \<open>
  A handler returns the new state and \<open>Some r\<close> when the function returns with the error \<open>r\<close> (\<open>None\<close> for
  a nil error).
\<close>

definition on_message_end ::
  "'w agent \<Rightarrow> run_env \<Rightarrow> stream_event \<Rightarrow> 'w run_state \<Rightarrow> turn \<Rightarrow>
   'w run_state \<times> turn \<times> go_error option option" where
  "on_message_end a env ev st tn =
     (let asst = (tnAsst tn)\<lparr>msgThinking := tnThinking tn, msgContent := tnText tn,
                    msgToolCalls := msgToolCalls (tnAsst tn) @ collect_calls tn\<rparr>;
          tn' = tn\<lparr>tnAsst := asst\<rparr>
      in if msgToolCalls asst = [] \<and> TrimSpace (msgContent asst) = [] then
           (emit ((event EventError)\<lparr>evErr := Some ErrEmptyAssistantResponse\<rparr>) st, tn',
            Some (Some ErrEmptyAssistantResponse))
         else case saveSession a (append_messages [asst] st) of
           (st1, Some e) \<Rightarrow> (st1, tn', Some (Some (Wrapf ''save session (assistant)'' e)))
         | (st1, None) \<Rightarrow>
             (let st2 = emit ev st1
              in if msgToolCalls asst = [] then (st2, tn', Some None)
                 else
                   (let st3 = st2\<lparr>rsOut := rsOut st2 @ map start_event (msgToolCalls asst)\<rparr>;
                        (w', results, evs) = execTools a env
                           (reSched env (rsBatch st3) (length (msgToolCalls asst)))
                           (msgToolCalls asst) (rsWorld st3);
                        st4 = st3\<lparr>rsWorld := w', rsOut := rsOut st3 @ evs, rsBatch := rsBatch st3 + 1\<rparr>
                    in case saveSession a (append_messages (map tool_message results) st4) of
                         (st5, Some e) \<Rightarrow> (st5, tn', Some (Some (Wrapf ''save session (tools)'' e)))
                       | (st5, None) \<Rightarrow> (st5, tn', None))))"

definition on_event ::
  "'w agent \<Rightarrow> run_env \<Rightarrow> stream_event \<Rightarrow> 'w run_state \<Rightarrow> turn \<Rightarrow>
   'w run_state \<times> turn \<times> go_error option option" where
  "on_event a env ev st tn =
     (case evType ev of
        EventThinkingDelta \<Rightarrow> (emit ev st, tn\<lparr>tnThinking := tnThinking tn @ evText ev\<rparr>, None)
      | EventTextDelta \<Rightarrow> (emit ev st, tn\<lparr>tnText := tnText tn @ evText ev\<rparr>, None)
      | EventToolCallStart \<Rightarrow>
          (if map_of (tnPartials tn) (evToolCallID ev) = None then
             (st, tn\<lparr>tnPartials := AList.update (evToolCallID ev) \<lparr>pcName = evToolName ev, pcArgs = []\<rparr> (tnPartials tn),
                     tnOrder := tnOrder tn @ [evToolCallID ev]\<rparr>, None)
           else (st, tn, None))
      | EventToolCallArgs \<Rightarrow>
          (let (pc, tn1) =
             (case map_of (tnPartials tn) (evToolCallID ev) of
                Some pc \<Rightarrow> (pc, tn)
              | None \<Rightarrow>
                  (let pc = \<lparr>pcName = evToolName ev, pcArgs = []\<rparr>
                   in (pc, tn\<lparr>tnPartials := AList.update (evToolCallID ev) pc (tnPartials tn),
                              tnOrder := tnOrder tn @ [evToolCallID ev]\<rparr>)))
           in if length (pcArgs pc) + length (evArgsDelta ev) > MaxArgumentsLen then
                (emit ((event EventError)\<lparr>evErr := Some (Errorf ''tool arguments too large'')\<rparr>) st, tn1,
                 Some (Some (Errorf ''tool arguments exceeded cap'')))
              else
                (st, tn1\<lparr>tnPartials := AList.update (evToolCallID ev)
                           (pc\<lparr>pcArgs := pcArgs pc @ evArgsDelta ev\<rparr>) (tnPartials tn1)\<rparr>, None))
      | EventToolCallEnd \<Rightarrow> (st, tn, None)
      | EventMessageEnd \<Rightarrow> on_message_end a env ev st tn
      | EventError \<Rightarrow> (emit ev st, tn, Some (evErr ev))
      | EventOther s \<Rightarrow> (st, tn, None))"

fun on_events ::
  "'w agent \<Rightarrow> run_env \<Rightarrow> stream_event list \<Rightarrow> 'w run_state \<Rightarrow> turn \<Rightarrow>
   'w run_state \<times> turn \<times> go_error option option" where
  "on_events a env [] st tn = (st, tn, None)"
| "on_events a env (ev # evs) st tn =
     (case on_event a env ev st tn of
        (st', tn', Some r) \<Rightarrow> (st', tn', Some r)
      | (st', tn', None) \<Rightarrow> on_events a env evs st' tn')"

section \<open>The outer loop\<close>

definition run_step ::
  "'w agent \<Rightarrow> run_env \<Rightarrow> 'w run_state \<Rightarrow> 'w run_state \<times> go_error option option" where
  "run_step a env st =
     (let req = buildRequest (rsSess st) (agRegistry a) (agPreamble a) (agThinking a) (rsWorld st)
      in case provStream (agProvider a) req (rsWorld st) of
           (w', Inl err) \<Rightarrow> (st\<lparr>rsWorld := w'\<rparr>, Some (Some (Wrapf ''provider stream'' err)))
         | (w', Inr events) \<Rightarrow>
             (case on_events a env events (st\<lparr>rsWorld := w'\<rparr>) turn_init of
                (st', tn, Some r) \<Rightarrow> (st', Some r)
              | (st', tn, None) \<Rightarrow>
                  (let asst = tnAsst tn
                   in if msgRole asst = [] \<or>
                         (msgContent asst = [] \<and> msgThinking asst = [] \<and> msgToolCalls asst = [])
                      then (st', Some (Some (Errorf ''provider stream ended without message_end'')))
                      else (st', None))))"

fun run_steps :: "'w agent \<Rightarrow> run_env \<Rightarrow> nat \<Rightarrow> 'w run_state \<Rightarrow> 'w run_state \<times> go_error option" where
  "run_steps a env 0 st = (st, Some ErrMaxStepsReached)"
| "run_steps a env (Suc n) st =
     (case run_step a env st of
        (st', Some r) \<Rightarrow> (st', r)
      | (st', None) \<Rightarrow> run_steps a env n st')"

definition max_steps :: "'w agent \<Rightarrow> nat" where
  "max_steps a = nat (if agMaxSteps a \<le> 0 then DefaultMaxSteps else agMaxSteps a)"

definition user_message :: "string \<Rightarrow> message" where
  "user_message input = message_zero\<lparr>msgRole := RoleUser, msgContent := input\<rparr>"

definition Run ::
  "'w agent \<Rightarrow> run_env \<Rightarrow> session \<Rightarrow> string \<Rightarrow> 'w \<Rightarrow> 'w run_state \<times> go_error option" where
  "Run a env sess userInput w =
     (let st0 = \<lparr>rsWorld = w, rsSess = sess, rsOut = [], rsBatch = 0\<rparr>
      in case saveSession a (append_messages [user_message userInput] st0) of
           (st1, Some e) \<Rightarrow> (st1, Some (Wrapf ''save session (pre-turn)'' e))
         | (st1, None) \<Rightarrow> run_steps a env (max_steps a) st1)"

section \<open>A batch of tools\<close>

lemma execOne_key [simp]:
  "execOne a env c w = (w', r) \<Longrightarrow> trID r = tcID c \<and> trName r = tcName c"
  by (auto simp: execOne_def Let_def split: option.splits if_splits prod.splits tool_outcome.splits)

lemma exec_steps_length:
  "exec_steps a env calls ss (w, out) = ((w', out'), evs) \<Longrightarrow> length out' = length out"
  by (induction a env calls ss "(w, out)" arbitrary: w out evs rule: exec_steps.induct)
    (auto split: prod.splits)

lemma exec_steps_other:
  "exec_steps a env calls ss (w, out) = ((w', out'), evs) \<Longrightarrow> i \<notin> set (runs_of ss) \<Longrightarrow> out' ! i = out ! i"
  by (induction a env calls ss "(w, out)" arbitrary: w out evs rule: exec_steps.induct)
    (fastforce split: prod.splits)+

lemma exec_steps_keys:
  "exec_steps a env calls ss (w, out) = ((w', out'), evs) \<Longrightarrow> i < length out \<Longrightarrow>
   i \<in> set (runs_of ss) \<or> trID (out ! i) = tcID (calls ! i) \<and> trName (out ! i) = tcName (calls ! i) \<Longrightarrow>
   trID (out' ! i) = tcID (calls ! i) \<and> trName (out' ! i) = tcName (calls ! i)"
proof (induction ss arbitrary: w out evs)
  case (Cons s ss)
  show ?case
  proof (cases s)
    case (RunTool j)
    obtain w1 r where r: "execOne a env (calls ! j) w = (w1, r)" by fastforce
    have "i \<in> set (runs_of ss) \<or> trID (out[j := r] ! i) = tcID (calls ! i) \<and> trName (out[j := r] ! i) = tcName (calls ! i)"
      using Cons.prems RunTool execOne_key [OF r] by (cases "i = j") auto
    with Cons.IH [of w1 "out[j := r]" evs] Cons.prems RunTool r show ?thesis by simp
  next
    case (EmitEnd j ms)
    with Cons.prems obtain evs1 where "exec_steps a env calls ss (w, out) = ((w', out'), evs1)"
      by (auto split: prod.splits)
    with Cons.IH Cons.prems EmitEnd show ?thesis by simp
  qed
qed simp

text \<open>Every end event shows the final result of its call, whatever the interleaving.\<close>

definition strip_elapsed :: "stream_event \<Rightarrow> stream_event" where
  "strip_elapsed e = e\<lparr>evStopReason := []\<rparr>"

definition end_mark :: "tool_call \<Rightarrow> tool_result \<Rightarrow> stream_event" where
  "end_mark c r =
     (event EventToolCallEnd)\<lparr>evToolCallID := tcID c, evToolName := tcName c,
        evText := (if trIsError r then ''error: '' @ truncate_str (trContent r) 80 else ''success'')\<rparr>"

lemma strip_end_event [simp]: "strip_elapsed (end_event c r ms) = end_mark c r"
  by (simp add: strip_elapsed_def end_event_def end_mark_def event_def)

lemma exec_steps_events:
  "exec_steps a env calls ss (w, out) = ((w', out'), evs) \<Longrightarrow> ends_after_runs started ss \<Longrightarrow>
   distinct (runs_of ss) \<Longrightarrow> set started \<inter> set (runs_of ss) = {} \<Longrightarrow>
   map strip_elapsed evs = map (\<lambda>i. end_mark (calls ! i) (out' ! i)) (ends_of ss)"
proof (induction ss arbitrary: w out evs started)
  case (Cons s ss)
  show ?case
  proof (cases s)
    case (RunTool j)
    obtain w1 r where r: "execOne a env (calls ! j) w = (w1, r)" by fastforce
    with Cons.IH [of w1 "out[j := r]" evs "j # started"] Cons.prems RunTool show ?thesis by auto
  next
    case (EmitEnd j ms)
    with Cons.prems obtain evs1 where e: "exec_steps a env calls ss (w, out) = ((w', out'), evs1)"
      "evs = end_event (calls ! j) (out ! j) ms # evs1"
      by (auto split: prod.splits)
    have "out' ! j = out ! j"
      using exec_steps_other [OF e(1), of j] Cons.prems EmitEnd by auto
    with Cons.IH [OF e(1), of started] Cons.prems EmitEnd e(2) show ?thesis by simp
  qed
qed simp

lemma valid_sched_sets:
  "valid_sched n ss \<Longrightarrow> distinct (runs_of ss) \<and> set (runs_of ss) = {0..<n} \<and> distinct (ends_of ss) \<and> set (ends_of ss) = {0..<n}"
  using mset_eq_imp_distinct_iff [of "runs_of ss" "[0..<n]"] mset_eq_imp_distinct_iff [of "ends_of ss" "[0..<n]"]
    mset_eq_setD [of "runs_of ss" "[0..<n]"] mset_eq_setD [of "ends_of ss" "[0..<n]"]
  by (simp add: valid_sched_def)

lemma execTools_spec:
  assumes "execTools a env sched calls w = (w', out, evs)" "valid_sched (length calls) sched"
  shows "map trID out = map tcID calls \<and> map trName out = map tcName calls \<and>
    mset (map strip_elapsed evs) = mset (map (\<lambda>(c, r). end_mark c r) (zip calls out))"
proof -
  let ?n = "length calls"
  have x: "exec_steps a env calls sched (w, replicate ?n tool_result_zero) = ((w', out), evs)"
    using assms(1) by (auto simp: execTools_def split: prod.splits)
  note v = valid_sched_sets [OF assms(2)]
  have len: "length out = ?n" using exec_steps_length [OF x] by simp
  have key: "trID (out ! i) = tcID (calls ! i) \<and> trName (out ! i) = tcName (calls ! i)" if "i < ?n" for i
    using exec_steps_keys [OF x, of i] v that by auto
  have "map strip_elapsed evs = map (\<lambda>i. end_mark (calls ! i) (out ! i)) (ends_of sched)"
    using exec_steps_events [OF x, of "[]"] assms(2) v by (simp add: valid_sched_def)
  then have "mset (map strip_elapsed evs) = image_mset (\<lambda>i. end_mark (calls ! i) (out ! i)) (mset [0..<?n])"
    using assms(2) by (simp add: valid_sched_def)
  also have "\<dots> = mset (map (\<lambda>i. end_mark (calls ! i) (out ! i)) [0..<?n])" by simp
  also have "map (\<lambda>i. end_mark (calls ! i) (out ! i)) [0..<?n]
      = map (\<lambda>(c, r). end_mark c r) (zip calls out)"
    using len by (intro nth_equalityI) simp_all
  finally have "mset (map strip_elapsed evs) = mset (map (\<lambda>(c, r). end_mark c r) (zip calls out))" .
  moreover have "map trID out = map tcID calls" using len key by (intro nth_equalityI) simp_all
  moreover have "map trName out = map tcName calls" using len key by (intro nth_equalityI) simp_all
  ultimately show ?thesis by blast
qed

lemma execTools_length:
  "execTools a env sched calls w = (w', out, evs) \<Longrightarrow> length out = length calls"
  by (auto simp: execTools_def split: prod.splits dest: exec_steps_length)

lemma exec_steps_pure:
  "exec_steps a env calls ss (w, out) = ((w', out'), evs) \<Longrightarrow>
   (\<And>c w. c \<in> set calls \<Longrightarrow> snd (execOne a env c w) = f c) \<Longrightarrow> set (runs_of ss) \<subseteq> {0..<length calls} \<Longrightarrow>
   i < length out \<Longrightarrow> i \<in> set (runs_of ss) \<or> out ! i = f (calls ! i) \<Longrightarrow> out' ! i = f (calls ! i)"
proof (induction ss arbitrary: w out evs)
  case (Cons s ss)
  show ?case
  proof (cases s)
    case (RunTool j)
    obtain w1 r where r: "execOne a env (calls ! j) w = (w1, r)" by fastforce
    have "j < length calls" using Cons.prems RunTool by simp
    with Cons.prems(2) [of "calls ! j" w] r have "r = f (calls ! j)" by simp
    with Cons.IH [of w1 "out[j := r]" evs] Cons.prems RunTool r show ?thesis
      by (cases "i = j") auto
  next
    case (EmitEnd j ms)
    with Cons.prems obtain evs1 where "exec_steps a env calls ss (w, out) = ((w', out'), evs1)"
      by (auto split: prod.splits)
    with Cons.IH Cons.prems EmitEnd show ?thesis by simp
  qed
qed simp

lemma execTools_pure:
  assumes "execTools a env sched calls w = (w', out, evs)" "valid_sched (length calls) sched"
    "\<And>c w. c \<in> set calls \<Longrightarrow> snd (execOne a env c w) = f c"
  shows "out = map f calls"
proof -
  have x: "exec_steps a env calls sched (w, replicate (length calls) tool_result_zero) = ((w', out), evs)"
    using assms(1) by (auto simp: execTools_def split: prod.splits)
  have "out ! i = f (calls ! i)" if "i < length calls" for i
    using exec_steps_pure [OF x assms(3), of i] valid_sched_sets [OF assms(2)] that by auto
  then show ?thesis using exec_steps_length [OF x] by (auto intro: nth_equalityI)
qed

text \<open>Running the calls one after the other is one of the schedules.\<close>

lemma seq_sched_Suc: "seq_sched (Suc n) = seq_sched n @ [RunTool n, EmitEnd n 0]"
  by (simp add: seq_sched_def)

lemma runs_of_append [simp]: "runs_of (xs @ ys) = runs_of xs @ runs_of ys"
  by (induction xs rule: runs_of.induct) auto

lemma ends_of_append [simp]: "ends_of (xs @ ys) = ends_of xs @ ends_of ys"
  by (induction xs rule: ends_of.induct) auto

lemma ends_after_runs_append:
  "ends_after_runs st (xs @ ys) \<longleftrightarrow> ends_after_runs st xs \<and> ends_after_runs (rev (runs_of xs) @ st) ys"
  by (induction st xs rule: ends_after_runs.induct) auto

lemma valid_seq_sched: "valid_sched n (seq_sched n)"
  by (induction n) (auto simp: valid_sched_def seq_sched_Suc ends_after_runs_append, simp_all add: seq_sched_def)

section \<open>Steps of a turn\<close>

abbreviation msgs :: "'w run_state \<Rightarrow> message list" where
  "msgs st \<equiv> sessMessages (rsSess st)"

definition valid_env :: "run_env \<Rightarrow> bool" where
  "valid_env env \<longleftrightarrow> (\<forall>b n. valid_sched n (reSched env b n))"

lemma saveSession_out:
  "saveSession a st = (st', e) \<Longrightarrow> rsOut st' = rsOut st \<and> rsBatch st' = rsBatch st"
  by (auto simp: saveSession_def split: option.splits prod.splits)

definition final_message :: "turn \<Rightarrow> message" where
  "final_message tn = (tnAsst tn)\<lparr>msgThinking := tnThinking tn, msgContent := tnText tn,
     msgToolCalls := msgToolCalls (tnAsst tn) @ collect_calls tn\<rparr>"

lemma final_message_sel [simp]:
  "msgRole (final_message tn) = msgRole (tnAsst tn)"
  "msgContent (final_message tn) = tnText tn"
  by (simp_all add: final_message_def)

lemma msgs_append [simp]: "msgs (append_messages ms st) = msgs st @ ms"
  by (simp add: append_messages_def)

lemma rs_emit [simp]:
  "msgs (emit ev st) = msgs st" "rsOut (emit ev st) = rsOut st @ [ev]" "rsWorld (emit ev st) = rsWorld st"
  "rsSess (emit ev st) = rsSess st"
  by (simp_all add: emit_def)

lemma rs_append [simp]:
  "rsOut (append_messages ms st) = rsOut st" "rsWorld (append_messages ms st) = rsWorld st"
  by (simp_all add: append_messages_def)

section \<open>Provider calls\<close>

text \<open>
  A measure of the world that only the provider moves: the store and the tools leave it, a call of
  the provider raises it by one.
\<close>

definition counts_calls :: "'w agent \<Rightarrow> ('w \<Rightarrow> nat) \<Rightarrow> bool" where
  "counts_calls a cnt \<longleftrightarrow>
     (\<forall>req w. cnt (fst (provStream (agProvider a) req w)) = Suc (cnt w)) \<and>
     (\<forall>save k s w. agStore a = Some save \<longrightarrow> cnt (fst (save k s w)) = cnt w) \<and>
     (\<forall>n t caller args w. tool_Get (agRegistry a) n = Some t \<longrightarrow> cnt (fst (tCall t caller args w)) = cnt w)"

lemma cnt_save:
  "counts_calls a cnt \<Longrightarrow> saveSession a st = (st', e) \<Longrightarrow> cnt (rsWorld st') = cnt (rsWorld st)"
  unfolding counts_calls_def saveSession_def
  by (cases "agStore a") (auto split: prod.splits, metis fst_conv)

lemma cnt_execOne:
  assumes "counts_calls a cnt" "execOne a env c w = (w', r)"
  shows "cnt w' = cnt w"
proof (cases "tool_Get (agRegistry a) (tcName c)")
  case None
  with assms(2) show ?thesis by (simp add: execOne_def)
next
  case (Some t)
  obtain w1 q where q: "tCall t (reCaller env) (tcArguments c) w = (w1, q)" by fastforce
  then have "cnt w1 = cnt w" using assms(1) Some unfolding counts_calls_def by (metis fst_conv)
  with assms(2) Some q show ?thesis
    by (cases q) (auto simp: execOne_def Let_def split: if_splits)
qed

lemma cnt_exec_steps:
  "exec_steps a env calls ss (w, out) = ((w', out'), evs) \<Longrightarrow> counts_calls a cnt \<Longrightarrow> cnt w' = cnt w"
proof (induction ss arbitrary: w out evs)
  case (Cons s ss)
  show ?case
  proof (cases s)
    case (RunTool j)
    obtain w1 r where r: "execOne a env (calls ! j) w = (w1, r)" by fastforce
    with Cons RunTool cnt_execOne [OF Cons.prems(2) r] show ?thesis by auto
  next
    case (EmitEnd j ms)
    with Cons show ?thesis by (auto split: prod.splits)
  qed
qed simp

lemma cnt_message_end:
  assumes "on_message_end a env ev st tn = (st', tn', r)" "counts_calls a cnt"
  shows "cnt (rsWorld st') = cnt (rsWorld st)"
proof -
  have x: "cnt w' = cnt w" if "execTools a env s cs w = (w', rs, evs)" for s cs w w' rs evs
    using that cnt_exec_steps [OF _ assms(2)] by (auto simp: execTools_def split: prod.splits)
  show ?thesis
    using assms(1)
    by (auto simp: on_message_end_def Let_def split: if_splits prod.splits option.splits
        dest!: cnt_save [OF assms(2)] x)
qed

lemma cnt_on_events:
  "on_events a env evs st tn = (st', tn', r) \<Longrightarrow> counts_calls a cnt \<Longrightarrow> cnt (rsWorld st') = cnt (rsWorld st)"
proof (induction evs arbitrary: st tn)
  case (Cons ev evs)
  obtain st1 tn1 r1 where e: "on_event a env ev st tn = (st1, tn1, r1)" by (metis prod_cases3)
  have "cnt (rsWorld st1) = cnt (rsWorld st)"
  proof (cases "evType ev = EventMessageEnd")
    case True
    with e cnt_message_end [OF _ Cons.prems(2)] show ?thesis by (simp add: on_event_def)
  next
    case False
    with e have "rsWorld st1 = rsWorld st"
      by (auto simp: on_event_def Let_def split: stream_event_type.splits option.splits if_splits prod.splits)
    then show ?thesis by simp
  qed
  with Cons e show ?case by (auto split: option.splits)
qed simp

lemma cnt_run_step:
  assumes "run_step a env st = (st', r)" "counts_calls a cnt"
  shows "cnt (rsWorld st') = Suc (cnt (rsWorld st))"
proof -
  let ?req = "buildRequest (rsSess st) (agRegistry a) (agPreamble a) (agThinking a) (rsWorld st)"
  obtain w1 q where p: "provStream (agProvider a) ?req (rsWorld st) = (w1, q)" by fastforce
  have w1: "cnt w1 = Suc (cnt (rsWorld st))" using assms(2) p unfolding counts_calls_def by (metis fst_conv)
  show ?thesis
  proof (cases q)
    case (Inl e)
    with assms(1) p w1 show ?thesis by (auto simp: run_step_def Let_def)
  next
    case (Inr evs)
    obtain st1 tn1 r1 where e: "on_events a env evs (st\<lparr>rsWorld := w1\<rparr>) turn_init = (st1, tn1, r1)"
      by (metis prod_cases3)
    with assms(1) p Inr have "st' = st1" by (auto simp: run_step_def Let_def split: option.splits if_splits)
    with cnt_on_events [OF e assms(2)] w1 show ?thesis by simp
  qed
qed

lemma cnt_run_steps:
  "run_steps a env n st = (st', r) \<Longrightarrow> counts_calls a cnt \<Longrightarrow>
   cnt (rsWorld st') \<le> cnt (rsWorld st) + n"
proof (induction n arbitrary: st)
  case (Suc n)
  obtain st1 r1 where s: "run_step a env st = (st1, r1)" by fastforce
  from cnt_run_step [OF s Suc.prems(2)] Suc.IH [of st1] Suc.prems s show ?case
    by (cases r1) auto
qed simp

section \<open>Arguments\<close>

text \<open>No collected argument text exceeds the cap.\<close>

definition args_ok :: "turn \<Rightarrow> bool" where
  "args_ok tn \<longleftrightarrow> (\<forall>(i, pc) \<in> set (tnPartials tn). length (pcArgs pc) \<le> MaxArgumentsLen)"

lemma args_ok_update:
  "args_ok tn \<Longrightarrow> length (pcArgs pc) \<le> MaxArgumentsLen \<Longrightarrow> args_ok (tn\<lparr>tnPartials := AList.update i pc (tnPartials tn), tnOrder := os\<rparr>)"
  by (auto simp: args_ok_def dest!: set_update_cases)

lemma args_ok_update2:
  "args_ok tn \<Longrightarrow> length (pcArgs pc) \<le> MaxArgumentsLen \<Longrightarrow> args_ok (tn\<lparr>tnPartials := AList.update i pc (tnPartials tn)\<rparr>)"
  by (auto simp: args_ok_def dest!: set_update_cases)

lemma args_ok_cong: "tnPartials tn' = tnPartials tn \<Longrightarrow> args_ok tn' = args_ok tn"
  by (simp add: args_ok_def)

lemma on_event_partials:
  "on_event a env ev st tn = (st', tn', r) \<Longrightarrow> evType ev \<noteq> EventToolCallStart \<Longrightarrow> evType ev \<noteq> EventToolCallArgs \<Longrightarrow>
   tnPartials tn' = tnPartials tn"
  by (auto simp: on_event_def on_message_end_def Let_def
      split: stream_event_type.splits option.splits if_splits prod.splits)

lemma on_event_args:
  assumes "on_event a env ev st tn = (st', tn', r)" "args_ok tn"
  shows "args_ok tn'"
proof -
  consider "evType ev = EventToolCallStart" | "evType ev = EventToolCallArgs"
    | "evType ev \<noteq> EventToolCallStart" "evType ev \<noteq> EventToolCallArgs" by blast
  then show ?thesis
  proof cases
    case 1
    with assms show ?thesis by (auto simp: on_event_def intro!: args_ok_update split: if_splits)
  next
    case 2
    define q where "q = (case map_of (tnPartials tn) (evToolCallID ev) of
                Some pc \<Rightarrow> (pc, tn)
              | None \<Rightarrow>
                  (let pc = \<lparr>pcName = evToolName ev, pcArgs = []\<rparr>
                   in (pc, tn\<lparr>tnPartials := AList.update (evToolCallID ev) pc (tnPartials tn),
                              tnOrder := tnOrder tn @ [evToolCallID ev]\<rparr>)))"
    have "args_ok (snd q)"
      using assms(2) by (auto simp: q_def Let_def intro!: args_ok_update split: option.splits)
    moreover have "tn' = snd q \<or> length (pcArgs (fst q)) + length (evArgsDelta ev) \<le> MaxArgumentsLen \<and>
        tn' = (snd q)\<lparr>tnPartials := AList.update (evToolCallID ev) ((fst q)\<lparr>pcArgs := pcArgs (fst q) @ evArgsDelta ev\<rparr>)
            (tnPartials (snd q))\<rparr>"
      using assms(1) 2 by (auto simp: on_event_def q_def [symmetric] Let_def split: prod.splits if_splits)
    ultimately show ?thesis by (auto intro!: args_ok_update2)
  next
    case 3
    from on_event_partials [OF assms(1) 3] assms(2) show ?thesis by (simp cong: args_ok_cong)
  qed
qed

section \<open>Properties\<close>

text \<open>A provider that calls a tool once and then answers, on a world that counts its calls.\<close>

definition demo_events :: "nat \<Rightarrow> stream_event list" where
  "demo_events n =
     (if n = 0 then [(event EventToolCallStart)\<lparr>evToolCallID := ''c1'', evToolName := ''t''\<rparr>, event EventMessageEnd]
      else [(event EventTextDelta)\<lparr>evText := ''done''\<rparr>, event EventMessageEnd])"

definition demo_agent :: "nat agent" where
  "demo_agent = NewAgent \<lparr>provName = ''p'', provStream = (\<lambda>req w. (w + 1, Inr (demo_events w)))\<rparr>
     [(''t'', (demo_tool ''t'' SourceBuiltin)\<lparr>tCall := (\<lambda>caller args w. (w, ToolOk ''ok''))\<rparr>)] None"

definition demo_env :: run_env where
  "demo_env = \<lparr>reCaller = ''u1'', reQuote = (\<lambda>s. s), reJsonErr = (\<lambda>s. s), reSched = (\<lambda>b n. seq_sched n)\<rparr>"

lemma demo_env_valid: "valid_env demo_env"
  by (simp add: valid_env_def demo_env_def valid_seq_sched)

text \<open>C4 Whatever the interleaving of a batch, the results come back one per call and in the order of
  the calls, and exactly one end event is emitted per call, showing the final result of that call.\<close>
theorem execTools_any_schedule:
  assumes "execTools a env sched calls w = (w', out, evs)" "valid_sched (length calls) sched"
  shows "map trID out = map tcID calls \<and> map trName out = map tcName calls \<and>
    mset (map strip_elapsed evs) = mset (map (\<lambda>(c, r). end_mark c r) (zip calls out))"
  using execTools_spec [OF assms] .

theorem execTools_any_schedule_witness:
  "map trID (fst (snd (execTools demo_agent demo_env [RunTool 1, RunTool 0, EmitEnd 0 5, EmitEnd 1 7]
     [\<lparr>tcID = ''c1'', tcName = ''t'', tcArguments = []\<rparr>, \<lparr>tcID = ''c2'', tcName = ''x'', tcArguments = []\<rparr>] 0)))
   = [''c1'', ''c2'']"
proof -
  let ?cs = "[\<lparr>tcID = ''c1'', tcName = ''t'', tcArguments = []\<rparr>, \<lparr>tcID = ''c2'', tcName = ''x'', tcArguments = []\<rparr>]"
  obtain w' out evs where x: "execTools demo_agent demo_env [RunTool 1, RunTool 0, EmitEnd 0 5, EmitEnd 1 7] ?cs 0
      = (w', out, evs)" by (metis prod_cases3)
  have "valid_sched (length ?cs) [RunTool 1, RunTool 0, EmitEnd 0 5, EmitEnd 1 7]"
    by (simp add: valid_sched_def upt_rec numeral_2_eq_2)
  from execTools_any_schedule [OF x this] x show ?thesis by simp
qed

text \<open>C31 When the outcome of each call does not depend on the others, the results are the same for every
  interleaving: the model sees a deterministic transcript.\<close>
theorem execTools_deterministic:
  assumes "execTools a env s1 calls w1 = (w1', out1, evs1)" "valid_sched (length calls) s1"
    and "execTools a env s2 calls w2 = (w2', out2, evs2)" "valid_sched (length calls) s2"
    and "\<And>c w. c \<in> set calls \<Longrightarrow> snd (execOne a env c w) = f c"
  shows "out1 = map f calls \<and> out2 = out1"
  using execTools_pure [OF assms(1,2,5)] execTools_pure [OF assms(3,4,5)] by simp

theorem execTools_deterministic_witness:
  "fst (snd (execTools demo_agent demo_env [RunTool 1, RunTool 0, EmitEnd 0 5, EmitEnd 1 7]
     [\<lparr>tcID = ''c1'', tcName = ''x'', tcArguments = []\<rparr>, \<lparr>tcID = ''c2'', tcName = ''x'', tcArguments = []\<rparr>] 0)) =
   fst (snd (execTools demo_agent demo_env (seq_sched 2)
     [\<lparr>tcID = ''c1'', tcName = ''x'', tcArguments = []\<rparr>, \<lparr>tcID = ''c2'', tcName = ''x'', tcArguments = []\<rparr>] 9))"
proof -
  let ?cs = "[\<lparr>tcID = ''c1'', tcName = ''x'', tcArguments = []\<rparr>, \<lparr>tcID = ''c2'', tcName = ''x'', tcArguments = []\<rparr>]"
  let ?f = "\<lambda>c. \<lparr>trID = tcID c, trName = tcName c, trContent = ''unknown tool '' @ tcName c, trIsError = True\<rparr>"
  obtain w1 o1 e1 where x1: "execTools demo_agent demo_env [RunTool 1, RunTool 0, EmitEnd 0 5, EmitEnd 1 7] ?cs 0
      = (w1, o1, e1)" by (metis prod_cases3)
  obtain w2 o2 e2 where x2: "execTools demo_agent demo_env (seq_sched 2) ?cs 9 = (w2, o2, e2)" by (metis prod_cases3)
  have v1: "valid_sched (length ?cs) [RunTool 1, RunTool 0, EmitEnd 0 5, EmitEnd 1 7]"
    by (simp add: valid_sched_def upt_rec numeral_2_eq_2)
  have v2: "valid_sched (length ?cs) (seq_sched 2)" using valid_seq_sched [of 2] by (simp add: numeral_2_eq_2)
  have "snd (execOne demo_agent demo_env c w) = ?f c" if "c \<in> set ?cs" for c w
    using that by (auto simp: execOne_def demo_agent_def NewAgent_def tool_Get_def demo_env_def tool_result_zero_def)
  from execTools_deterministic [OF x1 v1 x2 v2 this] x1 x2 show ?thesis by simp
qed

text \<open>Running one tool never fails the turn: an unknown tool, arguments that are not JSON, an error,
  a user error and a panic each become an error result for the model, and the tool is not even
  called in the first two cases.\<close>
theorem execOne_outcome:
  "execOne a env c w =
     (case tool_Get (agRegistry a) (tcName c) of
        None \<Rightarrow> (w, \<lparr>trID = tcID c, trName = tcName c, trContent = ''unknown tool '' @ reQuote env (tcName c), trIsError = True\<rparr>)
      | Some t \<Rightarrow>
         if tcArguments c = [] \<or> json_valid (tcArguments c) then
           (fst (tCall t (reCaller env) (tcArguments c) w),
            case snd (tCall t (reCaller env) (tcArguments c) w) of
              ToolOk s \<Rightarrow> \<lparr>trID = tcID c, trName = tcName c, trContent = s, trIsError = False\<rparr>
            | ToolErr (SimpleUserError m) \<Rightarrow> \<lparr>trID = tcID c, trName = tcName c, trContent = m, trIsError = True\<rparr>
            | ToolErr e \<Rightarrow> \<lparr>trID = tcID c, trName = tcName c, trContent = ''tool error: '' @ Error e, trIsError = True\<rparr>
            | ToolPanic p \<Rightarrow> \<lparr>trID = tcID c, trName = tcName c, trContent = ''internal error: '' @ p, trIsError = True\<rparr>)
         else (w, \<lparr>trID = tcID c, trName = tcName c,
                   trContent = ''invalid JSON arguments from model: '' @ reJsonErr env (tcArguments c), trIsError = True\<rparr>))"
proof (cases "tool_Get (agRegistry a) (tcName c)")
  case None
  then show ?thesis by (simp add: execOne_def tool_result_zero_def)
next
  case (Some t)
  show ?thesis
  proof (cases "tcArguments c = [] \<or> json_valid (tcArguments c)")
    case True
    obtain w' q where q: "tCall t (reCaller env) (tcArguments c) w = (w', q)" by fastforce
    show ?thesis
    proof (cases q)
      case (ToolErr e)
      with Some True q show ?thesis
        by (cases e) (auto simp: execOne_def tool_result_zero_def Let_def)
    qed (use Some True q in \<open>auto simp: execOne_def tool_result_zero_def Let_def\<close>)
  next
    case False
    with Some show ?thesis by (simp add: execOne_def tool_result_zero_def)
  qed
qed

text \<open>C18 A turn calls the provider at most as often as its step limit allows (12 times by default).\<close>
theorem run_calls_bounded:
  assumes "Run a env sess input w = (st, r)" "counts_calls a cnt"
  shows "cnt (rsWorld st) \<le> cnt w + (if agMaxSteps a \<le> 0 then 12 else nat (agMaxSteps a))"
proof -
  let ?st0 = "append_messages [user_message input] \<lparr>rsWorld = w, rsSess = sess, rsOut = [], rsBatch = 0\<rparr>"
  obtain st1 e where s: "saveSession a ?st0 = (st1, e)" by fastforce
  have "cnt (rsWorld st1) = cnt w" using cnt_save [OF assms(2) s] by simp
  moreover have "cnt (rsWorld st) \<le> cnt (rsWorld st1) + max_steps a"
    using assms(1) s cnt_run_steps [OF _ assms(2), of env "max_steps a" st1 st]
    by (cases e) (auto simp: Run_def)
  ultimately show ?thesis by (simp add: max_steps_def DefaultMaxSteps_def split: if_splits)
qed

theorem run_calls_bounded_witness:
  "rsWorld (fst (Run demo_agent demo_env session_zero ''hi'' 3)) \<le> 15"
proof -
  have "counts_calls demo_agent (\<lambda>w. w)"
    by (auto simp: counts_calls_def demo_agent_def NewAgent_def tool_Get_def split: if_splits)
  from run_calls_bounded [OF _ this, of demo_env session_zero "''hi''" 3] show ?thesis
    by (cases "Run demo_agent demo_env session_zero ''hi'' 3")
      (auto simp: demo_agent_def NewAgent_def DefaultMaxSteps_def)
qed

text \<open>C32 The arguments collected for a call never exceed 102400 bytes: an event that would push them over
  emits one error event and ends the turn with an error.\<close>
theorem args_capped:
  assumes "on_events a env evs st turn_init = (st', tn, r)"
  shows "(\<forall>tc \<in> set (collect_calls tn). length (tcArguments tc) \<le> 102400) \<and>
    (evType ev = EventToolCallArgs \<and>
       102400 < length (pcArgs (partial_of tn (evToolCallID ev))) + length (evArgsDelta ev) \<longrightarrow>
     (\<exists>tn'. on_event a env ev st' tn =
        (emit ((event EventError)\<lparr>evErr := Some (Errorf ''tool arguments too large'')\<rparr>) st', tn',
         Some (Some (Errorf ''tool arguments exceeded cap'')))))"
proof -
  have "args_ok tn0 \<Longrightarrow> on_events a env evs st tn0 = (st', tn, r) \<Longrightarrow> args_ok tn" for tn0
  proof (induction evs arbitrary: st tn0)
    case (Cons e evs)
    obtain st1 tn1 r1 where "on_event a env e st tn0 = (st1, tn1, r1)" by (metis prod_cases3)
    with Cons on_event_args [OF this] show ?case by (cases r1) auto
  qed simp
  moreover have "args_ok turn_init" by (simp add: args_ok_def turn_init_def)
  ultimately have ok: "args_ok tn" using assms by blast
  then have "length (pcArgs (partial_of tn i)) \<le> 102400" for i
    by (auto simp: args_ok_def partial_of_def MaxArgumentsLen_def split: option.splits dest!: map_of_SomeD)
  then show ?thesis
    by (auto simp: collect_calls_def on_event_def partial_of_def MaxArgumentsLen_def Let_def split: option.splits)
qed

theorem args_capped_witness:
  "length (tcArguments (hd (collect_calls (fst (snd (on_events demo_agent demo_env
      [(event EventToolCallArgs)\<lparr>evToolCallID := ''c'', evArgsDelta := ''{}''\<rparr>]
      \<lparr>rsWorld = 0, rsSess = session_zero, rsOut = [], rsBatch = 0\<rparr> turn_init)))))) \<le> 102400"
proof -
  let ?st = "\<lparr>rsWorld = 0, rsSess = session_zero, rsOut = [], rsBatch = 0\<rparr> :: nat run_state"
  let ?ev = "(event EventToolCallArgs)\<lparr>evToolCallID := ''c'', evArgsDelta := ''{}''\<rparr>"
  obtain st tn r where x: "on_events demo_agent demo_env [?ev] ?st turn_init = (st, tn, r)" by (metis prod_cases3)
  then have "tnOrder tn = [''c'']"
    by (clarsimp simp: on_event_def turn_init_def MaxArgumentsLen_def Let_def)
  then have "collect_calls tn \<noteq> []" by (simp add: collect_calls_def)
  with args_capped [OF x] x show ?thesis by simp
qed

lemma on_event_quiet:
  "on_event a env ev st tn = (st', tn', r) \<Longrightarrow> evType ev \<noteq> EventMessageEnd \<Longrightarrow> evType ev \<noteq> EventError \<Longrightarrow>
   tnAsst tn' = tnAsst tn \<and> (r = None \<or> r = Some (Some (Errorf ''tool arguments exceeded cap'')))"
  by (auto simp: on_event_def Let_def split: stream_event_type.splits option.splits if_splits prod.splits)

lemma on_events_quiet:
  "on_events a env evs st tn = (st', tn', r) \<Longrightarrow>
   filter is_terminator evs = [] \<Longrightarrow>
   tnAsst tn' = tnAsst tn \<and> (r = None \<or> r = Some (Some (Errorf ''tool arguments exceeded cap'')))"
proof (induction evs arbitrary: st tn)
  case (Cons e evs)
  obtain st1 tn1 r1 where e: "on_event a env e st tn = (st1, tn1, r1)" by (metis prod_cases3)
  have "evType e \<noteq> EventMessageEnd" "evType e \<noteq> EventError" and f: "filter is_terminator evs = []"
    using Cons.prems(2) by (simp_all split: if_splits) (simp_all add: is_terminator_def)
  note q = on_event_quiet [OF e this(1,2)]
  show ?case
  proof (cases r1)
    case None
    with Cons.IH [OF _ f, of st1 tn1] Cons.prems e q show ?thesis by auto
  qed (use Cons.prems e q in auto)
qed simp

lemma on_events_append:
  "on_events a env (xs @ ys) st tn =
     (case on_events a env xs st tn of
        (st', tn', Some r) \<Rightarrow> (st', tn', Some r)
      | (st', tn', None) \<Rightarrow> on_events a env ys st' tn')"
  by (induction xs arbitrary: st tn) (auto split: prod.splits option.splits)

lemma on_message_end_calls:
  assumes "on_message_end a env ev st tn = (st', tn', None)"
  shows "msgToolCalls (tnAsst tn') \<noteq> []"
  using assms by (auto simp: on_message_end_def Let_def split: if_splits prod.splits option.splits)

definition no_message_end :: go_error where
  "no_message_end = Errorf ''provider stream ended without message_end''"

text \<open>A stream that breaks off without a message end and without an error event ends the turn with
  an error, and nothing of it is kept: no message is added, no tool is run, the world is as the
  provider left it.\<close>
theorem broken_stream:
  assumes "provStream (agProvider a) (buildRequest (rsSess st) (agRegistry a) (agPreamble a) (agThinking a) (rsWorld st))
      (rsWorld st) = (w', Inr evs)"
    and "filter is_terminator evs = []"
  shows "\<exists>st' e. run_step a env st = (st', Some (Some e)) \<and> msgs st' = msgs st \<and> rsWorld st' = w' \<and>
    (e = no_message_end \<or> e = Errorf ''tool arguments exceeded cap'')"
proof -
  obtain st1 tn1 r1 where e: "on_events a env evs (st\<lparr>rsWorld := w'\<rparr>) turn_init = (st1, tn1, r1)"
    by (metis prod_cases3)
  have keep: "on_events a env evs s tn = (s', tn', r) \<Longrightarrow> filter is_terminator evs = [] \<Longrightarrow>
      rsSess s' = rsSess s \<and> rsWorld s' = rsWorld s" for s tn s' tn' r evs
  proof (induction evs arbitrary: s tn)
    case (Cons ev evs)
    obtain s1 tn1 r1 where x: "on_event a env ev s tn = (s1, tn1, r1)" by (metis prod_cases3)
    have "evType ev \<noteq> EventMessageEnd" and f: "filter is_terminator evs = []"
      using Cons.prems(2) by (simp_all split: if_splits) (simp_all add: is_terminator_def)
    with x have "rsSess s1 = rsSess s \<and> rsWorld s1 = rsWorld s"
      by (auto simp: on_event_def Let_def split: stream_event_type.splits option.splits if_splits prod.splits)
    with Cons.IH [OF _ f, of s1 tn1] Cons.prems x show ?case by (cases r1) auto
  qed simp
  from on_events_quiet [OF e assms(2)] keep [OF e assms(2)] assms(1) e show ?thesis
    by (auto simp: run_step_def Let_def turn_init_def message_zero_def no_message_end_def)
qed

theorem broken_stream_witness:
  "\<exists>st' e. run_step (demo_agent\<lparr>agProvider := \<lparr>provName = ''p'', provStream = (\<lambda>req w. (w, Inr [event EventTextDelta]))\<rparr>\<rparr>) demo_env
      \<lparr>rsWorld = 0, rsSess = session_zero, rsOut = [], rsBatch = 0\<rparr> = (st', Some (Some e)) \<and> msgs st' = []"
proof -
  let ?a = "demo_agent\<lparr>agProvider := \<lparr>provName = ''p'', provStream = (\<lambda>req w. (w, Inr [event EventTextDelta]))\<rparr>\<rparr>"
  let ?st = "\<lparr>rsWorld = 0, rsSess = session_zero, rsOut = [], rsBatch = 0\<rparr> :: nat run_state"
  have "filter is_terminator [event EventTextDelta] = []" by (simp add: is_terminator_def)
  from broken_stream [where a = ?a and st = ?st and w' = 0, OF _ this, of demo_env] show ?thesis
    by (auto simp: session_zero_def)
qed

text \<open>C33 With the model library's adapter as provider a step never ends for lack of a message end:
  its stream always brings the turn to an answer, to a batch of tools, or to the error it reports.\<close>
theorem adapter_stream_ends:
  assumes "on_events a env (translateStream ends cks fin) st turn_init = (st', tn, r)"
  shows "(r = None \<longrightarrow> fin = RecvEOF \<and> msgToolCalls (tnAsst tn) \<noteq> []) \<and>
    (\<forall>e. fin = RecvErr e \<longrightarrow> r = Some (Some e) \<or> r = Some (Some (Errorf ''tool arguments exceeded cap'')))"
proof -
  obtain evs t where t: "translateStream ends cks fin = evs @ [t]" "is_terminator t"
    "evType t = EventMessageEnd \<longleftrightarrow> fin = RecvEOF" "\<forall>e \<in> set evs. \<not> is_terminator e"
    using translate_loop_terminator [of ends translate_init cks fin] unfolding translateStream_def by blast
  have le: "t = (event EventError)\<lparr>evErr := Some e\<rparr>" if "fin = RecvErr e" for e
  proof -
    have "last (translate_loop ends s cks fin) = (event EventError)\<lparr>evErr := Some e\<rparr>
        \<and> translate_loop ends s cks fin \<noteq> []" for s
      using that by (induction ends s cks fin rule: translate_loop.induct) (auto split: prod.splits)
    then show ?thesis using t(1) unfolding translateStream_def by (metis last_snoc)
  qed
  have f: "filter is_terminator evs = []" using t(4) by (simp add: filter_empty_conv)
  obtain st1 tn1 r1 where e: "on_events a env evs st turn_init = (st1, tn1, r1)" by (metis prod_cases3)
  note q = on_events_quiet [OF e f]
  show ?thesis
  proof (cases r1)
    case (Some x)
    with assms t(1) e q show ?thesis by (auto simp: on_events_append)
  next
    case None
    obtain st2 tn2 r2 where e2: "on_event a env t st1 tn1 = (st2, tn2, r2)" by (metis prod_cases3)
    have res: "st' = st2 \<and> tn = tn2 \<and> r = r2"
      using assms t(1) e None e2 by (auto simp: on_events_append split: option.splits)
    show ?thesis
    proof (cases fin)
      case RecvEOF
      with t(3) e2 have "on_message_end a env t st1 tn1 = (st2, tn2, r2)" by (simp add: on_event_def)
      with res RecvEOF show ?thesis by (auto dest: on_message_end_calls)
    next
      case (RecvErr err)
      with e2 le [OF RecvErr] res show ?thesis by (auto simp: on_event_def)
    qed
  qed
qed

theorem adapter_stream_ends_witness:
  "snd (snd (on_events demo_agent demo_env (translateStream (\<lambda>m. m) [] (RecvErr (Errorf ''reset'')))
      \<lparr>rsWorld = 0, rsSess = session_zero, rsOut = [], rsBatch = 0\<rparr> turn_init)) \<noteq> None"
proof -
  let ?st = "\<lparr>rsWorld = 0, rsSess = session_zero, rsOut = [], rsBatch = 0\<rparr> :: nat run_state"
  obtain st tn r where x: "on_events demo_agent demo_env (translateStream (\<lambda>m. m) [] (RecvErr (Errorf ''reset''))) ?st turn_init
      = (st, tn, r)" by (metis prod_cases3)
  from adapter_stream_ends [OF x] x show ?thesis by auto
qed



section \<open>What the loop needs of a provider\<close>

text \<open>
  The contract of a provider's stream: exactly one terminator, and that last. The loop relies on it; its own
  guard against a stream without a message end is then never reached.
\<close>

definition ends_once :: "stream_event list \<Rightarrow> bool" where
  "ends_once evs \<longleftrightarrow> evs \<noteq> [] \<and> is_terminator (last evs) \<and> filter is_terminator (butlast evs) = []"

lemma on_event_role: "on_event a env ev st tn = (st', tn', r) \<Longrightarrow> msgRole (tnAsst tn') = msgRole (tnAsst tn)"
  by (auto simp: on_event_def on_message_end_def Let_def
      split: stream_event_type.splits option.splits if_splits prod.splits)

lemma on_events_role: "on_events a env evs st tn = (st', tn', r) \<Longrightarrow> msgRole (tnAsst tn') = msgRole (tnAsst tn)"
proof (induction evs arbitrary: st tn)
  case (Cons e evs)
  obtain st1 tn1 r1 where e: "on_event a env e st tn = (st1, tn1, r1)" by (metis prod_cases3)
  with Cons on_event_role [OF e] show ?case by (cases r1) auto
qed simp

locale terminated_provider =
  fixes prov :: "'w provider"
  assumes ends: "provStream prov req w = (w', Inr evs) \<Longrightarrow> ends_once evs"
begin

lemma stream_decides:
  assumes "provStream prov req w = (w', Inr evs)" "on_events a env evs st turn_init = (st', tn, None)"
  shows "msgToolCalls (tnAsst tn) \<noteq> []"
proof -
  from ends [OF assms(1)] obtain us t where t: "evs = us @ [t]" "is_terminator t" "filter is_terminator us = []"
    unfolding ends_once_def by (metis append_butlast_last_id)
  obtain st1 tn1 r1 where e: "on_events a env us st turn_init = (st1, tn1, r1)" by (metis prod_cases3)
  with assms(2) t(1) have n: "r1 = None" by (auto simp: on_events_append split: option.splits)
  with assms(2) t(1) e have e2: "on_event a env t st1 tn1 = (st', tn, None)"
    by (auto simp: on_events_append split: prod.splits option.splits)
  have "evType t = EventMessageEnd" using t(2) e2 by (auto simp: is_terminator_def on_event_def split: option.splits)
  with e2 have "on_message_end a env t st1 tn1 = (st', tn, None)" by (simp add: on_event_def)
  then show ?thesis by (rule on_message_end_calls)
qed

text \<open>A step is what the stream's events make of it: the error of the guard does not arise in it.\<close>

lemma step_is_its_events:
  assumes "agProvider a = prov" "run_step a env st = (st', res)"
    and "provStream prov (buildRequest (rsSess st) (agRegistry a) (agPreamble a) (agThinking a) (rsWorld st)) (rsWorld st)
      = (w', Inr evs)"
  shows "\<exists>tn. on_events a env evs (st\<lparr>rsWorld := w'\<rparr>) turn_init = (st', tn, res)"
proof -
  obtain st1 tn r where e: "on_events a env evs (st\<lparr>rsWorld := w'\<rparr>) turn_init = (st1, tn, r)" by (metis prod_cases3)
  show ?thesis
  proof (cases r)
    case None
    have "msgRole (tnAsst tn) = RoleAssistant"
      using on_events_role [OF e] by (simp add: turn_init_def)
    with stream_decides [OF assms(3) e [unfolded None]] None assms e show ?thesis
      by (auto simp: run_step_def Let_def RoleAssistant_def)
  next
    case (Some x)
    with assms e show ?thesis by (auto simp: run_step_def Let_def)
  qed
qed

end

end
