(* ===== verification/Markdown.thy ===== *)
theory Markdown
  imports Json
begin

text \<open>
  internal/render/markdown.go and markdown_ast.go: from Markdown to the subset a Feishu card shows.
  The Markdown parser is third-party: a parsed document is a tree of nodes, each with the fields
  the code reads, and the parser is a parameter, as is the table of \<open>html.UnescapeString\<close>.
\<close>

section \<open>Text clean-up (markdown.go)\<close>

text \<open>The regular expressions are written out as matchers; \<open>\s\<close> is one of five bytes.\<close>

definition re_space :: "char \<Rightarrow> bool" where
  "re_space c \<longleftrightarrow> c = CHR '' '' \<or> c = CHR 0x09 \<or> c = CHR 0x0A \<or> c = CHR 0x0C \<or> c = CHR 0x0D"

definition re_letter :: "char \<Rightarrow> bool" where
  "re_letter c \<longleftrightarrow> 65 \<le> byte c \<and> byte c \<le> 90 \<or> 97 \<le> byte c \<and> byte c \<le> 122"

text \<open>A matcher returns what is left after a match at the start.\<close>

definition match_break :: "string \<Rightarrow> string option" where
  "match_break s =
     (case s of
        a # b # r # t \<Rightarrow>
          if a = CHR ''<'' \<and> (b = CHR ''b'' \<or> b = CHR ''B'') \<and> (r = CHR ''r'' \<or> r = CHR ''R'') then
            (let u = dropWhile re_space t;
                 v = (case u of c # u' \<Rightarrow> if c = CHR ''/'' then u' else u | [] \<Rightarrow> [])
             in case v of c # rest \<Rightarrow> if c = CHR ''>'' then Some rest else None | [] \<Rightarrow> None)
          else None
      | _ \<Rightarrow> None)"

definition match_tag :: "string \<Rightarrow> string option" where
  "match_tag s =
     (case s of [] \<Rightarrow> None
      | a # t \<Rightarrow>
          if a \<noteq> CHR ''<'' then None
          else (let u = (case t of c # t' \<Rightarrow> if c = CHR ''/'' then t' else t | [] \<Rightarrow> [])
                in case u of [] \<Rightarrow> None
                   | c # r \<Rightarrow>
                       if re_letter c then
                         (case dropWhile (\<lambda>x. x \<noteq> CHR ''>'') r of [] \<Rightarrow> None | _ # rest \<Rightarrow> Some rest)
                       else None))"

text \<open>\<open>ReplaceAllString\<close>: leftmost matches, none overlapping; a match consumes at least a byte.\<close>

function replace_matches :: "(string \<Rightarrow> string option) \<Rightarrow> string \<Rightarrow> string \<Rightarrow> string" where
  "replace_matches mt new [] = []"
| "replace_matches mt new (c # s) =
     (case mt (c # s) of
        Some rest \<Rightarrow>
          if length rest < length (c # s) then new @ replace_matches mt new rest else c # replace_matches mt new s
      | None \<Rightarrow> c # replace_matches mt new s)"
  by pat_completeness auto
termination by (relation "measure (\<lambda>(mt, new, s). length s)") auto

definition match_blank_run :: "string \<Rightarrow> string option" where
  "match_blank_run s =
     (if HasPrefix s (NL @ NL @ NL) then Some (dropWhile (\<lambda>c. c = CHR 0x0A) s) else None)"

text \<open>\<open>headingLineRE\<close>: the submatch of a line, without the closing hashes.\<close>

definition heading_rest :: "string \<Rightarrow> string" where
  "heading_rest r =
     (let strip = (\<lambda>P s. rev (dropWhile P (rev s)));
          p = strip re_space (strip (\<lambda>c. c = CHR ''#'') (strip re_space r))
      in if p = [] then take 1 r else p)"

definition match_heading :: "string \<Rightarrow> string option" where
  "match_heading line =
     (let a = takeWhile re_space line; s = dropWhile re_space line;
          h = takeWhile (\<lambda>c. c = CHR ''#'') s; t = dropWhile (\<lambda>c. c = CHR ''#'') s;
          w = takeWhile re_space t; r = dropWhile re_space t
      in if length a \<le> 3 \<and> 1 \<le> length h \<and> length h \<le> 6 \<and> w \<noteq> [] then
           (if r \<noteq> [] then Some (heading_rest r)
            else if 2 \<le> length w then Some [last w] else None)
         else None)"

text \<open>\<open>mdTableSplitRE\<close>: at least two cells of dashes with optional colons.\<close>

definition strip_spaces :: "string \<Rightarrow> string" where
  "strip_spaces s = rev (dropWhile re_space (rev (dropWhile re_space s)))"

definition is_dash_cell :: "string \<Rightarrow> bool" where
  "is_dash_cell cell =
     (let s = strip_spaces cell;
          s1 = (case s of c # s' \<Rightarrow> if c = CHR '':'' then s' else s | [] \<Rightarrow> []);
          s2 = (case rev s1 of c # s' \<Rightarrow> if c = CHR '':'' then rev s' else s1 | [] \<Rightarrow> [])
      in s2 \<noteq> [] \<and> list_all (\<lambda>c. c = CHR ''-'') s2)"

definition match_table_split :: "string \<Rightarrow> bool" where
  "match_table_split line =
     (let s = strip_spaces line;
          s1 = (case s of c # s' \<Rightarrow> if c = CHR ''|'' then s' else s | [] \<Rightarrow> []);
          s2 = (case rev s1 of c # s' \<Rightarrow> if c = CHR ''|'' then rev s' else s1 | [] \<Rightarrow> []);
          cells = Split s2 ''|''
      in 2 \<le> length cells \<and> list_all is_dash_cell cells)"

text \<open>\<open>strings.NewReplacer\<close>: at each position the first pair whose old string is there.\<close>

fun find_pair :: "(string \<times> string) list \<Rightarrow> string \<Rightarrow> (string \<times> string) option" where
  "find_pair [] s = None"
| "find_pair ((old, new) # ps) s = (if HasPrefix s old then Some (old, new) else find_pair ps s)"

function replace_pairs :: "(string \<times> string) list \<Rightarrow> string \<Rightarrow> string" where
  "replace_pairs ps [] = []"
| "replace_pairs ps (c # s) =
     (case find_pair ps (c # s) of
        Some (old, new) \<Rightarrow>
          if old = [] then c # replace_pairs ps s
          else new @ replace_pairs ps (drop (length old) (c # s))
      | None \<Rightarrow> c # replace_pairs ps s)"
  by pat_completeness auto
termination by (relation "measure (\<lambda>(ps, s). length s)") auto

declare replace_matches.simps [simp del] replace_pairs.simps [simp del]

definition emoji_pairs :: "(string \<times> string) list" where
  "emoji_pairs =
     [(utf8 [0x2714, 0xFE0F], utf8 [0x2705]),
      (utf8 [0x2714], utf8 [0x2705]),
      (utf8 [0x2716, 0xFE0F], utf8 [0x274C]),
      (utf8 [0x2716], utf8 [0x274C]),
      (utf8 [0x2757], utf8 [0x26A0, 0xFE0F]),
      (utf8 [0x26A1], utf8 [0x1F4A1]),
      (utf8 [0x2728], utf8 [0x1F4A1]),
      (utf8 [0x1F449], utf8 [0x2022]),
      (utf8 [0x1F4CD], utf8 [0x1F4CC]),
      (utf8 [0x1F7E2], utf8 [0x2705]),
      (utf8 [0x1F534], utf8 [0x274C]),
      (utf8 [0x1F7E1], utf8 [0x26A0, 0xFE0F]),
      (utf8 [0x231B], utf8 [0x23F3])]"

definition normalizeCompatibleEmoji :: "string \<Rightarrow> string" where
  "normalizeCompatibleEmoji input = (if input = [] then [] else replace_pairs emoji_pairs input)"

definition normalizeNewlines :: "string \<Rightarrow> string" where
  "normalizeNewlines input = ReplaceAll (ReplaceAll input [CHR 0x0D, CHR 0x0A] NL) [CHR 0x0D] NL"

definition sanitizeHTMLText :: "(string \<Rightarrow> string) \<Rightarrow> string \<Rightarrow> string" where
  "sanitizeHTMLText unesc input = unesc (replace_matches match_tag [] (replace_matches match_break NL input))"

abbreviation blanks :: string where "blanks \<equiv> [CHR '' '', CHR 0x09]"

definition cleanupRenderedMarkdown :: "string \<Rightarrow> string" where
  "cleanupRenderedMarkdown input =
     (if input = [] then []
      else let joined = Join (map (\<lambda>l. TrimRight l blanks) (Split input NL)) NL
           in TrimSpace (replace_matches match_blank_run (NL @ NL) joined))"

definition fence :: string where "fence = replicate 3 (CHR 0x60)"

text \<open>One line of the line-based downgrader: the new state of \<open>inFence\<close> and the lines it appends.\<close>

definition fallback_line :: "bool \<Rightarrow> string \<Rightarrow> bool \<times> string list" where
  "fallback_line inFence line =
     (if HasPrefix (TrimSpace line) fence then (\<not> inFence, [line])
      else if inFence then (inFence, [line])
      else if match_table_split line then (inFence, [])
      else case match_heading line of
          Some m1 \<Rightarrow>
            (let t = TrimSpace m1
             in (inFence, [if t = [] then [] else ''**'' @ t @ ''**'']))
        | None \<Rightarrow> (inFence, [TrimRight line blanks]))"

fun fallback_lines :: "bool \<Rightarrow> string list \<Rightarrow> string list" where
  "fallback_lines inFence [] = []"
| "fallback_lines inFence (l # ls) =
     (let (f, out) = fallback_line inFence l in out @ fallback_lines f ls)"

definition normalizeLarkFallback :: "(string \<Rightarrow> string) \<Rightarrow> string \<Rightarrow> string" where
  "normalizeLarkFallback unesc input0 =
     (let input1 = normalizeNewlines input0
      in if input1 = [] then []
         else let input2 = normalizeNewlines (sanitizeHTMLText unesc input1)
              in cleanupRenderedMarkdown (Join (fallback_lines False (Split input2 NL)) NL))"

definition NormalizeLarkPreview :: "(string \<Rightarrow> string) \<Rightarrow> string \<Rightarrow> string" where
  "NormalizeLarkPreview unesc input = normalizeLarkFallback unesc input"

definition quoteMarkdownLines :: "string \<Rightarrow> string" where
  "quoteMarkdownLines s = (if s = [] then [] else ''> '' @ ReplaceAll s NL (NL @ ''> ''))"

definition normalizeInlineWhitespace :: "string \<Rightarrow> string" where
  "normalizeInlineWhitespace input = Join (Fields (TrimSpace input)) '' ''"

definition formatSectionHeading :: "string \<Rightarrow> string" where
  "formatSectionHeading text0 =
     (let t = normalizeInlineWhitespace text0
      in if t = [] then []
         else ''**'' @ utf8 [0x3010] @ normalizeCompatibleEmoji t @ utf8 [0x3011] @ ''**'')"

definition formatInlineCode :: "string \<Rightarrow> string" where
  "formatInlineCode text0 =
     (let t = TrimSpace text0
      in if t = [] then utf8 [0x300C, 0x300D]
         else utf8 [0x300C] @ ReplaceAll (ReplaceAll t (utf8 [0x300C]) ''['') (utf8 [0x300D]) '']'' @ utf8 [0x300D])"

definition listBullet :: "nat \<Rightarrow> string" where
  "listBullet depth =
     (if depth = 0 then utf8 [0x2022] @ '' '' else if depth = 1 then utf8 [0x25E6] @ '' '' else utf8 [0x25AA] @ '' '')"

section \<open>The document tree (markdown_ast.go)\<close>

text \<open>
  The node types of the parser the code distinguishes, with the fields it reads: \<open>NText\<close> its text and
  whether a line break follows, code blocks and HTML blocks the raw text of their lines, \<open>NOther\<close>
  (any other node type) its own text.
\<close>

datatype node_kind =
    NDocument | NParagraph | NHeading | NBlockquote | NFencedCodeBlock string string | NCodeBlock string
  | NHTMLBlock string | NList bool | NListItem | NTextBlock string | NThematicBreak
  | NTable | NTableHeader | NTableRow | NTableCell
  | NDefinitionList | NDefinitionTerm | NDefinitionDescription | NFootnoteList | NFootnote
  | NText string bool | NString string | NCodeSpan string | NEmphasis nat | NLink string
  | NAutoLink string string | NImage string | NRawHTML string | NStrikethrough | NTaskCheckBox bool
  | NOther string

datatype md_node = MdNode (kindOf: node_kind) (childrenOf: "md_node list")

text \<open>
  The text of a node of a kind the code only meets in a default case; the parser's \<open>Text\<close> method
  is only read for the kinds that carry it.
\<close>

fun own_text :: "node_kind \<Rightarrow> string" where
  "own_text (NOther t) = t"
| "own_text (NText t b) = t"
| "own_text (NString t) = t"
| "own_text (NCodeSpan t) = t"
| "own_text (NRawHTML t) = t"
| "own_text (NTextBlock t) = t"
| "own_text (NHTMLBlock t) = t"
| "own_text (NCodeBlock t) = t"
| "own_text (NFencedCodeBlock l t) = t"
| "own_text _ = []"

definition escapeLinkText :: "string \<Rightarrow> string" where
  "escapeLinkText input =
     replace_pairs [(''['', [BS] @ ''[''), ('']'', [BS] @ '']''), (''('', [BS] @ ''(''), ('')'', [BS] @ '')'')] input"

fun renderPlainInline :: "(string \<Rightarrow> string) \<Rightarrow> md_node \<Rightarrow> string" where
  "renderPlainInline unesc (MdNode k cs) =
     (let children = concat (map (renderPlainInline unesc) cs)
      in case k of
           NText t brk \<Rightarrow> t @ (if brk then '' '' else [])
         | NString t \<Rightarrow> t
         | NCodeSpan t \<Rightarrow> formatInlineCode (TrimSpace t)
         | NLink dest \<Rightarrow>
             (let inner = normalizeInlineWhitespace children
              in if inner \<noteq> [] then inner else TrimSpace dest)
         | NAutoLink label url \<Rightarrow> if TrimSpace label \<noteq> [] then TrimSpace label else TrimSpace url
         | NImage dest \<Rightarrow>
             (let alt = normalizeInlineWhitespace children
              in if alt \<noteq> [] then alt else TrimSpace dest)
         | NRawHTML t \<Rightarrow> sanitizeHTMLText unesc t
         | NTaskCheckBox checked \<Rightarrow> if checked then ''[x]'' else ''[ ]''
         | _ \<Rightarrow> if cs \<noteq> [] then children else sanitizeHTMLText unesc (own_text k))"

definition renderPlainInlineChildren :: "(string \<Rightarrow> string) \<Rightarrow> md_node list \<Rightarrow> string" where
  "renderPlainInlineChildren unesc cs = concat (map (renderPlainInline unesc) cs)"

fun renderInline :: "(string \<Rightarrow> string) \<Rightarrow> md_node \<Rightarrow> string" where
  "renderInline unesc (MdNode k cs) =
     (let children = concat (map (renderInline unesc) cs)
      in case k of
           NText t brk \<Rightarrow> t @ (if brk then NL else [])
         | NString t \<Rightarrow> t
         | NCodeSpan t \<Rightarrow> formatInlineCode (TrimSpace t)
         | NEmphasis level \<Rightarrow>
             (let marker = (if level = 2 then ''**'' else ''*'') in marker @ children @ marker)
         | NLink dest0 \<Rightarrow>
             (let inner = normalizeInlineWhitespace children; dest = TrimSpace dest0
              in if inner = [] then dest
                 else if dest = [] then inner
                 else ''['' @ escapeLinkText inner @ '']('' @ dest @ '')'')
         | NAutoLink label url \<Rightarrow> if TrimSpace label \<noteq> [] then TrimSpace label else TrimSpace url
         | NImage dest0 \<Rightarrow>
             (let alt0 = normalizeInlineWhitespace (renderPlainInlineChildren unesc cs);
                  alt = (if alt0 = [] then utf8 [0x56FE, 0x7247] else alt0);
                  dest = TrimSpace dest0
              in if dest = [] then alt else alt @ '': '' @ dest)
         | NRawHTML t \<Rightarrow> sanitizeHTMLText unesc t
         | NStrikethrough \<Rightarrow> ''~~'' @ children @ ''~~''
         | NTaskCheckBox checked \<Rightarrow> if checked then ''[x] '' else ''[ ] ''
         | _ \<Rightarrow> if cs \<noteq> [] then children else sanitizeHTMLText unesc (own_text k))"

definition renderInlineChildren :: "(string \<Rightarrow> string) \<Rightarrow> md_node list \<Rightarrow> string" where
  "renderInlineChildren unesc cs = concat (map (renderInline unesc) cs)"

section \<open>Blocks\<close>

text \<open>The line helpers.\<close>

definition prefixLines :: "string \<Rightarrow> string \<Rightarrow> string \<Rightarrow> string" where
  "prefixLines input firstPrefix nextPrefix =
     (if input = [] then []
      else let put = (\<lambda>prefix line. if line = [] then TrimRight prefix '' '' else prefix @ line);
               lines = Split input NL
           in Join (put firstPrefix (hd lines) # map (put nextPrefix) (tl lines)) NL)"

definition indentAllLines :: "string \<Rightarrow> string \<Rightarrow> string" where
  "indentAllLines input indent =
     (if input = [] then []
      else Join (map (\<lambda>line. if line = [] then TrimRight indent '' '' else indent @ line) (Split input NL)) NL)"

definition filterEmpty :: "string list \<Rightarrow> string list" where
  "filterEmpty values = filter (\<lambda>v. TrimSpace v \<noteq> []) values"

definition codeFenceFor :: "string \<Rightarrow> string" where
  "codeFenceFor raw = (if Contains raw fence then replicate 4 (CHR 0x60) else fence)"

definition renderCodeBlock :: "string \<Rightarrow> string \<Rightarrow> string" where
  "renderCodeBlock language raw0 =
     (let raw = TrimRight raw0 NL; f = codeFenceFor raw
      in if language \<noteq> [] then f @ language @ NL @ raw @ NL @ f else f @ NL @ raw @ NL @ f)"

definition isListLike :: "md_node \<Rightarrow> bool" where
  "isListLike n = (case kindOf n of NList b \<Rightarrow> True | NDefinitionList \<Rightarrow> True | _ \<Rightarrow> False)"

definition renderTableCells :: "(string \<Rightarrow> string) \<Rightarrow> md_node list \<Rightarrow> string" where
  "renderTableCells unesc cs =
     (let cells = map (\<lambda>cell. let t = normalizeInlineWhitespace (renderPlainInlineChildren unesc (childrenOf cell))
                              in if t = [] then ''-'' else t)
                    (filter (\<lambda>n. kindOf n = NTableCell) cs)
      in if cells = [] then [] else listBullet 0 @ Join cells '' | '')"

definition renderTable :: "(string \<Rightarrow> string) \<Rightarrow> md_node list \<Rightarrow> string" where
  "renderTable unesc cs =
     Join (filterEmpty (map (\<lambda>n. renderTableCells unesc (childrenOf n))
       (filter (\<lambda>n. kindOf n = NTableHeader \<or> kindOf n = NTableRow) cs))) NL"

text \<open>One definition of a definition list: the terms collected so far and its description.\<close>

definition definition_item :: "string list \<Rightarrow> string \<Rightarrow> string list" where
  "definition_item terms desc =
     (let label = Join terms '' / ''
      in if label = [] \<and> desc = [] then []
         else if label = [] then [listBullet 0 @ desc]
         else if desc = [] then [listBullet 0 @ label]
         else [listBullet 0 @ label @ '': '' @ desc])"

text \<open>
  The recursion through the tree: a block, the blocks of a node (the trimmed, non-empty parts),
  the items of a list from an index on, one item, the blocks of an item after the first, and the
  entries of a definition list with the terms collected so far.
\<close>

fun renderBlock :: "(string \<Rightarrow> string) \<Rightarrow> nat \<Rightarrow> md_node \<Rightarrow> string"
and block_parts :: "(string \<Rightarrow> string) \<Rightarrow> nat \<Rightarrow> md_node list \<Rightarrow> string list"
and list_items :: "(string \<Rightarrow> string) \<Rightarrow> nat \<Rightarrow> bool \<Rightarrow> int \<Rightarrow> md_node list \<Rightarrow> string list"
and renderListItem :: "(string \<Rightarrow> string) \<Rightarrow> nat \<Rightarrow> bool \<Rightarrow> int \<Rightarrow> md_node \<Rightarrow> string"
and item_rest :: "(string \<Rightarrow> string) \<Rightarrow> nat \<Rightarrow> string \<Rightarrow> md_node list \<Rightarrow> string"
and definition_entries :: "(string \<Rightarrow> string) \<Rightarrow> string list \<Rightarrow> md_node list \<Rightarrow> string list"
where
  "renderBlock unesc depth (MdNode k cs) =
     (case k of
        NDocument \<Rightarrow> Join (block_parts unesc depth cs) (NL @ NL)
      | NParagraph \<Rightarrow> renderInlineChildren unesc cs
      | NHeading \<Rightarrow>
          (let t = normalizeInlineWhitespace (renderPlainInlineChildren unesc cs)
           in if t = [] then [] else formatSectionHeading t)
      | NBlockquote \<Rightarrow>
          (let body = Join (block_parts unesc depth cs) (NL @ NL)
           in if body = [] then [] else prefixLines body (utf8 [0x258D] @ '' '') (utf8 [0x258D] @ '' ''))
      | NFencedCodeBlock lang raw \<Rightarrow> renderCodeBlock (TrimSpace lang) raw
      | NCodeBlock raw \<Rightarrow> renderCodeBlock [] raw
      | NHTMLBlock raw \<Rightarrow> TrimSpace (sanitizeHTMLText unesc raw)
      | NList ordered \<Rightarrow> Join (list_items unesc depth ordered 1 cs) NL
      | NTextBlock t \<Rightarrow> TrimSpace t
      | NThematicBreak \<Rightarrow> ''---''
      | NTable \<Rightarrow> renderTable unesc cs
      | NDefinitionList \<Rightarrow> Join (filterEmpty (definition_entries unesc [] cs)) NL
      | NFootnoteList \<Rightarrow> Join (block_parts unesc depth cs) (NL @ NL)
      | NFootnote \<Rightarrow> Join (block_parts unesc depth cs) (NL @ NL)
      | _ \<Rightarrow> if cs \<noteq> [] then Join (block_parts unesc depth cs) (NL @ NL)
             else TrimSpace (sanitizeHTMLText unesc (own_text k)))"
| "block_parts unesc depth [] = []"
| "block_parts unesc depth (c # cs) =
     (let part = TrimSpace (renderBlock unesc depth c)
      in (if part \<noteq> [] then [part] else []) @ block_parts unesc depth cs)"
| "list_items unesc depth ordered index [] = []"
| "list_items unesc depth ordered index (c # cs) =
     (if kindOf c \<noteq> NListItem then list_items unesc depth ordered index cs
      else let rendered = renderListItem unesc depth ordered index c
           in (if TrimSpace rendered \<noteq> [] then [rendered] else [])
                @ list_items unesc depth ordered (index + 1) cs)"
| "renderListItem unesc depth ordered index (MdNode k blocks) =
     (let baseIndent = Repeat ''  '' depth;
          marker = (if ordered then dec_int index @ ''. '' else listBullet depth);
          continuationIndent = baseIndent @ Repeat '' '' (length marker)
      in case blocks of
           [] \<Rightarrow> baseIndent @ marker
         | b # bs \<Rightarrow>
             (let first0 = renderBlock unesc (depth + 1) b;
                  first = (if TrimSpace first0 = [] then baseIndent @ marker
                           else if isListLike b then baseIndent @ marker @ NL @ indentAllLines first0 continuationIndent
                           else prefixLines first0 (baseIndent @ marker) continuationIndent)
              in first @ item_rest unesc (depth + 1) continuationIndent bs))"
| "item_rest unesc depth indent [] = []"
| "item_rest unesc depth indent (c # cs) =
     (let part = TrimSpace (renderBlock unesc depth c)
      in (if part = [] then [] else NL @ indentAllLines part indent) @ item_rest unesc depth indent cs)"
| "definition_entries unesc terms [] = map (\<lambda>t. listBullet 0 @ t) (filter (\<lambda>t. t \<noteq> []) terms)"
| "definition_entries unesc terms (MdNode k bs # cs) =
     (case k of
        NDefinitionTerm \<Rightarrow>
          (let t = normalizeInlineWhitespace (renderPlainInlineChildren unesc bs)
           in definition_entries unesc (if t \<noteq> [] then terms @ [t] else terms) cs)
      | NDefinitionDescription \<Rightarrow>
          definition_item terms (normalizeInlineWhitespace (Join (block_parts unesc 0 bs) (NL @ NL)))
            @ definition_entries unesc [] cs
      | _ \<Rightarrow> definition_entries unesc terms cs)"

definition renderBlockChildren :: "(string \<Rightarrow> string) \<Rightarrow> nat \<Rightarrow> md_node list \<Rightarrow> string" where
  "renderBlockChildren unesc depth cs = Join (block_parts unesc depth cs) (NL @ NL)"

section \<open>The converters\<close>

text \<open>
  \<open>parse\<close> is the third-party parser, \<open>None\<close> when it panics (which the code recovers from and
  reports as an error).
\<close>

record md_lib =
  mdParse :: "string \<Rightarrow> md_node option"
  mdUnescape :: "string \<Rightarrow> string"

definition renderFeishuMarkdown :: "md_lib \<Rightarrow> string \<Rightarrow> string option" where
  "renderFeishuMarkdown lib input =
     (case mdParse lib (normalizeNewlines input) of None \<Rightarrow> None
      | Some doc \<Rightarrow> Some (cleanupRenderedMarkdown (renderBlockChildren (mdUnescape lib) 0 (childrenOf doc))))"

definition NormalizeLarkMarkdown :: "md_lib \<Rightarrow> string \<Rightarrow> string" where
  "NormalizeLarkMarkdown lib input0 =
     (let input = normalizeNewlines input0
      in if TrimSpace input = [] then []
         else case renderFeishuMarkdown lib input of
             Some out \<Rightarrow> if TrimSpace out \<noteq> [] then out else normalizeLarkFallback (mdUnescape lib) input
           | None \<Rightarrow> normalizeLarkFallback (mdUnescape lib) input)"

section \<open>Card elements\<close>

definition markdownDivWithMode :: "string \<Rightarrow> bool \<Rightarrow> json" where
  "markdownDivWithMode text0 preserveCode =
     (let t = cleanupRenderedMarkdown text0;
          t' = (if \<not> preserveCode then normalizeCompatibleEmoji t else t)
      in go_map [(''tag'', cstr ''div''),
                 (''text'', go_map [(''tag'', cstr ''lark_md''), (''content'', cstr t')])])"

definition markdownDiv :: "string \<Rightarrow> json" where
  "markdownDiv t = markdownDivWithMode t False"

definition hr_element :: json where
  "hr_element = go_map [(''tag'', cstr ''hr'')]"

definition is_hr :: "json \<Rightarrow> bool" where
  "is_hr e = (case e of JObj ms \<Rightarrow> map_of ms ''tag'' = Some (cstr ''hr'') | _ \<Rightarrow> False)"

definition appendTextBlock :: "json list \<Rightarrow> string \<Rightarrow> bool \<Rightarrow> json list" where
  "appendTextBlock elements text0 preserveCode =
     (let t = cleanupRenderedMarkdown text0
      in if t = [] then elements else elements @ [markdownDivWithMode t preserveCode])"

fun append_lines :: "json list \<Rightarrow> string list \<Rightarrow> bool \<Rightarrow> json list" where
  "append_lines elements [] preserveCode = elements"
| "append_lines elements (l # ls) preserveCode =
     (let line = TrimSpace l
      in append_lines (if line = [] then elements else appendTextBlock elements line preserveCode) ls preserveCode)"

definition appendLineBlocks :: "json list \<Rightarrow> string \<Rightarrow> bool \<Rightarrow> json list" where
  "appendLineBlocks elements block preserveCode =
     append_lines elements (Split (cleanupRenderedMarkdown block) NL) preserveCode"

definition appendRenderedElements :: "(string \<Rightarrow> string) \<Rightarrow> json list \<Rightarrow> md_node \<Rightarrow> json list" where
  "appendRenderedElements unesc elements node =
     (case kindOf node of
        NHeading \<Rightarrow>
          (if elements \<noteq> [] then elements @ [hr_element] else elements)
            @ [markdownDiv (formatSectionHeading (renderPlainInlineChildren unesc (childrenOf node)))]
      | NParagraph \<Rightarrow> appendTextBlock elements (renderInlineChildren unesc (childrenOf node)) False
      | NList ordered \<Rightarrow> appendLineBlocks elements (renderBlock unesc 0 node) False
      | NBlockquote \<Rightarrow> appendTextBlock elements (renderBlock unesc 0 node) False
      | NFencedCodeBlock lang raw \<Rightarrow> appendTextBlock elements (renderBlock unesc 0 node) True
      | NCodeBlock raw \<Rightarrow> appendTextBlock elements (renderBlock unesc 0 node) True
      | NThematicBreak \<Rightarrow> elements @ [hr_element]
      | NTable \<Rightarrow> appendLineBlocks elements (renderBlock unesc 0 node) False
      | NDefinitionList \<Rightarrow> appendLineBlocks elements (renderBlock unesc 0 node) False
      | _ \<Rightarrow> appendTextBlock elements (renderBlock unesc 0 node) False)"

definition compactElements :: "json list \<Rightarrow> json list" where
  "compactElements elements = rev (dropWhile is_hr (rev (dropWhile is_hr elements)))"

definition buildLarkTextElementsAST :: "md_lib \<Rightarrow> string \<Rightarrow> json list option" where
  "buildLarkTextElementsAST lib input =
     (case mdParse lib input of None \<Rightarrow> None
      | Some doc \<Rightarrow>
          Some (compactElements (foldl (appendRenderedElements (mdUnescape lib)) [] (childrenOf doc))))"

definition fallbackLarkTextElements :: "string \<Rightarrow> json list" where
  "fallbackLarkTextElements text0 =
     (let t = cleanupRenderedMarkdown text0
      in if t = [] then []
         else map (\<lambda>p. markdownDivWithMode p False)
                (filter (\<lambda>p. p \<noteq> []) (map cleanupRenderedMarkdown (Split t (NL @ NL)))))"

definition BuildLarkTextElements :: "md_lib \<Rightarrow> string \<Rightarrow> json list" where
  "BuildLarkTextElements lib input0 =
     (let input = normalizeNewlines input0
      in if TrimSpace input = [] then []
         else case buildLarkTextElementsAST lib input of
             Some elements \<Rightarrow>
               if elements \<noteq> [] then elements else fallbackLarkTextElements (NormalizeLarkMarkdown lib input)
           | None \<Rightarrow> fallbackLarkTextElements (NormalizeLarkMarkdown lib input))"

section \<open>Properties\<close>

lemma Contains_iff: "Contains s sub \<longleftrightarrow> (\<exists>a b. s = a @ sub @ b)"
proof (induction s)
  case Nil
  show ?case by (simp add: Contains_def)
next
  case (Cons c s)
  show ?case
  proof (cases "HasPrefix (c # s) sub")
    case True
    then have "Contains (c # s) sub" by (simp add: Contains_def)
    moreover have "\<exists>b. c # s = [] @ sub @ b" using True by (auto simp: HasPrefix_iff)
    ultimately show ?thesis by blast
  next
    case False
    have "Contains (c # s) sub = Contains s sub" using False by (simp add: Contains_def)
    also have "\<dots> \<longleftrightarrow> (\<exists>a b. c # s = a @ sub @ b)"
    proof
      assume "Contains s sub"
      then obtain a b where "s = a @ sub @ b" using Cons by blast
      then have "c # s = (c # a) @ sub @ b" by simp
      then show "\<exists>a b. c # s = a @ sub @ b" by blast
    next
      assume "\<exists>a b. c # s = a @ sub @ b"
      then obtain a b where ab: "c # s = a @ sub @ b" by blast
      with False have "a \<noteq> []" by (auto simp: HasPrefix_iff)
      with ab obtain a' where "s = a' @ sub @ b" by (cases a) auto
      with Cons show "Contains s sub" by blast
    qed
    finally show ?thesis .
  qed
qed

text \<open>The fence chosen for a code block does not occur in the code, except when the code itself
  contains four backquotes in a row: then the block is closed too early.\<close>
theorem code_fence_safe:
  "Contains raw (codeFenceFor raw) \<longleftrightarrow> Contains raw (replicate 4 (CHR 0x60))"
proof (cases "Contains raw fence")
  case False
  have "\<not> Contains raw (replicate 4 (CHR 0x60))"
  proof
    assume "Contains raw (replicate 4 (CHR 0x60))"
    then obtain a b where "raw = a @ replicate 4 (CHR 0x60) @ b" by (auto simp: Contains_iff)
    then have "raw = a @ fence @ (CHR 0x60 # b)" by (simp add: fence_def numeral_eq_Suc)
    then have "Contains raw fence" unfolding Contains_iff by blast
    with False show False by simp
  qed
  with False show ?thesis by (simp add: codeFenceFor_def)
qed (simp add: codeFenceFor_def)

text \<open>The elements of a card's text are rules and text blocks.\<close>

definition element_ok :: "json \<Rightarrow> bool" where
  "element_ok e \<longleftrightarrow> e = hr_element \<or> (\<exists>t. e = JObj [(''tag'', cstr ''div''),
     (''text'', JObj [(''content'', cstr t), (''tag'', cstr ''lark_md'')])])"

lemma cstr_lit: "cstr ''div'' = JStr ''div''" "cstr ''hr'' = JStr ''hr''"
  by (simp_all add: cstr_def escape.simps(2) esc_byte_def)

lemma divWithMode_shape:
  "\<exists>t. markdownDivWithMode s p = JObj [(''tag'', cstr ''div''),
     (''text'', JObj [(''content'', cstr t), (''tag'', cstr ''lark_md'')])]"
  by (auto simp: markdownDivWithMode_def go_map_def Let_def)

lemma div_not_hr [simp]: "\<not> is_hr (markdownDivWithMode s p)" "\<not> is_hr (markdownDiv s)"
  using divWithMode_shape [of s p] divWithMode_shape [of s False]
  by (auto simp: is_hr_def cstr_lit markdownDiv_def)

lemma hr_is_hr [simp]: "is_hr hr_element"
  by (simp add: is_hr_def hr_element_def go_map_def)

lemma element_ok_div [simp]: "element_ok (markdownDivWithMode s p)" "element_ok (markdownDiv s)" "element_ok hr_element"
  using divWithMode_shape by (auto simp: element_ok_def markdownDiv_def)

lemma appendTextBlock_ok: "list_all element_ok es \<Longrightarrow> list_all element_ok (appendTextBlock es t p)"
  by (simp add: appendTextBlock_def Let_def)

lemma append_lines_ok: "list_all element_ok es \<Longrightarrow> list_all element_ok (append_lines es ls p)"
  by (induction es ls p rule: append_lines.induct) (simp add: Let_def appendTextBlock_ok)+

lemma appendRendered_ok: "list_all element_ok es \<Longrightarrow> list_all element_ok (appendRenderedElements u es n)"
  by (simp add: appendRenderedElements_def appendTextBlock_ok appendLineBlocks_def append_lines_ok
      split: node_kind.splits)

lemma foldl_rendered_ok: "list_all element_ok es \<Longrightarrow> list_all element_ok (foldl (appendRenderedElements u) es ns)"
  by (induction ns arbitrary: es) (simp_all add: appendRendered_ok)

lemma compact_edges:
  "compactElements es = [] \<or> \<not> is_hr (hd (compactElements es)) \<and> \<not> is_hr (last (compactElements es))"
proof -
  let ?a = "dropWhile is_hr es"
  have l: "rev (dropWhile is_hr (rev ?a)) = [] \<or> \<not> is_hr (last (rev (dropWhile is_hr (rev ?a))))"
    by (metis hd_dropWhile last_rev rev.simps(1) rev_is_Nil_conv)
  show ?thesis
  proof (cases "rev (dropWhile is_hr (rev ?a)) = []")
    case False
    obtain v where v: "?a = rev (dropWhile is_hr (rev ?a)) @ v"
      by (metis rev_append rev_rev_ident takeWhile_dropWhile_id)
    then have "hd ?a = hd (rev (dropWhile is_hr (rev ?a)))" using False by (metis hd_append2)
    moreover have "?a \<noteq> []" using False by (metis dropWhile.simps(1) rev.simps(1))
    ultimately have "\<not> is_hr (hd (rev (dropWhile is_hr (rev ?a))))" using hd_dropWhile by metis
    with l False show ?thesis by (simp add: compactElements_def)
  qed (simp add: compactElements_def)
qed

lemma set_compact: "set (compactElements es) \<subseteq> set es"
proof
  fix x assume "x \<in> set (compactElements es)"
  then have "x \<in> set (dropWhile is_hr (rev (dropWhile is_hr es)))" by (simp only: compactElements_def set_rev)
  then have "x \<in> set (rev (dropWhile is_hr es))" by (rule set_dropWhileD)
  then have "x \<in> set (dropWhile is_hr es)" by (simp only: set_rev)
  then show "x \<in> set es" by (rule set_dropWhileD)
qed

lemma BuildLarkTextElements_ok:
  "list_all element_ok (BuildLarkTextElements lib input) \<and>
   (BuildLarkTextElements lib input = [] \<or>
    \<not> is_hr (hd (BuildLarkTextElements lib input)) \<and> \<not> is_hr (last (BuildLarkTextElements lib input)))"
proof -
  define good where "good = (\<lambda>es. list_all element_ok es \<and> (es = [] \<or> \<not> is_hr (hd es) \<and> \<not> is_hr (last es)))"
  have fb: "good (fallbackLarkTextElements t)" for t
  proof -
    have "list_all (\<lambda>e. element_ok e \<and> \<not> is_hr e) (fallbackLarkTextElements t)"
      by (auto simp: fallbackLarkTextElements_def Let_def list_all_iff)
    then show ?thesis by (auto simp: good_def list_all_iff)
  qed
  have ast: "good es" if h: "buildLarkTextElementsAST lib s = Some es" for s es
  proof -
    obtain doc where es: "compactElements (foldl (appendRenderedElements (mdUnescape lib)) [] (childrenOf doc)) = es"
      using h by (cases "mdParse lib s") (simp_all add: buildLarkTextElementsAST_def)
    have "list_all element_ok (foldl (appendRenderedElements (mdUnescape lib)) [] (childrenOf doc))"
      by (rule foldl_rendered_ok) simp
    then have "list_all element_ok es" unfolding es [symmetric] list_all_iff using set_compact by blast
    with compact_edges es show ?thesis by (auto simp: good_def)
  qed
  have "good (BuildLarkTextElements lib input)"
    using fb ast by (auto simp: BuildLarkTextElements_def Let_def good_def split: option.splits)
  then show ?thesis by (simp add: good_def)
qed

text \<open>C22 Whatever the parser makes of the text, its card elements are text blocks and rules of the form
  Feishu accepts, and they neither begin nor end with a rule.\<close>
theorem text_elements_wellformed:
  "list_all element_ok (BuildLarkTextElements lib input) \<and>
   (BuildLarkTextElements lib input = [] \<or>
    \<not> is_hr (hd (BuildLarkTextElements lib input)) \<and> \<not> is_hr (last (BuildLarkTextElements lib input)))"
  by (rule BuildLarkTextElements_ok)

end
