(* ===== verification/Render.thy ===== *)
theory Render
  imports Markdown Llm
begin

text \<open>
  internal/render/state.go and renderer.go: the state machine behind a reply card, its JSON, and the
  loop that batches updates. The clock is an argument of every operation that reads it. The entry a
  Go pointer in \<open>toolByID\<close> shares with the list \<open>Tools\<close> is an index into that list.
\<close>

section \<open>The state of a card (state.go)\<close>

datatype phase = PhaseIdle | PhaseThinking | PhaseText | PhaseToolExecuting | PhaseDone | PhaseError

record tool_entry =
  teID :: string
  teName :: string
  teArgsPrev :: string
  teStartedAt :: time
  teEndedAt :: time
  teSuccess :: bool
  teErrorMsg :: string

record render_state =
  stPhase :: phase
  stThinking :: string
  stThinkingDone :: bool
  stThinkingStart :: time
  stText :: string
  stTools :: "tool_entry list"
  stToolByID :: "nat gomap"
  stStartedAt :: time
  stErrorText :: string
  stTraceID :: string
  stModel :: string

definition NewState :: "time \<Rightarrow> render_state" where
  "NewState now =
     \<lparr>stPhase = PhaseIdle, stThinking = [], stThinkingDone = False, stThinkingStart = 0, stText = [],
      stTools = [], stToolByID = [], stStartedAt = now, stErrorText = [], stTraceID = [], stModel = []\<rparr>"

definition start_tool :: "time \<Rightarrow> stream_event \<Rightarrow> render_state \<Rightarrow> render_state \<times> bool" where
  "start_tool now ev s0 =
     (let s = s0\<lparr>stPhase := PhaseToolExecuting\<rparr>
      in case map_of (stToolByID s) (evToolCallID ev) of
           Some i \<Rightarrow> (s, False)
         | None \<Rightarrow>
             (s\<lparr>stToolByID := AList.update (evToolCallID ev) (length (stTools s)) (stToolByID s),
                stTools := stTools s @ [\<lparr>teID = evToolCallID ev, teName = evToolName ev,
                  teArgsPrev = truncate_str (evText ev) 60, teStartedAt = now, teEndedAt = 0,
                  teSuccess = False, teErrorMsg = []\<rparr>]\<rparr>, True))"

definition end_tool :: "time \<Rightarrow> stream_event \<Rightarrow> render_state \<Rightarrow> render_state \<times> bool" where
  "end_tool now ev s =
     (case map_of (stToolByID s) (evToolCallID ev) of
        None \<Rightarrow> (s, False)
      | Some i \<Rightarrow>
          (let success = \<not> HasPrefix (evText ev) ''error:'';
               e = (stTools s ! i)\<lparr>teEndedAt := now, teSuccess := success\<rparr>;
               e' = (if success then e
                     else e\<lparr>teErrorMsg := TrimSpace (TrimPrefix (evText ev) ''error:'')\<rparr>)
           in (s\<lparr>stTools := (stTools s)[i := e']\<rparr>, True)))"

definition Apply :: "time \<Rightarrow> stream_event \<Rightarrow> render_state \<Rightarrow> render_state \<times> bool" where
  "Apply now ev s =
     (case evType ev of
        EventThinkingDelta \<Rightarrow>
          (let s1 = (if stPhase s = PhaseIdle then s\<lparr>stPhase := PhaseThinking, stThinkingStart := now\<rparr> else s)
           in if \<not> stThinkingDone s1 then (s1\<lparr>stThinking := stThinking s1 @ evText ev\<rparr>, True)
              else (s1, False))
      | EventTextDelta \<Rightarrow>
          (let s1 = (if \<not> stThinkingDone s then s\<lparr>stThinkingDone := True\<rparr> else s);
               s2 = (if stPhase s1 = PhaseIdle \<or> stPhase s1 = PhaseThinking then s1\<lparr>stPhase := PhaseText\<rparr> else s1)
           in (s2\<lparr>stText := stText s2 @ evText ev\<rparr>, True))
      | EventToolCallStart \<Rightarrow> start_tool now ev s
      | EventToolCallEnd \<Rightarrow> end_tool now ev s
      | EventMessageEnd \<Rightarrow> (s, False)
      | EventError \<Rightarrow>
          (s\<lparr>stPhase := PhaseError,
             stErrorText := (case evErr ev of Some e \<Rightarrow> Error e | None \<Rightarrow> ''unknown error'')\<rparr>, True)
      | _ \<Rightarrow> (s, False))"

definition MarkDone :: "render_state \<Rightarrow> render_state" where
  "MarkDone s = (if stPhase s = PhaseError then s else s\<lparr>stPhase := PhaseDone\<rparr>)"

definition MarkError :: "string \<Rightarrow> render_state \<Rightarrow> render_state" where
  "MarkError msg s =
     (let s1 = s\<lparr>stPhase := PhaseError\<rparr>
      in if TrimSpace msg = [] then s1\<lparr>stErrorText := ''unknown error''\<rparr> else s1\<lparr>stErrorText := msg\<rparr>)"

record state_snapshot =
  snPhase :: phase
  snThinking :: string
  snThinkingDone :: bool
  snText :: string
  snTools :: "tool_entry list"
  snErrorText :: string
  snTraceID :: string
  snModel :: string

definition Snapshot :: "render_state \<Rightarrow> state_snapshot" where
  "Snapshot s =
     \<lparr>snPhase = stPhase s, snThinking = stThinking s, snThinkingDone = stThinkingDone s, snText = stText s,
      snTools = stTools s, snErrorText = stErrorText s, snTraceID = stTraceID s, snModel = stModel s\<rparr>"

section \<open>Seconds with one decimal\<close>

text \<open>
  \<open>Duration.Seconds\<close> is a \<open>float64\<close>, printed by \<open>%.1f\<close>. A positive double is \<open>m / 2 ^ k\<close> with 53 bits
  in \<open>m\<close>; \<open>fl_ratio p q\<close> is the one nearest to \<open>p / q\<close>, ties to even. The values met here lie between
  \<open>10 ^ -9\<close> and \<open>2 ^ 34\<close>, so no exponent is out of range and \<open>k\<close> is not negative.
\<close>

definition round_even :: "nat \<Rightarrow> nat \<Rightarrow> nat" where
  "round_even a b =
     (let q = a div b; r = a mod b
      in if 2 * r < b then q else if b < 2 * r then q + 1 else if even q then q else q + 1)"

fun bit_len :: "nat \<Rightarrow> nat" where
  "bit_len n = (if n = 0 then 0 else Suc (bit_len (n div 2)))"

declare bit_len.simps [simp del]

definition fl_ratio :: "nat \<Rightarrow> nat \<Rightarrow> nat \<times> nat" where
  "fl_ratio p q =
     (if p = 0 then (0, 0)
      else let k0 = 53 + bit_len q - bit_len p;
               k = (if 2 ^ 53 \<le> p * 2 ^ k0 div q then k0 - 1 else k0)
           in (round_even (p * 2 ^ k) q, k))"

definition duration_seconds :: "nat \<Rightarrow> nat \<times> nat" where
  "duration_seconds d =
     (let (m, k) = fl_ratio (d mod 1000000000) 1000000000
      in fl_ratio (d div 1000000000 * 2 ^ k + m) (2 ^ k))"

definition fmt_seconds :: "time \<Rightarrow> string" where
  "fmt_seconds d =
     (let (m, k) = duration_seconds (nat \<bar>d\<bar>);
          t = round_even (10 * m) (2 ^ k)
      in (if d < 0 then ''-'' else []) @ dec_nat (t div 10) @ ''.'' @ dec_nat (t mod 10))"

definition Status :: "tool_entry \<Rightarrow> string" where
  "Status t =
     (if teEndedAt t = 0 then utf8 [0x23F3]
      else let dur = teEndedAt t - teStartedAt t
           in if teSuccess t then utf8 [0x2705] @ '' '' @ fmt_seconds dur @ ''s''
              else utf8 [0x274C] @ '' '' @ truncate_str (teErrorMsg t) 60)"

section \<open>The card (state.go)\<close>

definition MaxCardJSONBytes :: nat where
  "MaxCardJSONBytes = 25 * 1024"

definition headerForPhase :: "phase \<Rightarrow> string" where
  "headerForPhase p =
     (if p = PhaseError
      then ''AI '' @ utf8 [0x52A9, 0x624B, 0xFF08, 0x9047, 0x5230, 0x95EE, 0x9898, 0xFF09]
      else ''AI '' @ utf8 [0x52A9, 0x624B])"

definition templateForPhase :: "phase \<Rightarrow> string" where
  "templateForPhase p = (if p = PhaseError then ''red'' else ''blue'')"

definition userFacingError :: "string \<Rightarrow> string" where
  "userFacingError raw = truncate_str raw 120"

definition trim_keep :: nat where "trim_keep = 20000"

definition card_marker :: string where
  "card_marker =
     NL @ NL @ ''*['' @ utf8 [0x672C, 0x5361, 0x7247, 0x8FC7, 0x957F, 0xFF0C, 0x5DF2, 0x622A, 0x65AD, 0xFF1B,
       0x5B8C, 0x6574, 0x5185, 0x5BB9, 0x901A, 0x8FC7, 0x7EBF, 0x7A0B, 0x56DE, 0x590D, 0x7EE7, 0x7EED] @ '']*''"

definition trimTextForSize :: "state_snapshot \<Rightarrow> state_snapshot option" where
  "trimTextForSize s =
     (if snText s = [] then None
      else if trim_keep < length (snText s)
      then Some (s\<lparr>snText := take trim_keep (snText s) @ card_marker\<rparr>)
      else None)"

definition lark_div :: "string \<Rightarrow> json" where
  "lark_div content =
     go_map [(''tag'', cstr ''div''),
             (''text'', go_map [(''tag'', cstr ''lark_md''), (''content'', cstr content)])]"

definition note_element :: "string \<Rightarrow> json" where
  "note_element content =
     go_map [(''tag'', cstr ''note''),
             (''elements'', JArr [go_map [(''tag'', cstr ''plain_text''), (''content'', cstr content)]])]"

definition error_elements :: "state_snapshot \<Rightarrow> json list" where
  "error_elements s =
     [lark_div (utf8 [0x274C] @ '' **'' @ userFacingError (snErrorText s) @ ''**'' @ NL @ NL @
        utf8 [0x5982, 0x95EE, 0x9898, 0x6301, 0x7EED, 0xFF0C, 0x8BF7, 0x8054, 0x7CFB, 0x7BA1, 0x7406, 0x5458, 0x3002]
        @ NL @ fence @ NL @ ''trace: '' @ snTraceID s @ NL @ fence)]"

definition thinking_elements :: "md_lib \<Rightarrow> state_snapshot \<Rightarrow> json list" where
  "thinking_elements lib s =
     (if snThinking s \<noteq> [] \<and> \<not> snThinkingDone s then
        [lark_div (utf8 [0x1F4AD] @ '' **'' @ utf8 [0x601D, 0x8003, 0x4E2D] @ ''...**'' @ NL @
           quoteMarkdownLines (NormalizeLarkPreview (mdUnescape lib) (truncate_str (snThinking s) 300))),
         hr_element]
      else if snThinking s \<noteq> [] \<and> snThinkingDone s then
        [note_element (utf8 [0x1F4AD] @ '' '' @ utf8 [0x601D, 0x8003, 0x5B8C, 0x6210])]
      else [])"

definition text_elements :: "md_lib \<Rightarrow> state_snapshot \<Rightarrow> json list" where
  "text_elements lib s =
     (if snText s \<noteq> [] then BuildLarkTextElements lib (snText s)
      else if snPhase s = PhaseIdle then
        [lark_div (utf8 [0x1F4AD] @ '' '' @ utf8 [0x521D, 0x59CB, 0x5316, 0x4E2D, 0x2026])]
      else [])"

definition tool_row :: "tool_entry \<Rightarrow> json" where
  "tool_row t =
     markdownDiv (listBullet 0 @ formatInlineCode (teName t @ ''('' @ teArgsPrev t @ '')'') @ '' '' @
       normalizeCompatibleEmoji (Status t))"

definition tool_elements :: "state_snapshot \<Rightarrow> json list" where
  "tool_elements s =
     (if snTools s = [] then []
      else [hr_element, markdownDiv (utf8 [0x1F527] @ '' **'' @ utf8 [0x5DE5, 0x5177, 0x8C03, 0x7528] @ ''**'')]
             @ map tool_row (snTools s))"

definition footer_elements :: "state_snapshot \<Rightarrow> json list" where
  "footer_elements s =
     (if snPhase s = PhaseDone \<and> (snTraceID s \<noteq> [] \<or> snModel s \<noteq> []) then
        (let parts = (if snTraceID s \<noteq> [] then [''trace: '' @ snTraceID s] else [])
                       @ (if snModel s \<noteq> [] then [''model: '' @ snModel s] else [])
         in [hr_element, note_element (Join parts ('' '' @ utf8 [0xB7] @ '' ''))])
      else [])"

definition card_elements :: "md_lib \<Rightarrow> state_snapshot \<Rightarrow> json list" where
  "card_elements lib s =
     (if snPhase s = PhaseError then error_elements s
      else thinking_elements lib s @ text_elements lib s @ tool_elements s @ footer_elements s)"

definition card_json :: "md_lib \<Rightarrow> state_snapshot \<Rightarrow> json" where
  "card_json lib s =
     go_map [(''config'', go_map [(''update_multi'', JBool True), (''wide_screen_mode'', JBool True)]),
             (''header'', go_map [(''template'', cstr (templateForPhase (snPhase s))),
                (''title'', go_map [(''tag'', cstr ''plain_text''),
                                    (''content'', cstr (headerForPhase (snPhase s)))])]),
             (''elements'', JArr (card_elements lib s))]"

definition card_raw :: "md_lib \<Rightarrow> state_snapshot \<Rightarrow> string" where
  "card_raw lib s = TrimRight (print_json (card_json lib s) @ NL) NL"

text \<open>
  The code calls itself on the trimmed snapshot; nothing bounds how often, so the definition is
  partial and \<open>None\<close> stands for a call that never returns. The encoder cannot fail on these values.
\<close>

partial_function (option) BuildCardJSON :: "md_lib \<Rightarrow> state_snapshot \<Rightarrow> string option" where
  "BuildCardJSON lib s =
     (let raw = card_raw lib s
      in if MaxCardJSONBytes < length raw then
           (case trimTextForSize s of Some snap \<Rightarrow> BuildCardJSON lib snap | None \<Rightarrow> Some raw)
         else Some raw)"

declare BuildCardJSON.simps [code]

section \<open>The renderer (renderer.go)\<close>

text \<open>
  \<open>Patch\<close> is a method of the Lark client behind an interface: a function from the card on the outside
  world, with the error it returns. The context and the message identifier are the same in every call
  of a run and are part of it.
\<close>

type_synonym 'w patcher = "string \<Rightarrow> 'w \<Rightarrow> 'w \<times> go_error option"

definition DefaultFlushInterval :: time where "DefaultFlushInterval = 250000000"
definition BackoffInterval :: time where "BackoffInterval = 500000000"

record renderer =
  rdState :: render_state
  rdInterval :: time
  rdBackedOff :: bool

definition render_New :: "time \<Rightarrow> renderer" where
  "render_New now =
     \<lparr>rdState = NewState now, rdInterval = DefaultFlushInterval, rdBackedOff = False\<rparr>"

text \<open>The locals of \<open>Feed\<close>, the period of its ticker and the world; \<open>lastSnap\<close> is empty where it is \<open>nil\<close>.\<close>

record 'w feed_state =
  fdRenderer :: renderer
  fdDirty :: bool
  fdLastSnap :: string
  fdTicker :: time
  fdWorld :: 'w

definition bytesEq :: "string \<Rightarrow> string \<Rightarrow> bool" where
  "bytesEq a b =
     (if length a \<noteq> length b then False else list_all (\<lambda>(x, y). x = y) (zip a b))"

definition feed_flush :: "md_lib \<Rightarrow> 'w patcher \<Rightarrow> bool \<Rightarrow> 'w feed_state \<Rightarrow> 'w feed_state option" where
  "feed_flush lib patch force f =
     (if \<not> fdDirty f \<and> \<not> force then Some f
      else case BuildCardJSON lib (Snapshot (rdState (fdRenderer f))) of
          None \<Rightarrow> None
        | Some body \<Rightarrow>
            if \<not> force \<and> bytesEq body (fdLastSnap f) then Some f
            else let (w, perr) = patch body (fdWorld f); f1 = f\<lparr>fdWorld := w\<rparr>
                 in case perr of
                      None \<Rightarrow> Some (f1\<lparr>fdLastSnap := body, fdDirty := False\<rparr>)
                    | Some e \<Rightarrow>
                        if errors_Is e ErrRateLimited then
                          (if \<not> rdBackedOff (fdRenderer f1)
                           then Some (f1\<lparr>fdRenderer := (fdRenderer f1)\<lparr>rdBackedOff := True\<rparr>, fdTicker := BackoffInterval\<rparr>)
                           else Some f1)
                        else Some f1)"

text \<open>What the \<open>select\<close> of \<open>Feed\<close> can receive: an event with the time at which it is applied is \<open>RecvEvent\<close>.\<close>

datatype feed_input = CtxDone go_error | Tick | RecvEvent time stream_event | EventsClosed

datatype feed_result = FeedRunning | FeedReturned "go_error option"

definition feed_event :: "md_lib \<Rightarrow> 'w patcher \<Rightarrow> time \<Rightarrow> stream_event \<Rightarrow> 'w feed_state \<Rightarrow> 'w feed_state option" where
  "feed_event lib patch now ev f =
     (let firstText = (evType ev = EventTextDelta \<and> \<not> stThinkingDone (rdState (fdRenderer f)));
          (s, changed) = Apply now ev (rdState (fdRenderer f));
          f1 = f\<lparr>fdRenderer := (fdRenderer f)\<lparr>rdState := s\<rparr>\<rparr>;
          f2 = (if changed then f1\<lparr>fdDirty := True\<rparr> else f1)
      in case (if firstText then feed_flush lib patch True f2 else Some f2) of
           None \<Rightarrow> None
         | Some f3 \<Rightarrow>
             if evType ev = EventToolCallEnd \<or> evType ev = EventError \<or> evType ev = EventMessageEnd
             then feed_flush lib patch True f3 else Some f3)"

definition feed_step ::
  "md_lib \<Rightarrow> 'w patcher \<Rightarrow> feed_input \<Rightarrow> 'w feed_state \<Rightarrow> ('w feed_state \<times> feed_result) option" where
  "feed_step lib patch i f =
     (case i of
        CtxDone err \<Rightarrow> map_option (\<lambda>f. (f, FeedReturned (Some err))) (feed_flush lib patch True f)
      | Tick \<Rightarrow> map_option (\<lambda>f. (f, FeedRunning)) (feed_flush lib patch False f)
      | EventsClosed \<Rightarrow> map_option (\<lambda>f. (f, FeedReturned None)) (feed_flush lib patch True f)
      | RecvEvent now ev \<Rightarrow> map_option (\<lambda>f. (f, FeedRunning)) (feed_event lib patch now ev f))"

text \<open>
  The loop over what it receives, in that order; \<open>FeedRunning\<close> at the end means that it waits for more.
\<close>

fun feed_loop ::
  "md_lib \<Rightarrow> 'w patcher \<Rightarrow> feed_input list \<Rightarrow> 'w feed_state \<Rightarrow> ('w feed_state \<times> feed_result) option" where
  "feed_loop lib patch [] f = Some (f, FeedRunning)"
| "feed_loop lib patch (i # is) f =
     (case feed_step lib patch i f of
        None \<Rightarrow> None
      | Some (f', FeedRunning) \<Rightarrow> feed_loop lib patch is f'
      | Some (f', FeedReturned e) \<Rightarrow> Some (f', FeedReturned e))"

definition Feed ::
  "md_lib \<Rightarrow> 'w patcher \<Rightarrow> feed_input list \<Rightarrow> renderer \<Rightarrow> 'w \<Rightarrow> ('w feed_state \<times> feed_result) option" where
  "Feed lib patch inputs r w =
     feed_loop lib patch inputs
       \<lparr>fdRenderer = r, fdDirty = False, fdLastSnap = [], fdTicker = rdInterval r, fdWorld = w\<rparr>"

definition Stop :: "md_lib \<Rightarrow> 'w patcher \<Rightarrow> renderer \<Rightarrow> 'w \<Rightarrow> (renderer \<times> 'w \<times> go_error option) option" where
  "Stop lib patch r w =
     (let r1 = r\<lparr>rdState := MarkDone (rdState r)\<rparr>
      in case BuildCardJSON lib (Snapshot (rdState r1)) of
           None \<Rightarrow> None
         | Some body \<Rightarrow> Some (r1, patch body w))"

section \<open>Splitting a long reply (renderer.go)\<close>

definition split_soft :: nat where "split_soft = 20000"
definition split_chunk :: nat where "split_chunk = 18000"

fun index_from :: "string \<Rightarrow> char \<Rightarrow> nat \<Rightarrow> int" where
  "index_from s b 0 = -1"
| "index_from s b (Suc i) = (if s ! i = b then int i else index_from s b i)"

definition indexByteFromEnd :: "string \<Rightarrow> char \<Rightarrow> int" where
  "indexByteFromEnd s b = index_from s b (length s)"

definition split_cut :: "string \<Rightarrow> nat" where
  "split_cut rest =
     (let nl = indexByteFromEnd (take split_chunk rest) (CHR 0x0A)
      in if 0 < nl then nat nl else split_chunk)"

lemma split_cut_pos: "0 < split_cut rest"
  by (simp add: split_cut_def Let_def split_chunk_def)

function split_rest :: "string \<Rightarrow> string list" where
  "split_rest rest =
     (if split_chunk < length rest
      then take (split_cut rest) rest # split_rest (drop (split_cut rest) rest)
      else if rest \<noteq> [] then [rest] else [])"
  by pat_completeness auto
termination
proof (relation "measure length", goal_cases)
  case (2 rest)
  then show ?case using split_cut_pos [of rest] by auto
qed simp

declare split_rest.simps [simp del]

definition SplitLongBody :: "renderer \<Rightarrow> string \<times> string list" where
  "SplitLongBody r =
     (let full = stText (rdState r)
      in if length full \<le> split_soft then (full, [])
         else (take split_soft full, split_rest (drop split_soft full)))"

section \<open>Properties of the text split\<close>

lemma index_from_bound: "index_from s b n < int n"
  by (induction n) auto

lemma split_cut_bound: "split_cut rest \<le> split_chunk"
  using index_from_bound [of "take split_chunk rest" "CHR 0x0A" "length (take split_chunk rest)"]
  by (auto simp: split_cut_def indexByteFromEnd_def Let_def)

lemma split_rest_concat: "concat (split_rest s) = s"
  by (induction s rule: split_rest.induct) (subst split_rest.simps, auto)

lemma split_rest_bounds: "c \<in> set (split_rest s) \<Longrightarrow> c \<noteq> [] \<and> length c \<le> split_chunk"
proof (induction s rule: split_rest.induct)
  case (1 s)
  from 1(2) show ?case
    using split_cut_pos [of s] split_cut_bound [of s] 1(1)
    by (subst (asm) split_rest.simps) (auto split: if_splits)
qed


section \<open>When the card is built\<close>

lemma length_card_marker [simp]: "length card_marker = 72"
  by (simp add: card_marker_def utf8_def utf8_enc_def)

lemma card_trim_again: "trimTextForSize s = Some s' \<Longrightarrow> trimTextForSize s' = Some s'"
  by (auto simp: trimTextForSize_def trim_keep_def split: if_splits)

text \<open>The snapshots on which the call never returns: too large, also after the text has been cut.\<close>

definition card_stuck :: "md_lib \<Rightarrow> state_snapshot \<Rightarrow> bool" where
  "card_stuck lib s \<longleftrightarrow> MaxCardJSONBytes < length (card_raw lib s) \<and>
     (\<exists>s'. trimTextForSize s = Some s' \<and> MaxCardJSONBytes < length (card_raw lib s'))"

lemma stuck_never:
  assumes "BuildCardJSON lib s = Some y"
  shows "\<not> card_stuck lib s"
proof (rule BuildCardJSON.raw_induct [where P = "\<lambda>lib s y. \<not> card_stuck lib s", OF _ assms], goal_cases)
  case (1 f lib s y)
  show ?case
  proof
    assume "card_stuck lib s"
    then obtain s' where s': "trimTextForSize s = Some s'" "MaxCardJSONBytes < length (card_raw lib s)"
      "MaxCardJSONBytes < length (card_raw lib s')" by (auto simp: card_stuck_def)
    with 1(2) have "f lib s' = Some y" by (simp add: Let_def)
    then have "\<not> card_stuck lib s'" using 1(1) by blast
    moreover have "card_stuck lib s'" using s' card_trim_again by (auto simp: card_stuck_def)
    ultimately show False by simp
  qed
qed

lemma not_stuck_some:
  assumes "\<not> card_stuck lib s"
  shows "\<exists>y. BuildCardJSON lib s = Some y"
proof (cases "MaxCardJSONBytes < length (card_raw lib s)")
  case False
  then show ?thesis by (simp add: BuildCardJSON.simps [of lib s] Let_def)
next
  case True
  show ?thesis
  proof (cases "trimTextForSize s")
    case None
    with True show ?thesis by (simp add: BuildCardJSON.simps [of lib s] Let_def)
  next
    case (Some s')
    with True assms have "\<not> MaxCardJSONBytes < length (card_raw lib s')" by (auto simp: card_stuck_def)
    then have "BuildCardJSON lib s' = Some (card_raw lib s')"
      by (simp add: BuildCardJSON.simps [of lib s'] Let_def)
    with True Some show ?thesis by (simp add: BuildCardJSON.simps [of lib s] Let_def)
  qed
qed

lemma card_None_iff: "BuildCardJSON lib s = None \<longleftrightarrow> card_stuck lib s"
  using stuck_never not_stuck_some by (metis option.distinct(1) option.exhaust)

lemma trim_Some_iff: "trimTextForSize s = Some s' \<longleftrightarrow>
    20000 < length (snText s) \<and> s' = s\<lparr>snText := take 20000 (snText s) @ card_marker\<rparr>"
  by (auto simp: trimTextForSize_def trim_keep_def)

lemma BuildCardJSON_result:
  "BuildCardJSON lib s = Some y \<Longrightarrow>
     y = card_raw lib s \<and> (length y \<le> MaxCardJSONBytes \<or> length (snText s) \<le> 20000) \<or>
     20000 < length (snText s) \<and> MaxCardJSONBytes < length (card_raw lib s) \<and>
     y = card_raw lib (s\<lparr>snText := take 20000 (snText s) @ card_marker\<rparr>) \<and> length y \<le> MaxCardJSONBytes"
proof -
  assume y: "BuildCardJSON lib s = Some y"
  then have ns: "\<not> card_stuck lib s" by (rule stuck_never)
  show ?thesis
  proof (cases "MaxCardJSONBytes < length (card_raw lib s)")
    case False
    with y show ?thesis by (simp add: BuildCardJSON.simps [of lib s] Let_def)
  next
    case big: True
    show ?thesis
    proof (cases "trimTextForSize s")
      case None
      then have "length (snText s) \<le> 20000" by (auto simp: trimTextForSize_def trim_keep_def split: if_splits)
      with None big y show ?thesis by (simp add: BuildCardJSON.simps [of lib s] Let_def)
    next
      case (Some s')
      with big ns have fits: "\<not> MaxCardJSONBytes < length (card_raw lib s')" by (auto simp: card_stuck_def)
      from big y Some have "BuildCardJSON lib s' = Some y" by (simp add: BuildCardJSON.simps [of lib s] Let_def)
      with fits have "y = card_raw lib s'" by (simp add: BuildCardJSON.simps [of lib s'] Let_def)
      with fits big Some show ?thesis by (auto simp: trim_Some_iff)
    qed
  qed
qed

text \<open>C19 Building a card returns exactly when the card fits, or its text has at most 20000 bytes, or the
  card fits once the text has been cut to 20000 bytes and the marker; in every other state the function
  calls itself for ever. A returned card is the full one or the cut one, and is larger than the limit
  only where the text has at most 20000 bytes.\<close>
theorem card_built_iff:
  "case BuildCardJSON lib s of
     None \<Rightarrow> 20000 < length (snText s) \<and> MaxCardJSONBytes < length (card_raw lib s) \<and>
       MaxCardJSONBytes < length (card_raw lib (s\<lparr>snText := take 20000 (snText s) @ card_marker\<rparr>))
   | Some y \<Rightarrow>
       y = card_raw lib s \<and> (length y \<le> MaxCardJSONBytes \<or> length (snText s) \<le> 20000) \<or>
       20000 < length (snText s) \<and> MaxCardJSONBytes < length (card_raw lib s) \<and>
       y = card_raw lib (s\<lparr>snText := take 20000 (snText s) @ card_marker\<rparr>) \<and> length y \<le> MaxCardJSONBytes"
proof (cases "BuildCardJSON lib s")
  case None
  then have "card_stuck lib s" by (simp add: card_None_iff)
  with None show ?thesis by (simp add: card_stuck_def trim_Some_iff)
next
  case (Some y)
  with BuildCardJSON_result show ?thesis by simp
qed

section \<open>How large a card is\<close>

lemma Join_length: "sum_list (map length xs) \<le> length (Join xs sep)"
  by (induction xs sep rule: Join.induct) auto

lemma go_map2: "k1 < k2 \<Longrightarrow> go_map [(k2, a), (k1, b)] = JObj [(k1, b), (k2, a)]"
  "k1 < k2 \<Longrightarrow> go_map [(k1, a), (k2, b)] = JObj [(k1, a), (k2, b)]"
  by (auto simp: go_map_def)

lemma note_length: "45 \<le> length (print_json (note_element c))"
  by (simp add: note_element_def go_map_def cstr_def)

lemma lark_div_length: "45 \<le> length (print_json (lark_div c))"
  by (simp add: lark_div_def go_map_def cstr_def escape.simps(2) esc_byte_def)

lemma element_ok_length: "element_ok e \<Longrightarrow> e \<noteq> hr_element \<Longrightarrow> 45 \<le> length (print_json e)"
  by (auto simp: element_ok_def cstr_def escape.simps(2) esc_byte_def)

lemma error_or_ok:
  "e \<in> set (card_elements lib s) \<Longrightarrow> e \<noteq> hr_element \<Longrightarrow> 45 \<le> length (print_json e)"
  using BuildLarkTextElements_ok [of lib "snText s"] element_ok_div(2) element_ok_length
  by (auto simp: card_elements_def error_elements_def thinking_elements_def text_elements_def tool_elements_def
      tool_row_def footer_elements_def Let_def lark_div_length note_length list_all_iff split: if_splits)

lemma filter_sum: "(\<And>e. e \<in> set es \<Longrightarrow> P e \<Longrightarrow> (k::nat) \<le> f e) \<Longrightarrow> k * length (filter P es) \<le> sum_list (map f es)"
  by (induction es) (fastforce simp: add_le_mono)+

lemma card_elements_length: "length (print_json (JArr (card_elements lib s))) \<le> length (print_json (card_json lib s))"
  by (simp add: card_json_def go_map_def)

lemma card_raw_eq: "card_raw lib s = print_json (card_json lib s)"
  by (simp add: card_raw_def TrimRight_def card_json_def go_map_def)

lemma card_raw_length: "45 * length (filter (\<lambda>e. e \<noteq> hr_element) (card_elements lib s)) \<le> length (card_raw lib s)"
proof -
  let ?es = "card_elements lib s"
  have "45 * length (filter (\<lambda>e. e \<noteq> hr_element) ?es) \<le> sum_list (map (\<lambda>e. length (print_json e)) ?es)"
    by (rule filter_sum) (use error_or_ok in auto)
  also have "\<dots> \<le> length (Join (map print_json ?es) '','')"
    using Join_length [of "map print_json ?es" "'',''"] by (simp add: comp_def)
  also have "\<dots> \<le> length (print_json (JArr ?es))" by simp
  also have "\<dots> \<le> length (card_raw lib s)" using card_elements_length card_raw_eq by simp
  finally show ?thesis .
qed

text \<open>C38 A long reply of many short blocks stops the program: where the card has at least 600 blocks besides
  its rules, before and after the cut of the text, and the text is longer than 20000 bytes, building the
  card never returns.\<close>
theorem many_blocks_never_built:
  assumes "20000 < length (snText s)"
    and "600 \<le> length (filter (\<lambda>e. e \<noteq> hr_element) (card_elements lib s))"
    and "600 \<le> length (filter (\<lambda>e. e \<noteq> hr_element)
           (card_elements lib (s\<lparr>snText := take 20000 (snText s) @ card_marker\<rparr>)))"
  shows "BuildCardJSON lib s = None"
proof -
  have "MaxCardJSONBytes < length (card_raw lib s')"
    if "600 \<le> length (filter (\<lambda>e. e \<noteq> hr_element) (card_elements lib s'))" for s'
    using card_raw_length [of lib s'] that by (simp add: MaxCardJSONBytes_def)
  with assms show ?thesis by (simp add: card_None_iff card_stuck_def trim_Some_iff)
qed

text \<open>A parser that finds 600 paragraphs in every text.\<close>

definition para_lib :: md_lib where
  "para_lib = \<lparr>mdParse = (\<lambda>t. Some (MdNode NDocument
     (replicate 600 (MdNode NParagraph [MdNode (NString ''a'') []])))), mdUnescape = id\<rparr>"

definition long_reply :: state_snapshot where
  "long_reply = \<lparr>snPhase = PhaseDone, snThinking = [], snThinkingDone = True, snText = replicate 20001 (CHR ''a''),
     snTools = replicate 600 \<lparr>teID = ''t'', teName = ''n'', teArgsPrev = [], teStartedAt = 1, teEndedAt = 0,
       teSuccess = False, teErrorMsg = []\<rparr>, snErrorText = [], snTraceID = [], snModel = []\<rparr>"

lemma rows_filter: "filter (\<lambda>e. e \<noteq> hr_element) (map tool_row ts) = map tool_row ts"
  by (auto simp: filter_id_conv tool_row_def) (metis div_not_hr(2) hr_is_hr)

lemma long_reply_blocks: "600 \<le> length (filter (\<lambda>e. e \<noteq> hr_element) (card_elements lib (long_reply\<lparr>snText := t\<rparr>)))"
  by (simp add: card_elements_def long_reply_def tool_elements_def rows_filter del: map_replicate)

theorem many_blocks_never_built_witness: "BuildCardJSON para_lib long_reply = None"
proof (rule many_blocks_never_built)
  show "20000 < length (snText long_reply)" by (simp add: long_reply_def)
  show "600 \<le> length (filter (\<lambda>e. e \<noteq> hr_element) (card_elements para_lib long_reply))"
    using long_reply_blocks [of para_lib "snText long_reply"] by simp
qed (rule long_reply_blocks)

section \<open>The reachable states of a card\<close>

text \<open>What the program does with a state: events, the stamps of the caller, the two terminal marks.\<close>

inductive render_step :: "render_state \<Rightarrow> render_state \<Rightarrow> bool" where
  step_event: "render_step s (fst (Apply now ev s))"
| step_stamp: "render_step s (s\<lparr>stTraceID := t, stModel := m\<rparr>)"
| step_done: "render_step s (MarkDone s)"
| step_error: "render_step s (MarkError msg s)"

inductive_cases render_stepE: "render_step s s'"

definition tools_indexed :: "render_state \<Rightarrow> bool" where
  "tools_indexed s \<longleftrightarrow> distinct (map teID (stTools s)) \<and>
     (\<forall>k i. map_of (stToolByID s) k = Some i \<longleftrightarrow> i < length (stTools s) \<and> teID (stTools s ! i) = k)"

definition phase_ok :: "render_state \<Rightarrow> bool" where
  "phase_ok s \<longleftrightarrow>
     (stPhase s = PhaseIdle \<longrightarrow> stThinking s = [] \<and> \<not> stThinkingDone s \<and> stTools s = []) \<and>
     (stPhase s = PhaseThinking \<longrightarrow> \<not> stThinkingDone s \<and> stTools s = []) \<and>
     (stPhase s = PhaseText \<longrightarrow> stThinkingDone s \<and> stTools s = []) \<and>
     (\<not> stThinkingDone s \<longrightarrow> stText s = [])"

lemma tools_indexed_cong: "stTools s' = stTools s \<Longrightarrow> stToolByID s' = stToolByID s \<Longrightarrow> tools_indexed s \<Longrightarrow> tools_indexed s'"
  by (simp add: tools_indexed_def)

lemma not_indexed_notin:
  "tools_indexed s \<Longrightarrow> map_of (stToolByID s) k = None \<Longrightarrow> k \<notin> teID ` set (stTools s)"
  by (auto simp: tools_indexed_def in_set_conv_nth) (metis option.distinct(1))

lemma start_tool_indexed: "tools_indexed s \<Longrightarrow> tools_indexed (fst (start_tool now ev s))"
proof (cases "map_of (stToolByID s) (evToolCallID ev)")
  case None
  assume ok: "tools_indexed s"
  with None have new: "evToolCallID ev \<notin> teID ` set (stTools s)" by (rule not_indexed_notin [rotated])
  have nth: "\<And>i. i < length (stTools s) \<Longrightarrow> teID (stTools s ! i) \<noteq> evToolCallID ev" for i
    using new by (metis image_eqI nth_mem)
  show ?thesis using ok None new nth
    by (auto simp: tools_indexed_def start_tool_def Let_def update_conv' nth_append less_Suc_eq split: if_splits)
next
  case (Some i)
  assume ok: "tools_indexed s"
  from Some have "fst (start_tool now ev s) = s\<lparr>stPhase := PhaseToolExecuting\<rparr>"
    by (simp add: start_tool_def Let_def)
  with ok show ?thesis by (simp add: tools_indexed_def)
qed

lemma end_tool_fst: "fst (end_tool now ev s) = s \<or>
   (\<exists>i e. map_of (stToolByID s) (evToolCallID ev) = Some i \<and> teID e = teID (stTools s ! i) \<and>
          fst (end_tool now ev s) = s\<lparr>stTools := (stTools s)[i := e]\<rparr>)"
proof (cases "map_of (stToolByID s) (evToolCallID ev)")
  case (Some i)
  let ?e = "(stTools s ! i)\<lparr>teEndedAt := now, teSuccess := \<not> HasPrefix (evText ev) ''error:''\<rparr>"
  let ?f = "?e\<lparr>teErrorMsg := TrimSpace (TrimPrefix (evText ev) ''error:'')\<rparr>"
  have "fst (end_tool now ev s) = s\<lparr>stTools := (stTools s)[i := if HasPrefix (evText ev) ''error:'' then ?f else ?e]\<rparr>"
    using Some by (simp add: end_tool_def Let_def)
  moreover have "teID (if HasPrefix (evText ev) ''error:'' then ?f else ?e) = teID (stTools s ! i)" by simp
  ultimately show ?thesis using Some by blast
qed (simp add: end_tool_def)

lemma end_tool_ids [simp]: "map teID (stTools (fst (end_tool now ev s))) = map teID (stTools s)"
  using end_tool_fst [of now ev s] by (auto simp: map_update) (metis list_update_id map_update)

lemma list_update_teID: "teID e = teID (ts ! i) \<Longrightarrow> teID (ts[i := e] ! j) = teID (ts ! j)"
  by (cases "i = j"; cases "i < length ts") (auto simp: not_less list_update_beyond)

lemma end_tool_indexed: "tools_indexed s \<Longrightarrow> tools_indexed (fst (end_tool now ev s))"
  using end_tool_fst [of now ev s] end_tool_ids [of now ev s]
  by (auto simp: tools_indexed_def list_update_teID simp del: end_tool_ids)

lemmas apply_simps = Apply_def start_tool_def end_tool_def MarkDone_def MarkError_def

lemma Apply_indexed: "tools_indexed s \<Longrightarrow> tools_indexed (fst (Apply now ev s))"
  using start_tool_indexed end_tool_indexed
  by (auto simp: Apply_def Let_def tools_indexed_def split: stream_event_type.split)

lemma Apply_phase_ok: "phase_ok s \<Longrightarrow> phase_ok (fst (Apply now ev s))"
proof (cases "evType ev")
  case EventToolCallEnd
  assume "phase_ok s"
  then show ?thesis using EventToolCallEnd end_tool_fst [of now ev s] by (auto simp: Apply_def phase_ok_def)
qed (auto simp: Apply_def start_tool_def Let_def phase_ok_def split: option.splits)

lemma render_step_ok: "render_step s s' \<Longrightarrow> tools_indexed s \<and> phase_ok s \<Longrightarrow> tools_indexed s' \<and> phase_ok s'"
  by (erule render_stepE)
    (auto simp: Apply_indexed Apply_phase_ok, auto simp: tools_indexed_def phase_ok_def MarkDone_def MarkError_def Let_def)

lemma render_reach_ok: "render_step\<^sup>*\<^sup>* s s' \<Longrightarrow> tools_indexed s \<and> phase_ok s \<Longrightarrow> tools_indexed s' \<and> phase_ok s'"
  by (induction rule: rtranclp_induct) (use render_step_ok in blast)+

lemma NewState_ok: "tools_indexed (NewState now) \<and> phase_ok (NewState now)"
  by (simp add: tools_indexed_def phase_ok_def NewState_def)



section \<open>What a card accumulates\<close>

definition apply_all :: "(time \<times> stream_event) list \<Rightarrow> render_state \<Rightarrow> render_state" where
  "apply_all evs s = foldl (\<lambda>s (now, ev). fst (Apply now ev s)) s evs"

lemma apply_all_snoc [simp]: "apply_all (evs @ [(now, ev)]) s = fst (Apply now ev (apply_all evs s))"
  by (simp add: apply_all_def)

lemma apply_all_Nil [simp]: "apply_all [] s = s"
  by (simp add: apply_all_def)

definition texts_of :: "stream_event_type \<Rightarrow> stream_event list \<Rightarrow> string" where
  "texts_of t evs = concat (map evText (filter (\<lambda>e. evType e = t) evs))"

definition start_ids :: "stream_event list \<Rightarrow> string list" where
  "start_ids evs = map evToolCallID (filter (\<lambda>e. evType e = EventToolCallStart) evs)"

lemma Apply_text: "stText (fst (Apply now ev s)) = stText s @ (if evType ev = EventTextDelta then evText ev else [])"
  using end_tool_fst [of now ev s]
  by (auto simp: Apply_def start_tool_def Let_def split: stream_event_type.split option.split)

lemma Apply_done: "stThinkingDone (fst (Apply now ev s)) \<longleftrightarrow> stThinkingDone s \<or> evType ev = EventTextDelta"
  using end_tool_fst [of now ev s]
  by (auto simp: Apply_def start_tool_def Let_def split: stream_event_type.split option.split)

lemma Apply_thinking: "stThinking (fst (Apply now ev s)) =
    stThinking s @ (if evType ev = EventThinkingDelta \<and> \<not> stThinkingDone s then evText ev else [])"
  using end_tool_fst [of now ev s]
  by (auto simp: Apply_def start_tool_def Let_def split: stream_event_type.split option.split)

lemma Apply_ids:
  assumes "tools_indexed s"
  shows "map teID (stTools (fst (Apply now ev s))) = map teID (stTools s) @
    (if evType ev = EventToolCallStart \<and> evToolCallID ev \<notin> set (map teID (stTools s)) then [evToolCallID ev] else [])"
proof (cases "evType ev = EventToolCallStart")
  case True
  have "map_of (stToolByID s) (evToolCallID ev) = None \<longleftrightarrow> evToolCallID ev \<notin> set (map teID (stTools s))"
    using assms not_indexed_notin [of s "evToolCallID ev"]
    by (auto simp: tools_indexed_def) (metis image_eqI nth_mem option.exhaust)
  with True show ?thesis by (auto simp: Apply_def start_tool_def Let_def split: option.splits)
next
  case False
  then show ?thesis using end_tool_ids [of now ev s]
    by (auto simp: Apply_def Let_def split: stream_event_type.split)
qed

lemma apply_all_indexed: "tools_indexed (apply_all evs (NewState t0))"
proof (induction evs rule: rev_induct)
  case (snoc x xs)
  then show ?case by (cases x) (simp add: Apply_indexed)
qed (use NewState_ok in simp)

lemma takeWhile_snoc: "takeWhile P (xs @ [x]) = (if list_all P xs then xs @ (if P x then [x] else []) else takeWhile P xs)"
  by (induction xs) auto

lemma takeWhile_all: "list_all P xs \<Longrightarrow> takeWhile P xs = xs"
  by (induction xs) auto

lemma accumulates_done:
  "stThinkingDone (apply_all evs (NewState t0)) \<longleftrightarrow> \<not> list_all (\<lambda>e. evType e \<noteq> EventTextDelta) (map snd evs)"
  by (induction evs rule: rev_induct) (auto simp: Apply_done NewState_def)


section \<open>The batching loop\<close>

lemma feed_flush_state: "feed_flush lib patch force f = Some f' \<Longrightarrow> rdState (fdRenderer f') = rdState (fdRenderer f)"
  by (auto simp: feed_flush_def Let_def split: if_splits option.splits prod.splits)

lemma feed_flush_forced:
  "feed_flush lib patch True f = Some f' \<Longrightarrow>
     \<exists>body. BuildCardJSON lib (Snapshot (rdState (fdRenderer f))) = Some body \<and>
       fdWorld f' = fst (patch body (fdWorld f)) \<and>
       (snd (patch body (fdWorld f)) = None \<longrightarrow> fdLastSnap f' = body \<and> \<not> fdDirty f')"
  by (auto simp: feed_flush_def Let_def split: if_splits option.splits prod.splits)

text \<open>
  What every flush and every applied event keeps, the whole loop keeps: the contract between an
  invariant of the loop and its two steps.
\<close>

locale feed_invariant =
  fixes lib :: md_lib
    and patch :: "'w patcher"
    and P :: "'w feed_state \<Rightarrow> bool"
  assumes flush_keeps: "P f \<Longrightarrow> feed_flush lib patch force f = Some f' \<Longrightarrow> P f'"
    and apply_keeps: "P f \<Longrightarrow> P (f\<lparr>fdRenderer := (fdRenderer f)\<lparr>rdState := s\<rparr>, fdDirty := d\<rparr>)"
begin

lemma applied: "P f \<Longrightarrow> P (f\<lparr>fdRenderer := (fdRenderer f)\<lparr>rdState := s\<rparr>\<rparr>)"
proof -
  assume "P f"
  then have "P (f\<lparr>fdRenderer := (fdRenderer f)\<lparr>rdState := s\<rparr>, fdDirty := fdDirty f\<rparr>)" by (rule apply_keeps)
  then show ?thesis by simp
qed

lemma maybe_keeps: "P f \<Longrightarrow> (if b then feed_flush lib patch True f else Some f) = Some f' \<Longrightarrow> P f'"
  using flush_keeps by (auto split: if_splits)

lemma event_keeps:
  assumes "P f" "feed_event lib patch now ev f = Some f'"
  shows "P f'"
proof -
  obtain s changed where a: "Apply now ev (rdState (fdRenderer f)) = (s, changed)" by fastforce
  let ?f1 = "f\<lparr>fdRenderer := (fdRenderer f)\<lparr>rdState := s\<rparr>\<rparr>"
  let ?f2 = "if changed then ?f1\<lparr>fdDirty := True\<rparr> else ?f1"
  let ?first = "evType ev = EventTextDelta \<and> \<not> stThinkingDone (rdState (fdRenderer f))"
  have f2: "P ?f2" using applied [OF assms(1)] apply_keeps [OF assms(1)] by simp
  show ?thesis
  proof (cases "if ?first then feed_flush lib patch True ?f2 else Some ?f2")
    case None
    with assms(2) show ?thesis unfolding feed_event_def Let_def a prod.case by (simp only: option.case option.distinct)
  next
    case (Some g)
    with assms(2) have "(if evType ev = EventToolCallEnd \<or> evType ev = EventError \<or> evType ev = EventMessageEnd
        then feed_flush lib patch True g else Some g) = Some f'"
      unfolding feed_event_def Let_def a prod.case by (simp only: option.case)
    with maybe_keeps [OF f2 Some] show ?thesis by (rule maybe_keeps)
  qed
qed

lemma step_keeps: "P f \<Longrightarrow> feed_step lib patch i f = Some (f', res) \<Longrightarrow> P f'"
  by (cases i) (auto simp: feed_step_def intro: flush_keeps event_keeps)

lemma loop_keeps: "P f \<Longrightarrow> feed_loop lib patch is f = Some (f', res) \<Longrightarrow> P f'"
proof (induction "is" arbitrary: f)
  case (Cons i "is")
  then show ?case using step_keeps [of f i] by (auto split: option.splits prod.splits feed_result.splits)
qed simp

end

text \<open>Back-off: a run that was rate-limited ticks at the slower rate, one that was not at the first rate.\<close>

definition backoff_ok :: "time \<Rightarrow> 'w feed_state \<Rightarrow> bool" where
  "backoff_ok k f \<longleftrightarrow> fdTicker f = (if rdBackedOff (fdRenderer f) then BackoffInterval else k) \<and>
     rdInterval (fdRenderer f) = k"

interpretation backoff: feed_invariant lib patch "backoff_ok k" for lib patch k
proof
  fix f f' :: "'a feed_state" and force
  assume "backoff_ok k f" "feed_flush lib patch force f = Some f'"
  then show "backoff_ok k f'"
    by (auto simp: feed_flush_def Let_def backoff_ok_def split: if_splits option.splits prod.splits)
qed (simp add: backoff_ok_def)

text \<open>Once limited, limited for the rest of the run.\<close>

interpretation limited: feed_invariant lib patch "\<lambda>f. rdBackedOff (fdRenderer f)" for lib patch
proof
  fix f f' :: "'a feed_state" and force
  assume "rdBackedOff (fdRenderer f)" "feed_flush lib patch force f = Some f'"
  then show "rdBackedOff (fdRenderer f')"
    by (auto simp: feed_flush_def Let_def split: if_splits option.splits prod.splits)
qed simp

text \<open>Through every run of a fresh renderer the ticker beats at 250 ms until Feishu has answered with its
  rate limit and at 500 ms from then on.\<close>
theorem feed_backoff:
  assumes "Feed lib patch inputs (render_New now) w = Some (f, res)"
  shows "fdTicker f = (if rdBackedOff (fdRenderer f) then 500000000 else 250000000)"
proof -
  have "backoff_ok DefaultFlushInterval f"
    by (rule backoff.loop_keeps [OF _ assms [unfolded Feed_def]]) (simp add: backoff_ok_def render_New_def)
  then show ?thesis by (simp add: backoff_ok_def BackoffInterval_def DefaultFlushInterval_def)
qed

section \<open>The last flush\<close>

lemma apply_all_Cons: "apply_all ((now, ev) # evs) s = apply_all evs (fst (Apply now ev s))"
  by (simp add: apply_all_def)

text \<open>The events received before the run ends.\<close>

fun feed_received :: "feed_input list \<Rightarrow> (time \<times> stream_event) list" where
  "feed_received [] = []"
| "feed_received (RecvEvent now ev # is) = (now, ev) # feed_received is"
| "feed_received (Tick # is) = feed_received is"
| "feed_received (CtxDone e # is) = []"
| "feed_received (EventsClosed # is) = []"

lemma feed_event_state:
  "feed_event lib patch now ev f = Some f' \<Longrightarrow> rdState (fdRenderer f') = fst (Apply now ev (rdState (fdRenderer f)))"
  by (auto simp: feed_event_def Let_def split: if_splits option.splits prod.splits dest!: feed_flush_state)

lemma feed_loop_final:
  "feed_loop lib patch is f = Some (f', FeedReturned e) \<Longrightarrow>
     rdState (fdRenderer f') = apply_all (feed_received is) (rdState (fdRenderer f)) \<and>
     (\<exists>f0. rdState (fdRenderer f0) = rdState (fdRenderer f') \<and> feed_flush lib patch True f0 = Some f')"
proof (induction "is" arbitrary: f)
  case (Cons i "is")
  show ?case
  proof (cases i)
    case (RecvEvent now ev)
    with Cons.prems obtain g where g: "feed_event lib patch now ev f = Some g"
      "feed_loop lib patch is g = Some (f', FeedReturned e)"
      by (auto simp: feed_step_def split: option.splits)
    from Cons.IH [OF g(2)] show ?thesis
      unfolding RecvEvent feed_event_state [OF g(1)] feed_received.simps apply_all_Cons .
  next
    case Tick
    with Cons.prems obtain g where g: "feed_flush lib patch False f = Some g"
      "feed_loop lib patch is g = Some (f', FeedReturned e)"
      by (auto simp: feed_step_def split: option.splits)
    from Cons.IH [OF g(2)] show ?thesis unfolding Tick feed_flush_state [OF g(1)] feed_received.simps .
  next
    case (CtxDone err)
    with Cons.prems have "feed_flush lib patch True f = Some f'"
      by (auto simp: feed_step_def split: option.splits)
    with CtxDone feed_flush_state show ?thesis by (metis apply_all_Nil feed_received.simps(4))
  next
    case EventsClosed
    with Cons.prems have "feed_flush lib patch True f = Some f'"
      by (auto simp: feed_step_def split: option.splits)
    with EventsClosed feed_flush_state show ?thesis by (metis apply_all_Nil feed_received.simps(5))
  qed
qed simp

text \<open>C10 Whenever the loop returns, whether the stream ended or the context was cancelled, its last call to
  Feishu carried the card of the state after all the events it received; if Feishu accepted it,
  nothing is left to send.\<close>
theorem feed_shows_last_state:
  assumes "Feed lib patch inputs r w = Some (f, FeedReturned e)"
  shows "\<exists>w0 body. BuildCardJSON lib (Snapshot (apply_all (feed_received inputs) (rdState r))) = Some body \<and>
     fdWorld f = fst (patch body w0) \<and>
     (snd (patch body w0) = None \<longrightarrow> fdLastSnap f = body \<and> \<not> fdDirty f)"
proof -
  from feed_loop_final [OF assms [unfolded Feed_def]]
  obtain f0 where f0: "rdState (fdRenderer f0) = apply_all (feed_received inputs) (rdState r)"
    "feed_flush lib patch True f0 = Some f" by auto
  from feed_flush_forced [OF f0(2)] obtain body where
    "BuildCardJSON lib (Snapshot (apply_all (feed_received inputs) (rdState r))) = Some body"
    "fdWorld f = fst (patch body (fdWorld f0))"
    "snd (patch body (fdWorld f0)) = None \<longrightarrow> fdLastSnap f = body \<and> \<not> fdDirty f"
    unfolding f0(1) by auto
  then show ?thesis by (intro exI conjI)
qed

definition log_patch :: "string list patcher" where
  "log_patch body w = (w @ [body], None)"

definition plain_lib :: md_lib where
  "plain_lib = \<lparr>mdParse = (\<lambda>t. None), mdUnescape = id\<rparr>"

lemma small_card_built: "length (snText s) \<le> 20000 \<Longrightarrow> BuildCardJSON lib s = Some (card_raw lib s)"
  using card_None_iff [of lib s] BuildCardJSON_result [of lib s]
  by (cases "BuildCardJSON lib s") (auto simp: card_stuck_def trim_Some_iff)

lemma closed_run:
  "Feed lib log_patch [EventsClosed] (render_New 1) [] =
     Some (\<lparr>fdRenderer = render_New 1, fdDirty = False, fdLastSnap = card_raw lib (Snapshot (NewState 1)),
            fdTicker = DefaultFlushInterval, fdWorld = [card_raw lib (Snapshot (NewState 1))]\<rparr>, FeedReturned None)"
  by (simp add: Feed_def feed_step_def feed_flush_def Let_def render_New_def small_card_built Snapshot_def NewState_def log_patch_def)

theorem feed_shows_last_state_witness:
  "\<exists>w0 body. BuildCardJSON plain_lib (Snapshot (NewState 1)) = Some body \<and>
     [card_raw plain_lib (Snapshot (NewState 1))] = fst (log_patch body w0)"
  using feed_shows_last_state [OF closed_run [of plain_lib]] by (auto simp: render_New_def)

theorem feed_backoff_witness: "fdTicker (fst (the (Feed plain_lib log_patch [EventsClosed] (render_New 1) []))) = 250000000"
  using feed_backoff [OF closed_run [of plain_lib]] unfolding closed_run
  by (simp only: option.sel fst_conv feed_state.simps render_New_def renderer.simps if_False)

section \<open>The preview and the error card\<close>

text \<open>The preview of the thinking shows the first 300 bytes: whatever is thought after them does not change
  the card while the thinking goes on.\<close>
theorem preview_is_stale:
  assumes "300 < length t"
  shows "thinking_elements lib (s\<lparr>snThinking := t @ u\<rparr>) = thinking_elements lib (s\<lparr>snThinking := t\<rparr>)"
proof -
  have "truncate_str (t @ u) 300 = truncate_str t 300" using assms by (simp add: truncate_str_def)
  with assms show ?thesis by (auto simp: thinking_elements_def)
qed

theorem preview_is_stale_witness:
  "thinking_elements plain_lib (Snapshot (NewState 1)\<lparr>snThinking := replicate 301 (CHR ''a'') @ ''b''\<rparr>) =
   thinking_elements plain_lib (Snapshot (NewState 1)\<lparr>snThinking := replicate 301 (CHR ''a'')\<rparr>)"
  by (rule preview_is_stale) simp

text \<open>The error card is the same whatever was shown before: the text, the rows and the thinking are gone, and
  the error survives the end of the run.\<close>
theorem error_card_replaces:
  "card_json lib (Snapshot (MarkDone (MarkError msg s))) =
   card_json lib (Snapshot (MarkError msg ((NewState now)\<lparr>stTraceID := stTraceID s\<rparr>)))"
  by (simp add: MarkDone_def MarkError_def Let_def card_json_def card_elements_def error_elements_def Snapshot_def)

end
