(* ===== verification/Lark.thy ===== *)
theory Lark
  imports Agent Render
begin

text \<open>
  internal/lark: parsing an inbound message, the commands, the calls to Feishu and the handler that
  runs a turn. The Lark client library is a parameter, and so is the interleaving of the goroutines
  of a turn.
\<close>

section \<open>Inbound messages (parser.go)\<close>

text \<open>The event as the library delivers it; a pointer is an option.\<close>

record raw_mention =
  rwMentionOpenId :: "string option"

record raw_message =
  rwChatId :: "string option"
  rwChatType :: "string option"
  rwMessageId :: "string option"
  rwMessageType :: "string option"
  rwContent :: "string option"
  rwMentions :: "raw_mention option option list"

record raw_sender =
  rwSenderId :: "string option option"

record raw_event =
  rwMessage :: "raw_message option"
  rwSender :: "raw_sender option"

record message_event =
  evChatID :: string
  evChatType :: string
  evSenderOpenID :: string
  evMessageID :: string
  evTextOf :: string
  evMentionedBot :: bool

definition go_str_of :: "string option \<Rightarrow> string" where
  "go_str_of p = (case p of None \<Rightarrow> [] | Some s \<Rightarrow> s)"

text \<open>\<open>mentionKeyRE\<close>, a placeholder with the blanks after it.\<close>

definition match_mention :: "string \<Rightarrow> string option" where
  "match_mention s =
     (let p = ''@_user_''; r = drop (length p) s
      in if HasPrefix s p \<and> takeWhile is_digit r \<noteq> []
         then Some (dropWhile re_space (dropWhile is_digit r)) else None)"

definition stripMentions :: "string \<Rightarrow> string" where
  "stripMentions s = replace_matches match_mention [] s"

definition text_put :: "string \<Rightarrow> json \<Rightarrow> string \<Rightarrow> string option" where
  "text_put k v r = (if k = ''text'' then put_string v (\<lambda>s. s) r else Some r)"

definition extractText :: "string option \<Rightarrow> string option \<Rightarrow> string" where
  "extractText msgType content =
     (case (msgType, content) of
        (Some t, Some c) \<Rightarrow>
          if t \<noteq> ''text'' then []
          else (case Option.bind (read_json c) (decode_struct text_put []) of None \<Rightarrow> [] | Some s \<Rightarrow> s)
      | _ \<Rightarrow> [])"

fun mentions_bot :: "string \<Rightarrow> raw_mention option option list \<Rightarrow> bool" where
  "mentions_bot me [] = False"
| "mentions_bot me (m # ms) =
     (case m of
        Some (Some i) \<Rightarrow> if rwMentionOpenId i = Some me then True else mentions_bot me ms
      | _ \<Rightarrow> mentions_bot me ms)"

text \<open>\<open>raw\<close> is \<open>None\<close> for a nil event, its argument is \<open>None\<close> where the inner \<open>Event\<close> is nil.\<close>

definition Parse :: "raw_event option option \<Rightarrow> string \<Rightarrow> message_event option" where
  "Parse raw botOpenID =
     (case raw of
        Some (Some e) \<Rightarrow>
          (case (rwMessage e, rwSender e) of
             (Some msg, Some sdr) \<Rightarrow>
               Some \<lparr>evChatID = go_str_of (rwChatId msg), evChatType = go_str_of (rwChatType msg),
                 evSenderOpenID = (case rwSenderId sdr of Some oid \<Rightarrow> go_str_of oid | None \<Rightarrow> []),
                 evMessageID = go_str_of (rwMessageId msg),
                 evTextOf = TrimSpace (stripMentions (extractText (rwMessageType msg) (rwContent msg))),
                 evMentionedBot = (botOpenID \<noteq> [] \<and> mentions_bot botOpenID (rwMentions msg))\<rparr>
           | _ \<Rightarrow> None)
      | _ \<Rightarrow> None)"

definition SessionKey :: "message_event \<Rightarrow> string" where
  "SessionKey ev =
     (if evChatType ev = ''p2p'' then ''p2p:'' @ evSenderOpenID ev
      else ''group:'' @ evChatID ev @ '':'' @ evSenderOpenID ev)"

definition IsCommand :: "string \<Rightarrow> bool" where
  "IsCommand t \<longleftrightarrow> HasPrefix t ''/''"

section \<open>Cards (card.go, json.go)\<close>

definition InitialCardJSON :: string where
  "InitialCardJSON =
     ''{'' @ NL @ ''  '' @ [DQ] @ ''config'' @ [DQ] @ '': {'' @ [DQ] @ ''update_multi'' @ [DQ] @ '': true, ''
         @ [DQ] @ ''wide_screen_mode'' @ [DQ] @ '': true},'' @ NL @ ''  '' @ [DQ] @ ''header'' @ [DQ]
         @ '': {'' @ [DQ] @ ''template'' @ [DQ] @ '': '' @ [DQ] @ ''blue'' @ [DQ] @ '', '' @ [DQ] @ ''title''
         @ [DQ] @ '': {'' @ [DQ] @ ''tag'' @ [DQ] @ '': '' @ [DQ] @ ''plain_text'' @ [DQ] @ '', '' @ [DQ]
         @ ''content'' @ [DQ] @ '': '' @ [DQ] @ ''AI '' @ utf8 [0x52A9, 0x624B] @ [DQ] @ ''}},'' @ NL
         @ ''  '' @ [DQ] @ ''elements'' @ [DQ] @ '': ['' @ NL @ ''    {'' @ [DQ] @ ''tag'' @ [DQ] @ '': ''
         @ [DQ] @ ''div'' @ [DQ] @ '', '' @ [DQ] @ ''text'' @ [DQ] @ '': {'' @ [DQ] @ ''tag'' @ [DQ] @ '': ''
         @ [DQ] @ ''lark_md'' @ [DQ] @ '', '' @ [DQ] @ ''content'' @ [DQ] @ '': '' @ [DQ] @ utf8 [0x1F4AD]
         @ '' '' @ utf8 [0x601D, 0x8003, 0x4E2D, 0x2026] @ [DQ] @ ''}}'' @ NL @ ''  ]'' @ NL @ ''}''"

text \<open>\<open>json.Marshal\<close> escapes HTML, also in the elements.\<close>

definition PlainTextCardJSON :: "md_lib \<Rightarrow> string \<Rightarrow> string" where
  "PlainTextCardJSON lib text0 =
     print_json (html_json (go_map
       [(''config'', go_map [(''update_multi'', JBool True), (''wide_screen_mode'', JBool True)]),
        (''header'', go_map [(''template'', cstr ''blue''),
           (''title'', go_map [(''tag'', cstr ''plain_text''), (''content'', cstr (''AI ''
               @ utf8 [0x52A9, 0x624B]))])]),
        (''elements'', JArr (BuildLarkTextElements lib text0))]))"

section \<open>Calls to Feishu (sender.go)\<close>

text \<open>The responses of the client library, with the methods \<open>Success\<close> and the fields the code reads.\<close>

record lark_resp =
  lrOK :: bool
  lrCode :: int
  lrMsg :: string
  lrMessageId :: "string option"

text \<open>\<open>Create\<close> takes the kind of the receiver, the receiver, the kind of the message and its content.\<close>

record 'f lark_client =
  lcCreate :: "string \<Rightarrow> string \<Rightarrow> string \<Rightarrow> string \<Rightarrow> 'f \<Rightarrow> 'f \<times> (go_error + lark_resp)"
  lcPatch :: "string \<Rightarrow> string \<Rightarrow> 'f \<Rightarrow> 'f \<times> (go_error + lark_resp)"
  lcReply :: "string \<Rightarrow> string \<Rightarrow> string \<Rightarrow> 'f \<Rightarrow> 'f \<times> (go_error + lark_resp)"

definition code_msg :: "string \<Rightarrow> lark_resp \<Rightarrow> go_error" where
  "code_msg what r = Errorf (what @ '': code='' @ dec_int (lrCode r) @ '' msg='' @ lrMsg r)"

definition lark_SendMessage :: "'f lark_client \<Rightarrow> string \<Rightarrow> string \<Rightarrow> 'f \<Rightarrow> 'f \<times> go_error option" where
  "lark_SendMessage c chatID t w =
     (let content = print_json (JObj [(''text'', jstr t)])
      in case lcCreate c ''chat_id'' chatID ''text'' content w of
           (w', Inl err) \<Rightarrow> (w', Some (Wrapf ''lark create text message'' err))
         | (w', Inr resp) \<Rightarrow>
             if \<not> lrOK resp then (w', Some (code_msg ''lark create text message'' resp)) else (w', None))"

definition lark_SendInitialCard :: "'f lark_client \<Rightarrow> string \<Rightarrow> 'f \<Rightarrow> 'f \<times> (go_error + string)" where
  "lark_SendInitialCard c chatID w =
     (case lcCreate c ''chat_id'' chatID ''interactive'' InitialCardJSON w of
        (w', Inl err) \<Rightarrow> (w', Inl (Wrapf ''lark create message'' err))
      | (w', Inr resp) \<Rightarrow>
          if \<not> lrOK resp then (w', Inl (code_msg ''lark create message'' resp))
          else (case lrMessageId resp of
                  None \<Rightarrow> (w', Inl (Errorf ''lark create message: no message_id in response''))
                | Some i \<Rightarrow> (w', Inr i)))"

definition lark_Patch :: "'f lark_client \<Rightarrow> string \<Rightarrow> string \<Rightarrow> 'f \<Rightarrow> 'f \<times> go_error option" where
  "lark_Patch c messageID cardJSON w =
     (case lcPatch c messageID cardJSON w of
        (w', Inl err) \<Rightarrow> (w', Some (Wrapf ''lark patch message'' err))
      | (w', Inr resp) \<Rightarrow>
          if \<not> lrOK resp then
            (if lrCode resp = 230020 then (w', Some ErrRateLimited)
             else (w', Some (code_msg ''lark patch message'' resp)))
          else (w', None))"

definition lark_ReplyInThread :: "'f lark_client \<Rightarrow> md_lib \<Rightarrow> string \<Rightarrow> string \<Rightarrow> 'f \<Rightarrow> 'f \<times> go_error option" where
  "lark_ReplyInThread c lib rootMessageID t w =
     (case lcReply c rootMessageID (PlainTextCardJSON lib t) ''interactive'' w of
        (w', Inl err) \<Rightarrow> (w', Some (Wrapf ''lark reply message'' err))
      | (w', Inr resp) \<Rightarrow>
          if \<not> lrOK resp then (w', Some (code_msg ''lark reply message'' resp)) else (w', None))"

definition lark_sendPlainCard :: "'f lark_client \<Rightarrow> md_lib \<Rightarrow> string \<Rightarrow> string \<Rightarrow> string \<Rightarrow> 'f \<Rightarrow> 'f \<times> go_error option" where
  "lark_sendPlainCard c lib idType i t w =
     (case lcCreate c idType i ''interactive'' (PlainTextCardJSON lib t) w of
        (w', Inl err) \<Rightarrow> (w', Some (Wrapf ''lark create message'' err))
      | (w', Inr resp) \<Rightarrow>
          if \<not> lrOK resp then (w', Some (code_msg ''lark create message'' resp)) else (w', None))"

definition lark_SendPlainCard :: "'f lark_client \<Rightarrow> md_lib \<Rightarrow> string \<Rightarrow> string \<Rightarrow> 'f \<Rightarrow> 'f \<times> go_error option" where
  "lark_SendPlainCard c lib chatID t w = lark_sendPlainCard c lib ''chat_id'' chatID t w"

definition lark_SendPlainCardByOpenID :: "'f lark_client \<Rightarrow> md_lib \<Rightarrow> string \<Rightarrow> string \<Rightarrow> 'f \<Rightarrow> 'f \<times> go_error option" where
  "lark_SendPlainCardByOpenID c lib openID t w = lark_sendPlainCard c lib ''open_id'' openID t w"

section \<open>Commands (commands.go)\<close>

abbreviation BQ :: string where "BQ \<equiv> [CHR 0x60]"

definition modelListText :: "'w llm_registry \<Rightarrow> string" where
  "modelListText llms =
     (let names = llm_Names llms
      in if names = [] then (''**'' @ utf8 [0x53EF, 0x7528, 0x6A21, 0x578B] @ ''**'' @ utf8 [0xFF1A] @ ''_''
          @ utf8 [0x65E0] @ ''_'')
         else (''**'' @ utf8 [0x53EF, 0x7528, 0x6A21, 0x578B] @ ''**'' @ utf8 [0xFF1A] @ [CHR 0x60])
             @ Join names ([CHR 0x60] @ utf8 [0x3001] @ [CHR 0x60]) @ BQ)"

definition source_text :: "source \<Rightarrow> string" where
  "source_text s = (case s of SourceBuiltin \<Rightarrow> ''builtin'' | SourceMCP \<Rightarrow> ''mcp'')"

definition tool_entry_line :: "'w \<Rightarrow> 'w tool \<Rightarrow> string" where
  "tool_entry_line w t =
     (let mark = (if \<not> tAvailable t w then utf8 [0x26A0, 0xFE0F] else utf8 [0x2705])
      in ''- '' @ mark @ '' '' @ BQ @ tName t @ BQ @ '' ('' @ source_text (tSource t) @ '')'' @ NL)"

definition toolsListText :: "'w tool_registry \<Rightarrow> 'w \<Rightarrow> string" where
  "toolsListText reg w =
     (let tools = tool_List reg
      in if tools = [] then (''**'' @ utf8 [0x53EF, 0x7528, 0x5DE5, 0x5177] @ ''**'' @ utf8 [0xFF1A] @ ''_''
          @ utf8 [0x65E0] @ ''_'')
         else (''**'' @ utf8 [0x53EF, 0x7528, 0x5DE5, 0x5177] @ ''**'' @ NL)
             @ concat (map (tool_entry_line w) tools))"

definition helpText :: "'w tool_registry \<Rightarrow> 'w llm_registry \<Rightarrow> 'w \<Rightarrow> string" where
  "helpText reg llms w =
     (''**'' @ utf8 [0x53EF, 0x7528, 0x6307, 0x4EE4] @ ''**'' @ NL) @
     (''- '' @ [CHR 0x60] @ ''/clear'' @ [CHR 0x60] @ '' '' @ utf8 [0x6E05, 0x7A7A, 0x5F53, 0x524D, 0x5BF9, 0x8BDD, 0x4E0A, 0x4E0B, 0x6587] @ NL) @
     (''- '' @ [CHR 0x60] @ ''/help'' @ [CHR 0x60] @ '' '' @ utf8 [0x663E, 0x793A, 0x6B64, 0x5E2E, 0x52A9] @ NL) @
     (''- '' @ [CHR 0x60] @ ''/model <'' @ utf8 [0x522B, 0x540D] @ ''>'' @ [CHR 0x60] @ '' ''
         @ utf8 [0x5207, 0x6362] @ '' AI '' @ utf8 [0x6A21, 0x578B] @ NL) @
     (''- '' @ [CHR 0x60] @ ''/tools'' @ [CHR 0x60] @ '' '' @ utf8 [0x5217, 0x51FA, 0x53EF, 0x7528, 0x5DE5, 0x5177] @ NL) @
     (''- '' @ [CHR 0x60] @ ''/whoami'' @ [CHR 0x60] @ '' ''
         @ utf8 [0x663E, 0x793A, 0x5F53, 0x524D, 0x4F1A, 0x8BDD, 0x6807, 0x8BC6, 0xFF08, 0x8C03, 0x8BD5, 0x7528, 0xFF09] @ NL @ NL) @
     modelListText llms @ NL @ NL @ toolsListText reg w"

text \<open>
  The handler and what it is wired with: the methods of the store and of the locker, the sender
  (whose \<open>SendPlainCard\<close> is optional, a type assertion in the code), the registries. \<open>'w\<close> is the world
  of the stores, the providers and the tools, \<open>'f\<close> the one of the sender.
\<close>

record 'f message_sender =
  msSendInitialCard :: "string \<Rightarrow> 'f \<Rightarrow> 'f \<times> (go_error + string)"
  msSendMessage :: "string \<Rightarrow> string \<Rightarrow> 'f \<Rightarrow> 'f \<times> go_error option"
  msPatch :: "string \<Rightarrow> string \<Rightarrow> 'f \<Rightarrow> 'f \<times> go_error option"
  msReplyInThread :: "string \<Rightarrow> string \<Rightarrow> 'f \<Rightarrow> 'f \<times> go_error option"
  msSendPlainCard :: "(string \<Rightarrow> string \<Rightarrow> 'f \<Rightarrow> 'f \<times> go_error option) option"

definition lark_sender :: "'f lark_client \<Rightarrow> md_lib \<Rightarrow> 'f message_sender" where
  "lark_sender c lib =
     \<lparr>msSendInitialCard = lark_SendInitialCard c, msSendMessage = lark_SendMessage c, msPatch = lark_Patch c,
      msReplyInThread = lark_ReplyInThread c lib, msSendPlainCard = Some (lark_SendPlainCard c lib)\<rparr>"

record ('w, 'f) handler =
  hdGet :: "string \<Rightarrow> 'w \<Rightarrow> 'w \<times> (go_error + session option)"
  hdSave :: "'w save_fn"
  hdDelete :: "string \<Rightarrow> 'w \<Rightarrow> 'w \<times> go_error option"
  hdTryAcquire :: "string \<Rightarrow> int \<Rightarrow> 'w \<Rightarrow> 'w \<times> (go_error + string option)"
  hdRelease :: "string \<Rightarrow> string \<Rightarrow> 'w \<Rightarrow> 'w \<times> go_error option"
  hdSender :: "'f message_sender"
  hdRegistry :: "'w tool_registry"
  hdLLMs :: "'w llm_registry"
  hdDefaultMdl :: string

definition new_session :: "message_event \<Rightarrow> time \<Rightarrow> session" where
  "new_session ev now =
     session_zero\<lparr>sessKey := SessionKey ev, sessUserOpenID := evSenderOpenID ev, sessChatID := evChatID ev,
       sessChatType := evChatType ev, sessCreatedAt := now\<rparr>"

definition model_failed :: string where
  "model_failed = (utf8 [0x26A0, 0xFE0F] @ '' '' @ utf8 [0x6A21, 0x578B, 0x5207, 0x6362, 0x5931, 0x8D25, 0xFF0C, 0x8BF7, 0x7A0D, 0x540E, 0x91CD, 0x8BD5, 0x3002])"

definition model_command :: "('w, 'f) handler \<Rightarrow> time \<Rightarrow> message_event \<Rightarrow> string \<Rightarrow> 'w \<Rightarrow> 'w \<times> string" where
  "model_command h now ev arg w =
     (if arg = [] then (w, modelListText (hdLLMs h))
      else if llm_Get (hdLLMs h) arg = None then
        (w, (utf8 [0x26A0, 0xFE0F] @ '' '' @ utf8 [0x672A, 0x77E5, 0x6A21, 0x578B] @ '' '' @ [CHR 0x60])
            @ arg @ ([CHR 0x60] @ utf8 [0x3002] @ NL @ NL) @ modelListText (hdLLMs h))
      else case hdGet h (SessionKey ev) w of
          (w1, Inl err) \<Rightarrow> (w1, model_failed)
        | (w1, Inr so) \<Rightarrow>
            (let sess = (case so of Some s \<Rightarrow> s | None \<Rightarrow> new_session ev now);
                 sess' = sess\<lparr>sessProvider := arg\<rparr>
             in case hdSave h (sessKey sess') sess' w1 of
                  (w2, so', Some err) \<Rightarrow> (w2, model_failed)
                | (w2, so', None) \<Rightarrow> (w2, (utf8 [0x2705] @ '' ''
                    @ utf8 [0x5DF2, 0x5207, 0x6362, 0x6A21, 0x578B, 0x4E3A] @ '' '' @ [CHR 0x60]) @ arg
                    @ ([CHR 0x60] @ utf8 [0x3002]))))"

definition dispatchCommand ::
  "('w, 'f) handler \<Rightarrow> time \<Rightarrow> message_event \<Rightarrow> 'w \<Rightarrow> 'w \<times> string option" where
  "dispatchCommand h now ev w =
     (let cmd = TrimSpace (evTextOf ev)
      in if \<not> IsCommand cmd then (w, None)
         else if cmd = ''/clear'' then
           (case hdDelete h (SessionKey ev) w of
              (w', Some err) \<Rightarrow> (w', Some (utf8 [0x26A0, 0xFE0F] @ '' ''
                  @ utf8 [0x6E05, 0x7A7A, 0x5931, 0x8D25, 0xFF0C, 0x8BF7, 0x7A0D, 0x540E, 0x91CD, 0x8BD5, 0x3002]))
            | (w', None) \<Rightarrow> (w', Some (utf8 [0x2705] @ '' ''
                @ utf8 [0x5DF2, 0x6E05, 0x7A7A, 0x4E0A, 0x4E0B, 0x6587, 0x3002])))
         else if cmd = ''/help'' then (w, Some (helpText (hdRegistry h) (hdLLMs h) w))
         else if HasPrefix cmd ''/model'' then
           (let (w', t) = model_command h now ev (TrimSpace (TrimPrefix cmd ''/model'')) w in (w', Some t))
         else if cmd = ''/tools'' then (w, Some (toolsListText (hdRegistry h) w))
         else if cmd = ''/whoami'' then
           (w, Some ((''session_key: '' @ [CHR 0x60]) @ SessionKey ev @ ([CHR 0x60] @ NL @ ''open_id: ''
               @ [CHR 0x60]) @ evSenderOpenID ev @
              ([CHR 0x60] @ NL @ ''chat_type: '' @ [CHR 0x60]) @ evChatType ev @ BQ))
         else (w, Some ((utf8 [0x672A, 0x77E5, 0x547D, 0x4EE4] @ '' '' @ [CHR 0x60]) @ cmd @ ([CHR 0x60]
             @ utf8 [0x3002, 0x8F93, 0x5165] @ '' '' @ [CHR 0x60] @ ''/help'' @ [CHR 0x60] @ '' ''
             @ utf8 [0x67E5, 0x770B, 0x53EF, 0x7528, 0x547D, 0x4EE4, 0x3002]))))"

section \<open>The handler (handler.go)\<close>

definition LockTTL :: int where "LockTTL = 60 * sec"

definition userFacingRunError :: "go_error \<Rightarrow> string" where
  "userFacingRunError err =
     (if errors_Is err ErrMaxStepsReached then (utf8 [0x5DF2, 0x8FBE, 0x5230, 0x63A8, 0x7406, 0x6B65, 0x6570, 0x4E0A, 0x9650, 0xFF08] @ ''12 '' @ utf8 [0x6B65, 0xFF09, 0xFF0C, 0x8BF7, 0x62C6, 0x89E3, 0x95EE, 0x9898, 0x540E, 0x91CD, 0x8BD5, 0x3002])
      else if errors_Is err ErrEmptyAssistantResponse then utf8 [0x6A21, 0x578B, 0x8FD4, 0x56DE, 0x4E86, 0x7A7A, 0x54CD, 0x5E94, 0xFF0C, 0x8BF7, 0x7A0D, 0x540E, 0x91CD, 0x8BD5, 0x3002]
      else utf8 [0x5904, 0x7406, 0x8FC7, 0x7A0B, 0x4E2D, 0x51FA, 0x9519, 0x4E86, 0xFF0C, 0x8BF7, 0x7A0D, 0x540E, 0x91CD, 0x8BD5, 0x3002])"

definition unavailable_text :: string where
  "unavailable_text = (utf8 [0x26A0, 0xFE0F] @ '' '' @ utf8 [0x670D, 0x52A1, 0x6682, 0x65F6, 0x4E0D, 0x53EF, 0x7528, 0xFF0C, 0x8BF7, 0x7A0D, 0x540E, 0x91CD, 0x8BD5, 0x3002])"

definition busy_text :: string where
  "busy_text = (utf8 [0x23F3] @ '' '' @ utf8 [0x4E0A, 0x4E00, 0x6761, 0x8FD8, 0x5728, 0x5904, 0x7406, 0x4E2D, 0xFF0C, 0x8BF7, 0x7A0D, 0x5019, 0x518D, 0x53D1, 0x3002])"

definition no_model_text :: string where
  "no_model_text = (utf8 [0x26A0, 0xFE0F] @ '' '' @ utf8 [0x5F53, 0x524D, 0x6CA1, 0x6709, 0x53EF, 0x7528, 0x7684] @ '' AI '' @ utf8 [0x6A21, 0x578B, 0xFF0C, 0x8BF7, 0x8054, 0x7CFB, 0x7BA1, 0x7406, 0x5458, 0x3002])"

text \<open>
  What one message depends on besides the handler and the worlds: the trace identifier, the clock,
  the Markdown library, the environment of the agent's run, and \<open>heFeed\<close>: for the events the agent
  emits, what the loop of the renderer receives and when. The agent runs beside the renderer; they
  share only the event channel, which holds \<open>event_buffer\<close> events, so the agent blocks for ever when
  it emits more than that beyond the last event received.
\<close>

record handle_env =
  heTrace :: string
  heNow :: time
  heLib :: md_lib
  heRun :: run_env
  heFeed :: "stream_event list \<Rightarrow> feed_input list"

definition event_buffer :: nat where "event_buffer = 64"

fun reply_chunks :: "'f message_sender \<Rightarrow> string \<Rightarrow> string list \<Rightarrow> 'f \<Rightarrow> 'f" where
  "reply_chunks s mid [] f = f"
| "reply_chunks s mid (c # cs) f =
     (case msReplyInThread s mid c f of
        (f', Some err) \<Rightarrow> f'
      | (f', None) \<Rightarrow> reply_chunks s mid cs f')"

definition turn_renderer :: "handle_env \<Rightarrow> 'w provider \<Rightarrow> renderer" where
  "turn_renderer env prov =
     (let r = render_New (heNow env)
      in r\<lparr>rdState := (rdState r)\<lparr>stTraceID := heTrace env, stModel := provName prov\<rparr>\<rparr>)"

text \<open>After the run: the terminal card, and the rest of a long reply; \<open>None\<close> when a card is never built.\<close>

definition finish_turn ::
  "('w, 'f) handler \<Rightarrow> md_lib \<Rightarrow> string \<Rightarrow> go_error option \<Rightarrow> renderer \<Rightarrow> 'f \<Rightarrow> ('f \<times> go_error option) option" where
  "finish_turn h lib mid runErr r f =
     (case runErr of
        Some err \<Rightarrow>
          map_option (\<lambda>(r', f', e). (f', Some err))
            (Stop lib (msPatch (hdSender h) mid)
              (r\<lparr>rdState := MarkError (userFacingRunError err) (rdState r)\<rparr>) f)
      | None \<Rightarrow>
          map_option (\<lambda>(r', f', e). (reply_chunks (hdSender h) mid (snd (SplitLongBody r')) f', None))
            (Stop lib (msPatch (hdSender h) mid) r f))"

definition run_turn ::
  "('w, 'f) handler \<Rightarrow> handle_env \<Rightarrow> message_event \<Rightarrow> session \<Rightarrow> 'w provider \<Rightarrow> string \<Rightarrow> 'w \<Rightarrow> 'f \<Rightarrow>
   (('w \<times> 'f) \<times> go_error option) option" where
  "run_turn h env ev sess prov mid w f =
     (let ag = (NewAgent prov (hdRegistry h) (Some (hdSave h)))\<lparr>agThinking := True\<rparr>;
          (st, runErr) = Run ag ((heRun env)\<lparr>reCaller := evSenderOpenID ev\<rparr>) sess (evTextOf ev) w;
          inputs = heFeed env (rsOut st)
      in if length (feed_received inputs) + event_buffer < length (rsOut st) then None
         else case Feed (heLib env) (msPatch (hdSender h) mid) inputs (turn_renderer env prov) f of
             Some (fs, FeedReturned ferr) \<Rightarrow>
               map_option (\<lambda>(f', e). ((rsWorld st, f'), e))
                 (finish_turn h (heLib env) mid runErr (fdRenderer fs) (fdWorld fs))
           | _ \<Rightarrow> None)"

text \<open>Gate 5 and the turn.\<close>

definition locked_turn ::
  "('w, 'f) handler \<Rightarrow> handle_env \<Rightarrow> message_event \<Rightarrow> 'w \<Rightarrow> 'f \<Rightarrow> (('w \<times> 'f) \<times> go_error option) option" where
  "locked_turn h env ev w f =
     (case hdGet h (SessionKey ev) w of
        (w1, Inl err) \<Rightarrow> Some ((w1, fst (msSendMessage (hdSender h) (evChatID ev) unavailable_text f)), Some err)
      | (w1, Inr so) \<Rightarrow>
          (let sess0 = (case so of Some s \<Rightarrow> s
                        | None \<Rightarrow> (new_session ev (heNow env))\<lparr>sessProvider := hdDefaultMdl h\<rparr>);
               sess = sess0\<lparr>sessTraceID := heTrace env\<rparr>
           in case llm_Resolve (hdLLMs h) (sessProvider sess) of
                None \<Rightarrow> Some ((w1, fst (msSendMessage (hdSender h) (evChatID ev) no_model_text f)),
                             Some (Errorf ''no provider available''))
              | Some prov \<Rightarrow>
                  (case msSendInitialCard (hdSender h) (evChatID ev) f of
                     (f1, Inl err) \<Rightarrow> Some ((w1, f1), Some err)
                   | (f1, Inr mid) \<Rightarrow> run_turn h env ev sess prov mid w1 f1)))"

text \<open>\<open>None\<close>: the call never returns. The deferred release runs on every return.\<close>

definition Handle ::
  "('w, 'f) handler \<Rightarrow> handle_env \<Rightarrow> message_event option \<Rightarrow> 'w \<Rightarrow> 'f \<Rightarrow>
   (('w \<times> 'f) \<times> go_error option) option" where
  "Handle h env evo w f =
     (case evo of
        None \<Rightarrow> Some ((w, f), Some (Errorf ''nil event''))
      | Some ev \<Rightarrow>
          if evChatType ev \<noteq> ''p2p'' \<and> \<not> evMentionedBot ev then Some ((w, f), None)
          else if evTextOf ev = [] then Some ((w, f), None)
          else case dispatchCommand h (heNow env) ev w of
              (w1, Some t) \<Rightarrow>
                (if t = [] then Some ((w1, f), None)
                 else let (f1, e) = (case msSendPlainCard (hdSender h) of
                            Some send \<Rightarrow> send (evChatID ev) t f
                          | None \<Rightarrow> msSendMessage (hdSender h) (evChatID ev) t f)
                      in Some ((w1, f1), e))
            | (w1, None) \<Rightarrow>
                (case hdTryAcquire h (SessionKey ev) LockTTL w1 of
                   (w2, Inl err) \<Rightarrow>
                     Some ((w2, fst (msSendMessage (hdSender h) (evChatID ev) unavailable_text f)), Some err)
                 | (w2, Inr None) \<Rightarrow>
                     Some ((w2, fst (msSendMessage (hdSender h) (evChatID ev) busy_text f)), None)
                 | (w2, Inr (Some token)) \<Rightarrow>
                     map_option (\<lambda>((w3, f3), e). ((fst (hdRelease h (SessionKey ev) token w3), f3), e))
                       (locked_turn h env ev w2 f)))"

section \<open>Keys, errors and the lock\<close>

lemma last_colon:
  assumes "CHR '':'' \<notin> set a" "CHR '':'' \<notin> set b" "x @ CHR '':'' # a = y @ CHR '':'' # b"
  shows "x = y \<and> a = b"
proof -
  have tw: "takeWhile (\<lambda>c. c \<noteq> CHR '':'') (rev (z @ CHR '':'' # c)) = rev c" if "CHR '':'' \<notin> set c" for z c
  proof -
    have "takeWhile (\<lambda>c. c \<noteq> CHR '':'') (rev c @ CHR '':'' # rev z) = rev c @ takeWhile (\<lambda>c. c \<noteq> CHR '':'') (CHR '':'' # rev z)"
      by (rule takeWhile_append2) (use that in auto)
    then show ?thesis by simp
  qed
  have "rev a = rev b" using tw [OF assms(1)] tw [OF assms(2)] assms(3) by metis
  with assms(3) show ?thesis by simp
qed

text \<open>Two messages share a session exactly when they are from the same user and both in a direct chat, or
  from the same user in the same group (open identifiers have no colon).\<close>
theorem SessionKey_injective:
  assumes "CHR '':'' \<notin> set (evSenderOpenID a)" "CHR '':'' \<notin> set (evSenderOpenID b)"
  shows "SessionKey a = SessionKey b \<longleftrightarrow>
    evSenderOpenID a = evSenderOpenID b \<and> (evChatType a = ''p2p'' \<longleftrightarrow> evChatType b = ''p2p'') \<and>
    (evChatType a = ''p2p'' \<or> evChatID a = evChatID b)"
  using last_colon [OF assms, of "evChatID a" "evChatID b"] by (auto simp: SessionKey_def)

definition demo_message :: "string \<Rightarrow> message_event" where
  "demo_message t = \<lparr>evChatID = ''oc_1'', evChatType = ''p2p'', evSenderOpenID = ''ou_1'', evMessageID = ''om_1'',
     evTextOf = t, evMentionedBot = False\<rparr>"

theorem SessionKey_injective_witness:
  "SessionKey (demo_message ''a'') \<noteq> SessionKey ((demo_message ''a'')\<lparr>evSenderOpenID := ''ou_2''\<rparr>)"
  using SessionKey_injective [of "demo_message ''a''" "(demo_message ''a'')\<lparr>evSenderOpenID := ''ou_2''\<rparr>"]
  by (simp add: demo_message_def)

text \<open>A patch reports the rate limit to the renderer exactly when Feishu answered with code 230020 (or the
  client's own error is that one).\<close>
theorem Patch_rate_limited:
  "(\<exists>e. snd (lark_Patch c mid body w) = Some e \<and> errors_Is e ErrRateLimited) \<longleftrightarrow>
   (case snd (lcPatch c mid body w) of
      Inl err \<Rightarrow> errors_Is err ErrRateLimited
    | Inr resp \<Rightarrow> \<not> lrOK resp \<and> lrCode resp = 230020)"
  by (auto simp: lark_Patch_def code_msg_def split: prod.splits sum.splits)

lemma locked_cases:
  assumes "Handle h env (Some ev) w f = Some ((w', f'), e)"
    and "evChatType ev = ''p2p'' \<or> evMentionedBot ev" "evTextOf ev \<noteq> []"
    and "dispatchCommand h (heNow env) ev w = (w1, None)"
    and "hdTryAcquire h (SessionKey ev) LockTTL w1 = (w2, Inr (Some token))"
  obtains w3 f3 where "locked_turn h env ev w2 f = Some ((w3, f3), e)"
    "w' = fst (hdRelease h (SessionKey ev) token w3)" "f' = f3"
  using assms by (auto simp: Handle_def)

text \<open>C6 Whatever happens in a turn, an error, a lost lock or an answer: when the handler returns, the token it
  acquired no longer holds the lock of the session, as long as the release itself is not refused.\<close>
theorem turn_releases_lock:
  assumes laws: "redis_laws rc view"
    and wiring: "hdTryAcquire h = (\<lambda>key ttl w. RedisLocker_TryAcquire rc key ttl (rnd w) w)"
      "hdRelease h = RedisLocker_Release rc"
    and turn: "Handle h env (Some ev) w f = Some ((w', f'), e)"
      "evChatType ev = ''p2p'' \<or> evMentionedBot ev" "evTextOf ev \<noteq> []"
      "dispatchCommand h (heNow env) ev w = (w1, None)"
      "RedisLocker_TryAcquire rc (SessionKey ev) LockTTL (rnd w1) w1 = (w2, Inr (Some token))" "token \<noteq> []"
    and released: "\<forall>w3. snd (RedisLocker_Release rc (SessionKey ev) token w3) = None"
  shows "lock_owner view w' (SessionKey ev) \<noteq> Some token"
proof -
  have a: "hdTryAcquire h (SessionKey ev) LockTTL w1 = (w2, Inr (Some token))" using turn(5) wiring by simp
  obtain w3 f3 where w': "w' = fst (hdRelease h (SessionKey ev) token w3)"
    by (rule locked_cases [OF turn(1-4) a])
  obtain w4 r where r: "RedisLocker_Release rc (SessionKey ev) token w3 = (w4, r)" by fastforce
  with released have "r = None" by (metis snd_conv)
  with Release_cases [OF laws r turn(6)] show ?thesis using r w' wiring by (auto split: if_splits)
qed

text \<open>A handler on the in-memory client that has no model.\<close>

definition demo_handler :: "(mem_redis, nat) handler" where
  "demo_handler =
     \<lparr>hdGet = RedisStore_Get Errorf (NewRedisStore mr_client 0),
      hdSave = (\<lambda>k s w. RedisStore_Save (Errorf ''json'') (NewRedisStore mr_client 0) 1 k (Some s) w),
      hdDelete = RedisStore_Delete (NewRedisStore mr_client 0),
      hdTryAcquire = (\<lambda>key ttl w. RedisLocker_TryAcquire mr_client key ttl (Inr ''x'') w),
      hdRelease = RedisLocker_Release mr_client,
      hdSender = \<lparr>msSendInitialCard = (\<lambda>c n. (n + 1, Inr ''om'')), msSendMessage = (\<lambda>c t n. (n + 1, None)),
        msPatch = (\<lambda>c t n. (n + 1, None)), msReplyInThread = (\<lambda>c t n. (n + 1, None)),
        msSendPlainCard = None\<rparr>,
      hdRegistry = [], hdLLMs = \<lparr>lrProviders = [], lrDefault = []\<rparr>, hdDefaultMdl = []\<rparr>"

definition demo_handle_env :: handle_env where
  "demo_handle_env = \<lparr>heTrace = ''t'', heNow = 1, heLib = plain_lib, heRun = demo_env,
     heFeed = (\<lambda>evs. map (RecvEvent 1) evs @ [EventsClosed])\<rparr>"

lemma TrimSpace_hi [simp]: "TrimSpace ''hi'' = ''hi''"
  by code_simp

lemma demo_dispatch: "dispatchCommand h now (demo_message ''hi'') w = (w, None)"
  by (simp add: dispatchCommand_def IsCommand_def demo_message_def)

definition demo_locked :: mem_redis where
  "demo_locked = mr_put ''bot:lock:p2p:ou_1'' ''78'' (60 * sec) mr_empty"

lemma demo_acquire:
  "RedisLocker_TryAcquire mr_client (SessionKey (demo_message t)) LockTTL (Inr ''x'') mr_empty = (demo_locked, Inr (Some ''78''))"
  by (simp add: RedisLocker_TryAcquire_def randomToken_def hex_encode_def hex_digit_def SessionKey_def demo_message_def
      mr_client_def mr_view_def mr_empty_def lockRedisKey_def demo_locked_def LockTTL_def)

lemma demo_turn:
  "\<exists>w f e. Handle demo_handler demo_handle_env (Some (demo_message ''hi'')) mr_empty 0 = Some ((w, f), e)"
proof -
  have "hdTryAcquire demo_handler (SessionKey (demo_message ''hi'')) LockTTL mr_empty = (demo_locked, Inr (Some ''78''))"
    using demo_acquire by (simp add: demo_handler_def)
  moreover have "\<exists>w f e. locked_turn demo_handler demo_handle_env (demo_message ''hi'') demo_locked 0 = Some ((w, f), e)"
    by (auto simp: locked_turn_def demo_handler_def RedisStore_Get_def NewRedisStore_def mr_client_def llm_Resolve_def
        llm_Default_def split: get_reply.splits option.splits)
  moreover have "evChatType (demo_message ''hi'') = ''p2p''" "evTextOf (demo_message ''hi'') = ''hi''"
    by (simp_all add: demo_message_def)
  ultimately show ?thesis by (auto simp: Handle_def demo_dispatch)
qed

theorem turn_releases_lock_witness:
  "\<exists>w f e. Handle demo_handler demo_handle_env (Some (demo_message ''hi'')) mr_empty 0 = Some ((w, f), e) \<and>
     lock_owner mr_view w (SessionKey (demo_message ''hi'')) \<noteq> Some ''78''"
proof -
  obtain w f e where h: "Handle demo_handler demo_handle_env (Some (demo_message ''hi'')) mr_empty 0 = Some ((w, f), e)"
    using demo_turn by blast
  have "lock_owner mr_view w (SessionKey (demo_message ''hi'')) \<noteq> Some ''78''"
    by (rule turn_releases_lock [where rnd = "\<lambda>w. Inr ''x''" and h = demo_handler, OF mr_laws _ _ h _ _ demo_dispatch demo_acquire])
      (simp_all add: demo_handler_def demo_message_def RedisLocker_Release_def mr_client_def split: prod.splits sum.splits)
  with h show ?thesis by blast
qed

section \<open>Commands\<close>

lemma clear_dispatch:
  assumes "TrimSpace (evTextOf ev) = ''/clear''" "evChatType ev = ''p2p'' \<or> evMentionedBot ev"
    and "Handle h env (Some ev) w f = Some ((w', f'), e)"
  shows "w' = fst (hdDelete h (SessionKey ev) w)"
proof -
  have ne: "evTextOf ev \<noteq> []" using assms(1) by auto
  have "fst (dispatchCommand h (heNow env) ev w) = fst (hdDelete h (SessionKey ev) w)"
    "\<exists>t. snd (dispatchCommand h (heNow env) ev w) = Some t"
    using assms(1) by (auto simp: dispatchCommand_def IsCommand_def split: prod.splits option.splits)
  then obtain t where "dispatchCommand h (heNow env) ev w = (fst (hdDelete h (SessionKey ev) w), Some t)"
    by (metis prod.collapse)
  with assms(2,3) ne show ?thesis by (auto simp: Handle_def split: if_splits prod.splits)
qed

text \<open>C37 The command \<open>/clear\<close> forgets the session of the sender, or nothing when the store reports an error;
  it touches no other session and no lock, and takes no lock.\<close>
theorem clear_forgets_one_session:
  assumes laws: "redis_laws (rsRdb st) view" and wiring: "hdDelete h = RedisStore_Delete st"
    and "TrimSpace (evTextOf ev) = ''/clear''" "evChatType ev = ''p2p'' \<or> evMentionedBot ev"
    and "Handle h env (Some ev) w f = Some ((w', f'), e)"
  shows "lock_owner view w' = lock_owner view w \<and>
    (redis_held view w' = (redis_held view w)(SessionKey ev := None) \<or>
     snd (RedisStore_Delete st (SessionKey ev) w) \<noteq> None \<and> redis_held view w' = redis_held view w)"
proof -
  have w': "w' = fst (RedisStore_Delete st (SessionKey ev) w)"
    using clear_dispatch [OF assms(3-5)] wiring by simp
  obtain w1 r where d: "rcDel (rsRdb st) (sessionRedisKey (SessionKey ev)) w = (w1, r)" by fastforce
  have w1: "w' = w1" "snd (RedisStore_Delete st (SessionKey ev) w) = None \<longleftrightarrow> r = None"
    using w' d by (auto simp: RedisStore_Delete_def split: option.splits)
  have "lock_owner view w1 = lock_owner view w"
    using redis_del [OF laws d] by (auto simp: lock_owner_def fun_eq_iff)
  with redis_del [OF laws d] w1 show ?thesis by (auto dest: redis_held_del redis_held_same)
qed

lemma TrimSpace_clear: "TrimSpace ''/clear'' = ''/clear''"
  by code_simp

theorem clear_forgets_one_session_witness:
  "\<exists>w f e. Handle demo_handler demo_handle_env (Some (demo_message ''/clear'')) mr_empty 0 = Some ((w, f), e) \<and>
     lock_owner mr_view w = lock_owner mr_view mr_empty"
proof -
  have del: "hdDelete demo_handler = RedisStore_Delete (NewRedisStore mr_client 0)" by (simp add: demo_handler_def)
  have "\<exists>w f e. Handle demo_handler demo_handle_env (Some (demo_message ''/clear'')) mr_empty 0 = Some ((w, f), e)"
    by (auto simp: Handle_def demo_message_def dispatchCommand_def TrimSpace_clear IsCommand_def demo_handler_def
        split: prod.splits option.splits)
  then obtain w f e where h: "Handle demo_handler demo_handle_env (Some (demo_message ''/clear'')) mr_empty 0 = Some ((w, f), e)"
    by blast
  with clear_forgets_one_session [OF _ del _ _ h, of mr_view] mr_laws show ?thesis
    by (auto simp: NewRedisStore_def TrimSpace_clear demo_message_def)
qed

section \<open>A whole turn\<close>

lemma apply_all_text: "stText (apply_all evs s) = stText s @ texts_of EventTextDelta (map snd evs)"
proof (induction evs arbitrary: s)
  case (Cons x evs)
  obtain now ev where "x = (now, ev)" by (cases x)
  with Cons show ?case by (simp add: apply_all_Cons Apply_text texts_of_def)
qed (simp add: texts_of_def)

lemma Apply_stamps [simp]:
  "stTraceID (fst (Apply now ev s)) = stTraceID s" "stModel (fst (Apply now ev s)) = stModel s"
  using end_tool_fst [of now ev s]
  by (auto simp: Apply_def start_tool_def Let_def split: stream_event_type.split option.split)

lemma apply_all_stamps [simp]:
  "stTraceID (apply_all evs s) = stTraceID s" "stModel (apply_all evs s) = stModel s"
proof (induction evs arbitrary: s)
  case (Cons x evs)
  obtain now ev where x: "x = (now, ev)" by (cases x)
  {
    case 1
    with Cons x show ?case by (simp add: apply_all_Cons)
  next
    case 2
    with Cons x show ?case by (simp add: apply_all_Cons)
  }
qed simp_all

text \<open>The agent of a turn and its run.\<close>

definition turn_run ::
  "('w, 'f) handler \<Rightarrow> handle_env \<Rightarrow> message_event \<Rightarrow> session \<Rightarrow> 'w provider \<Rightarrow> 'w \<Rightarrow> 'w run_state \<times> go_error option" where
  "turn_run h env ev sess prov w =
     Run ((NewAgent prov (hdRegistry h) (Some (hdSave h)))\<lparr>agThinking := True\<rparr>)
       ((heRun env)\<lparr>reCaller := evSenderOpenID ev\<rparr>) sess (evTextOf ev) w"

lemma run_turn_Some:
  assumes "run_turn h env ev sess prov mid w f = Some ((w', f'), e)"
    and "turn_run h env ev sess prov w = (st, runErr)"
  obtains fs ferr where
    "Feed (heLib env) (msPatch (hdSender h) mid) (heFeed env (rsOut st)) (turn_renderer env prov) f = Some (fs, FeedReturned ferr)"
    "finish_turn h (heLib env) mid runErr (fdRenderer fs) (fdWorld fs) = Some (f', e)" "w' = rsWorld st"
  using assms unfolding run_turn_def Let_def turn_run_def [symmetric]
  by (auto split: if_splits option.splits prod.splits feed_result.splits)

lemma Stop_Some:
  assumes "Stop lib patch r f = Some (r', f', e)"
  shows "\<exists>body. BuildCardJSON lib (Snapshot (MarkDone (rdState r))) = Some body \<and>
    (f', e) = patch body f \<and> rdState r' = MarkDone (rdState r)"
  using assms by (auto simp: Stop_def Let_def split: option.splits)

lemma MarkDone_text [simp]: "stText (MarkDone s) = stText s" "stTraceID (MarkDone s) = stTraceID s"
  by (simp_all add: MarkDone_def)

lemma SplitLongBody_cong: "stText (rdState a) = stText (rdState b) \<Longrightarrow> SplitLongBody a = SplitLongBody b"
  by (simp add: SplitLongBody_def)

text \<open>The renderer of a state with the given text: what the long reply is split from.\<close>

definition text_renderer :: "string \<Rightarrow> renderer" where
  "text_renderer t = (render_New 0)\<lparr>rdState := (NewState 0)\<lparr>stText := t\<rparr>\<rparr>"


section \<open>A turn returns\<close>

text \<open>The renderer receives all the events, between ticks, and then the end of the channel.\<close>

definition feeds_all :: "stream_event list \<Rightarrow> feed_input list \<Rightarrow> bool" where
  "feeds_all evs inputs \<longleftrightarrow>
     (\<exists>xs. inputs = xs @ [EventsClosed] \<and> list_all (\<lambda>i. i = Tick \<or> (\<exists>now ev. i = RecvEvent now ev)) xs) \<and>
     map snd (feed_received inputs) = evs"

lemma feed_flush_built:
  "length (stText (rdState (fdRenderer f))) \<le> 20000 \<Longrightarrow> \<exists>f'. feed_flush lib patch force f = Some f'"
  using small_card_built [of "Snapshot (rdState (fdRenderer f))" lib]
  by (auto simp: feed_flush_def Snapshot_def Let_def split: prod.splits option.splits)

lemma feed_event_built:
  assumes "length (stText (rdState (fdRenderer f))) + length (texts_of EventTextDelta [ev]) \<le> 20000"
  shows "\<exists>f'. feed_event lib patch now ev f = Some f'"
proof -
  obtain s changed where a: "Apply now ev (rdState (fdRenderer f)) = (s, changed)" by fastforce
  have s: "length (stText s) \<le> 20000"
    using assms Apply_text [of now ev "rdState (fdRenderer f)"] a by (auto simp: texts_of_def split: if_splits)
  let ?f1 = "f\<lparr>fdRenderer := (fdRenderer f)\<lparr>rdState := s\<rparr>\<rparr>"
  let ?f2 = "if changed then ?f1\<lparr>fdDirty := True\<rparr> else ?f1"
  let ?first = "evType ev = EventTextDelta \<and> \<not> stThinkingDone (rdState (fdRenderer f))"
  have f2: "rdState (fdRenderer ?f2) = s" by simp
  have "\<exists>f3. (if ?first then feed_flush lib patch True ?f2 else Some ?f2) = Some f3 \<and> rdState (fdRenderer f3) = s"
  proof (cases ?first)
    case True
    obtain f3 where "feed_flush lib patch True ?f2 = Some f3"
      using feed_flush_built [of ?f2 lib patch True] s f2 by auto
    with feed_flush_state [OF this] f2 True show ?thesis by simp
  next
    case False
    with f2 show ?thesis by (simp only: if_False) simp
  qed
  then obtain f3 where f3: "(if ?first then feed_flush lib patch True ?f2 else Some ?f2) = Some f3"
    "rdState (fdRenderer f3) = s" by blast
  obtain f4 where f4: "feed_flush lib patch True f3 = Some f4"
    using feed_flush_built [of f3 lib patch True] s f3(2) by auto
  show ?thesis unfolding feed_event_def Let_def a prod.case f3(1) option.case using f4 by auto
qed

lemma feed_loop_built:
  "list_all (\<lambda>i. i = Tick \<or> (\<exists>now ev. i = RecvEvent now ev)) xs \<Longrightarrow>
   length (stText (rdState (fdRenderer f))) +
     length (texts_of EventTextDelta (map snd (feed_received (xs @ [EventsClosed])))) \<le> 20000 \<Longrightarrow>
   \<exists>f'. feed_loop lib patch (xs @ [EventsClosed]) f = Some (f', FeedReturned None)"
proof (induction xs arbitrary: f)
  case Nil
  then show ?case using feed_flush_built [of f lib patch True] by (auto simp: feed_step_def)
next
  case (Cons i xs)
  then consider "i = Tick" | now ev where "i = RecvEvent now ev" by auto
  then show ?case
  proof cases
    case 1
    obtain g where g: "feed_flush lib patch False f = Some g"
      using feed_flush_built [of f lib patch False] Cons.prems by auto
    with Cons.IH [of g] Cons.prems 1 feed_flush_state [OF g] show ?thesis by (auto simp: feed_step_def)
  next
    case 2
    have split: "texts_of EventTextDelta (ev # es) = texts_of EventTextDelta [ev] @ texts_of EventTextDelta es" for es
      by (simp add: texts_of_def)
    have len: "length (stText (rdState (fdRenderer f))) + length (texts_of EventTextDelta [ev]) +
        length (texts_of EventTextDelta (map snd (feed_received (xs @ [EventsClosed])))) \<le> 20000"
      using Cons.prems(2) by (simp only: 2 append_Cons feed_received.simps list.map snd_conv split [of "map snd _"] length_append)
    obtain g where g: "feed_event lib patch now ev f = Some g"
      using feed_event_built [of f ev lib patch now] len by (meson add_leD1)
    have "stText (rdState (fdRenderer g)) = stText (rdState (fdRenderer f)) @ texts_of EventTextDelta [ev]"
      by (simp add: feed_event_state [OF g] Apply_text texts_of_def)
    then have "length (stText (rdState (fdRenderer g))) +
        length (texts_of EventTextDelta (map snd (feed_received (xs @ [EventsClosed])))) \<le> 20000"
      using len by (simp only: length_append)
    moreover have "list_all (\<lambda>i. i = Tick \<or> (\<exists>now ev. i = RecvEvent now ev)) xs" using Cons.prems(1) by simp
    ultimately obtain f' where "feed_loop lib patch (xs @ [EventsClosed]) g = Some (f', FeedReturned None)"
      using Cons.IH [of g] by blast
    then show ?thesis by (simp add: 2 feed_step_def g)
  qed
qed

lemma Stop_built:
  assumes "length (stText (rdState r)) \<le> 20000"
  shows "\<exists>x. Stop lib patch r f = Some x"
proof -
  have "length (snText (Snapshot (MarkDone (rdState r)))) \<le> 20000"
    using assms by (simp add: Snapshot_def)
  from small_card_built [OF this] show ?thesis by (simp add: Stop_def Let_def)
qed

lemma MarkError_text [simp]: "stText (MarkError msg s) = stText s"
  by (simp add: MarkError_def Let_def)

lemma finish_turn_built:
  assumes "length (stText (rdState r)) \<le> 20000"
  shows "\<exists>x. finish_turn h lib mid runErr r f = Some x"
proof (cases runErr)
  case None
  then show ?thesis using Stop_built [OF assms] by (auto simp: finish_turn_def)
next
  case (Some err)
  have "\<exists>x. Stop lib (msPatch (hdSender h) mid) (r\<lparr>rdState := MarkError (userFacingRunError err) (rdState r)\<rparr>) f = Some x"
    by (rule Stop_built) (use assms in simp)
  then show ?thesis using Some by (auto simp: finish_turn_def)
qed

lemma run_turn_built:
  assumes "turn_run h env ev sess prov w = (st, runErr)"
    and "feeds_all (rsOut st) (heFeed env (rsOut st))" "length (texts_of EventTextDelta (rsOut st)) \<le> 20000"
  shows "\<exists>x. run_turn h env ev sess prov mid w f = Some x"
proof -
  let ?inputs = "heFeed env (rsOut st)"
  obtain xs where xs: "?inputs = xs @ [EventsClosed]" "list_all (\<lambda>i. i = Tick \<or> (\<exists>now ev. i = RecvEvent now ev)) xs"
    "map snd (feed_received ?inputs) = rsOut st"
    using assms(2) by (auto simp: feeds_all_def)
  have len: "length (feed_received ?inputs) = length (rsOut st)" using xs(3) by (metis length_map)
  let ?r = "turn_renderer env prov"
  have r0: "stText (rdState ?r) = []" by (simp add: turn_renderer_def Let_def render_New_def NewState_def)
  obtain fs where fs: "Feed (heLib env) (msPatch (hdSender h) mid) ?inputs ?r f = Some (fs, FeedReturned None)"
    using feed_loop_built [OF xs(2), of "\<lparr>fdRenderer = ?r, fdDirty = False, fdLastSnap = [], fdTicker = rdInterval ?r, fdWorld = f\<rparr>"
        "heLib env" "msPatch (hdSender h) mid"] assms(3) xs r0
    by (auto simp: Feed_def)
  have "stText (rdState (fdRenderer fs)) = texts_of EventTextDelta (rsOut st)"
    using feed_loop_final [OF fs [unfolded Feed_def]] xs(3) r0 by (simp add: apply_all_text)
  with finish_turn_built [of "fdRenderer fs" h "heLib env" mid runErr "fdWorld fs"] assms(3)
  obtain x where "finish_turn h (heLib env) mid runErr (fdRenderer fs) (fdWorld fs) = Some x" by auto
  with fs len assms(1) show ?thesis
    by (simp add: run_turn_def turn_run_def [symmetric] Let_def event_buffer_def)
qed

text \<open>The replies of a handler are short: at most 20000 bytes, from whatever session a turn starts.\<close>

definition replies_short :: "('w, 'f) handler \<Rightarrow> handle_env \<Rightarrow> message_event \<Rightarrow> bool" where
  "replies_short h env ev \<longleftrightarrow>
     (\<forall>al prov sess w. llm_Resolve (hdLLMs h) al = Some prov \<longrightarrow>
        length (texts_of EventTextDelta (rsOut (fst (turn_run h env ev sess prov w)))) \<le> 20000)"


definition down_provider :: "'w provider" where
  "down_provider = \<lparr>provName = ''m'', provStream = (\<lambda>req w. (w, Inl (Errorf ''down'')))\<rparr>"

lemma down_run: "rsOut (fst (Run (NewAgent down_provider reg (Some save)\<lparr>agThinking := t\<rparr>) env sess input w)) = []"
  by (simp add: Run_def Let_def saveSession_def append_messages_def NewAgent_def max_steps_def DefaultMaxSteps_def
      numeral_eq_Suc run_step_def down_provider_def split: prod.splits option.splits)

definition down_handler :: "(mem_redis, nat) handler" where
  "down_handler = demo_handler\<lparr>hdLLMs := \<lparr>lrProviders = [(''m'', down_provider)], lrDefault = ''m''\<rparr>\<rparr>"


text \<open>A run of the handler's agent that answers at once.\<close>

definition hi_provider :: "'w provider" where
  "hi_provider = \<lparr>provName = ''m'', provStream = (\<lambda>req w. (w, Inr [(event EventTextDelta)\<lparr>evText := ''hi''\<rparr>, event EventMessageEnd]))\<rparr>"

definition hi_handler :: "(nat, nat) handler" where
  "hi_handler =
     \<lparr>hdGet = (\<lambda>k w. (w, Inr None)), hdSave = (\<lambda>k s w. (w, Some s, None)), hdDelete = (\<lambda>k w. (w, None)),
      hdTryAcquire = (\<lambda>k t w. (w, Inr (Some ''t''))), hdRelease = (\<lambda>k t w. (w, None)),
      hdSender = hdSender demo_handler, hdRegistry = [],
      hdLLMs = \<lparr>lrProviders = [(''m'', hi_provider)], lrDefault = ''m''\<rparr>, hdDefaultMdl = []\<rparr>"

lemma hi_run: "\<exists>st. turn_run hi_handler demo_handle_env (demo_message ''hi'') sess hi_provider w = (st, None) \<and>
    rsOut st = [(event EventTextDelta)\<lparr>evText := ''hi''\<rparr>, event EventMessageEnd]"
  by (simp add: turn_run_def Run_def Let_def saveSession_def append_messages_def NewAgent_def max_steps_def
      DefaultMaxSteps_def numeral_eq_Suc run_step_def hi_provider_def hi_handler_def on_event_def on_message_end_def
      turn_init_def emit_def collect_calls_def message_zero_def event_def)

lemma demo_feeds: "feeds_all evs (heFeed demo_handle_env evs)"
proof -
  have "feed_received (map (RecvEvent 1) evs @ [EventsClosed]) = map (Pair 1) evs"
    by (induction evs) simp_all
  then show ?thesis
    by (auto simp: feeds_all_def demo_handle_env_def list_all_iff comp_def intro!: exI [of _ "map (RecvEvent 1) _"])
qed


end
