(* ===== verification/Config.thy ===== *)
theory Config
  imports Json Llm
begin

text \<open>
  internal/config and internal/log: the configuration and its checks, the expansion of environment
  variables in it, the .env file, the log level and the trace identifier. The YAML reader and the
  decoder of the configuration library are parameters; the process environment is a map, the files
  are a function from paths. Where the code prints with \<open>%q\<close>, the quoting is a parameter.
\<close>

section \<open>Dynamic values\<close>

text \<open>
  A value of type \<open>any\<close> as the YAML and JSON decoders build it. \<open>AnyFloat m e\<close> is the finite number
  \<open>m * 2 ^ e\<close>; \<open>AnyOther\<close> stands for the types the program does not look into.
\<close>

datatype go_any =
    AnyNil
  | AnyBool bool
  | AnyInt int
  | AnyInt64 int
  | AnyFloat int int
  | AnyString string
  | AnyList "go_any list"
  | AnyMap "(string \<times> go_any) list"
  | AnyOther string

text \<open>The conversion of a float to \<open>int\<close> truncates; out of range it gives the least integer (amd64).\<close>

definition float_trunc :: "int \<Rightarrow> int \<Rightarrow> int" where
  "float_trunc m e = (if 0 \<le> e then m * 2 ^ nat e else sgn m * (\<bar>m\<bar> div 2 ^ nat (- e)))"

definition float_int :: "int \<Rightarrow> int \<Rightarrow> int" where
  "float_int m e =
     (let i = float_trunc m e in if - (2 ^ 63) \<le> i \<and> i < 2 ^ 63 then i else - (2 ^ 63))"

section \<open>The environment\<close>

definition LookupEnv :: "string gomap \<Rightarrow> string \<Rightarrow> string option" where
  "LookupEnv env k = map_of env k"

definition Getenv :: "string gomap \<Rightarrow> string \<Rightarrow> string" where
  "Getenv env k = (case LookupEnv env k of None \<Rightarrow> [] | Some v \<Rightarrow> v)"

definition Setenv :: "string gomap \<Rightarrow> string \<Rightarrow> string \<Rightarrow> go_error + string gomap" where
  "Setenv env k v =
     (if k = [] \<or> CHR ''='' \<in> set k \<or> CHR 0x00 \<in> set k \<or> CHR 0x00 \<in> set v
      then Inl (Wrapf ''setenv'' (Errorf ''invalid argument'')) else Inr (AList.update k v env))"

text \<open>\<open>os.ExpandEnv\<close>: the name after a dollar sign and how many bytes it takes.\<close>

definition is_special :: "char \<Rightarrow> bool" where
  "is_special c \<longleftrightarrow> c \<in> set ''*#$@!?-'' \<or> is_digit c"

definition is_name_char :: "char \<Rightarrow> bool" where
  "is_name_char c \<longleftrightarrow> c = CHR ''_'' \<or> is_digit c \<or> (97 \<le> byte c \<and> byte c \<le> 122) \<or> (65 \<le> byte c \<and> byte c \<le> 90)"

definition getShellName :: "string \<Rightarrow> string \<times> nat" where
  "getShellName s =
     (case s of
        [] \<Rightarrow> ([], 0)
      | c # r \<Rightarrow>
          if c = CHR ''{'' then
            (if 2 < length s \<and> is_special (r ! 0) \<and> r ! 1 = CHR ''}'' then ([r ! 0], 3)
             else let n = takeWhile (\<lambda>x. x \<noteq> CHR ''}'') r
                  in if length n = length r then ([], 1)
                     else if n = [] then ([], 2) else (n, length n + 2))
          else if is_special c then ([c], 1)
          else let n = takeWhile is_name_char s in (n, length n))"

function ExpandEnv :: "string gomap \<Rightarrow> string \<Rightarrow> string" where
  "ExpandEnv env [] = []"
| "ExpandEnv env (c # s) =
     (if c = CHR ''$'' \<and> s \<noteq> [] then
        (case getShellName s of (name, w) \<Rightarrow>
          (if name = [] \<and> 0 < w then [] else if name = [] then [c] else Getenv env name)
              @ ExpandEnv env (drop w s))
      else c # ExpandEnv env s)"
  by pat_completeness auto
termination by (relation "measure (\<lambda>(env, s). length s)") auto

declare ExpandEnv.simps(2) [simp del]

section \<open>The configuration (config.go)\<close>

record cfg_server =
  csLogLevel :: string
  csOAuthHTTPAddr :: string
  csPublicBaseURL :: string

record cfg_lark =
  clAppID :: string
  clAppSecret :: string
  clEncryptKey :: string
  clVerificationToken :: string
  clBotOpenID :: string

record cfg_redis =
  crAddr :: string
  crPassword :: string
  crDB :: int
  crSessionTTL :: time

record cfg_profile =
  cpType :: string
  cpModel :: string
  cpAPIKeyEnv :: string
  cpBaseURL :: string
  cpEnableThinking :: bool
  cpMaxTokens :: int
  cpTemperature :: "32 word option"

record cfg_llm =
  cmDefaultProvider :: string
  cmMaxSteps :: int
  cmProviders :: "cfg_profile gomap"

record cfg_mcp =
  ccName :: string
  ccEnabled :: bool
  ccTransport :: string
  ccCommand :: string
  ccArgs :: "string list"
  ccEnv :: "string gomap"
  ccURL :: string
  ccHeaders :: "string gomap"
  ccInitializeTimeout :: time

record cfg_oauth =
  coEncryptionKeyEnv :: string
  coStateKeyEnv :: string
  coScopes :: "string list"

record config =
  cfServer :: cfg_server
  cfLark :: cfg_lark
  cfRedis :: cfg_redis
  cfLLM :: cfg_llm
  cfTools :: "go_any gomap"
  cfMCPServers :: "cfg_mcp list"
  cfOAuth :: cfg_oauth

text \<open>The settings are rebuilt with every string expanded, at any depth; keys are not.\<close>

fun expandValue :: "string gomap \<Rightarrow> go_any \<Rightarrow> go_any" where
  "expandValue env (AnyString s) = AnyString (ExpandEnv env s)"
| "expandValue env (AnyMap m) = AnyMap (map (\<lambda>(k, v). (k, expandValue env v)) m)"
| "expandValue env (AnyList vs) = AnyList (map (expandValue env) vs)"
| "expandValue env v = v"

definition expandMap :: "string gomap \<Rightarrow> go_any gomap \<Rightarrow> go_any gomap" where
  "expandMap env m = map (\<lambda>(k, v). (k, expandValue env v)) m"

definition setDefaults :: "(string \<times> go_any) list" where
  "setDefaults =
     [(''server.log_level'', AnyString ''info''), (''server.oauth_http_addr'', AnyString ''127.0.0.1:8080''),
      (''redis.addr'', AnyString ''localhost:6379''), (''redis.db'', AnyInt 0),
      (''redis.session_ttl'', AnyInt64 (24 * 3600 * sec)), (''llm.max_steps'', AnyInt 12)]"

text \<open>A nil map reads as an empty one.\<close>

definition LookupToolMap :: "go_any gomap \<Rightarrow> string \<Rightarrow> go_any gomap" where
  "LookupToolMap m key = (case map_of m key of Some (AnyMap out) \<Rightarrow> out | _ \<Rightarrow> [])"

definition StringValue :: "go_any gomap \<Rightarrow> string \<Rightarrow> string \<Rightarrow> string" where
  "StringValue m key fallback =
     (case map_of m key of Some (AnyString v) \<Rightarrow> if v = [] then fallback else v | _ \<Rightarrow> fallback)"

definition IntValue :: "go_any gomap \<Rightarrow> string \<Rightarrow> int \<Rightarrow> int" where
  "IntValue m key fallback =
     (case map_of m key of
        Some (AnyInt v) \<Rightarrow> v
      | Some (AnyInt64 v) \<Rightarrow> v
      | Some (AnyFloat a b) \<Rightarrow> float_int a b
      | _ \<Rightarrow> fallback)"

definition validate :: "(string \<Rightarrow> string) \<Rightarrow> config \<Rightarrow> go_error option" where
  "validate quote c =
     (if clAppID (cfLark c) = [] \<or> clAppSecret (cfLark c) = []
      then Some (Errorf ''lark.app_id and lark.app_secret are required'')
      else if clBotOpenID (cfLark c) = [] then Some (Errorf ''lark.bot_open_id is required (used to detect @-mentions)'')
      else if crAddr (cfRedis c) = [] then Some (Errorf ''redis.addr is required'')
      else if cmDefaultProvider (cfLLM c) = [] then Some (Errorf ''llm.default_provider is required'')
      else if map_of (cmProviders (cfLLM c)) (cmDefaultProvider (cfLLM c)) = None
      then Some (Errorf (''llm.default_provider '' @ quote (cmDefaultProvider (cfLLM c))
          @ '' is not in llm.providers''))
      else if csPublicBaseURL (cfServer c) = []
      then Some (Errorf ''server.public_base_url is required (used to build OAuth redirect_uri)'')
      else None)"

text \<open>
  The configuration library: reading the settings of a file, and decoding the settings, the values
  set over them and the defaults into the structure.
\<close>

record viper_lib =
  vpRead :: "string \<Rightarrow> go_error + go_any gomap"
  vpUnmarshal :: "go_any gomap \<Rightarrow> go_any gomap \<Rightarrow> (string \<times> go_any) list \<Rightarrow> go_error + config"

definition Load :: "(string \<Rightarrow> string) \<Rightarrow> viper_lib \<Rightarrow> string gomap \<Rightarrow> string \<Rightarrow> go_error + config" where
  "Load quote vp env path =
     (case vpRead vp path of
        Inl err \<Rightarrow> Inl (Wrapf (''read config '' @ quote path) err)
      | Inr settings \<Rightarrow>
          (case vpUnmarshal vp settings (expandMap env settings) setDefaults of
             Inl err \<Rightarrow> Inl (Wrapf ''unmarshal config'' err)
           | Inr cfg \<Rightarrow>
               (case validate quote cfg of
                  Some err \<Rightarrow> Inl (Wrapf ''config invalid'' err)
                | None \<Rightarrow> Inr cfg)))"

section \<open>Log level and trace identifier (log.go)\<close>

datatype log_level = LevelDebug | LevelInfo | LevelWarn | LevelError

definition ParseLevel :: "string \<Rightarrow> log_level" where
  "ParseLevel s =
     (if s = ''debug'' \<or> s = ''DEBUG'' then LevelDebug
      else if s = ''warn'' \<or> s = ''warning'' \<or> s = ''WARN'' then LevelWarn
      else if s = ''error'' \<or> s = ''ERROR'' then LevelError
      else LevelInfo)"

text \<open>\<open>rnd\<close> is what is in the buffer of eight bytes after the call of \<open>rand.Read\<close>, whose error is ignored.\<close>

definition NewTraceID :: "string \<Rightarrow> string" where
  "NewTraceID rnd = hex_encode (take 8 rnd)"

section \<open>Quoted values (dotenv.go)\<close>

text \<open>\<open>strconv.UnquoteChar\<close> for the double quote: the bytes of the character and the rest.\<close>

fun read_digits :: "(char \<Rightarrow> nat option) \<Rightarrow> nat \<Rightarrow> nat \<Rightarrow> nat \<Rightarrow> string \<Rightarrow> (nat \<times> string) option" where
  "read_digits dig b 0 acc s = Some (acc, s)"
| "read_digits dig b (Suc n) acc [] = None"
| "read_digits dig b (Suc n) acc (c # s) =
     (case dig c of None \<Rightarrow> None | Some d \<Rightarrow> read_digits dig b n (acc * b + d) s)"

definition oct_val :: "char \<Rightarrow> nat option" where
  "oct_val c = (if 48 \<le> byte c \<and> byte c \<le> 55 then Some (byte c - 48) else None)"

definition valid_rune :: "nat \<Rightarrow> bool" where
  "valid_rune r \<longleftrightarrow> r < 0xD800 \<or> (0xDFFF < r \<and> r \<le> 0x10FFFF)"

definition unquote_escape :: "char \<Rightarrow> string \<Rightarrow> (string \<times> string) option" where
  "unquote_escape e s =
     (if e = CHR ''a'' then Some ([CHR 0x07], s)
      else if e = CHR ''b'' then Some ([CHR 0x08], s)
      else if e = CHR ''f'' then Some ([CHR 0x0C], s)
      else if e = CHR ''n'' then Some ([CHR 0x0A], s)
      else if e = CHR ''r'' then Some ([CHR 0x0D], s)
      else if e = CHR ''t'' then Some ([CHR 0x09], s)
      else if e = CHR ''v'' then Some ([CHR 0x0B], s)
      else if e = CHR ''x'' then map_option (\<lambda>(v, r). ([char_of v], r)) (read_digits hex_val 16 2 0 s)
      else if e = CHR ''u'' \<or> e = CHR ''U'' then
        (case read_digits hex_val 16 (if e = CHR ''u'' then 4 else 8) 0 s of
           None \<Rightarrow> None
         | Some (v, r) \<Rightarrow> if valid_rune v then Some (utf8_enc v, r) else None)
      else if oct_val e \<noteq> None then
        (case read_digits oct_val 8 2 (the (oct_val e)) s of
           None \<Rightarrow> None
         | Some (v, r) \<Rightarrow> if 255 < v then None else Some ([char_of v], r))
      else if e = BS \<or> e = DQ then Some ([e], s)
      else None)"

definition unquote_char :: "string \<Rightarrow> (string \<times> string) option" where
  "unquote_char s =
     (case s of
        [] \<Rightarrow> None
      | c # r \<Rightarrow>
          if c = DQ \<or> c = CHR 0x0A then None
          else if 0x80 \<le> byte c then (case decode_rune s of (v, n) \<Rightarrow> Some (utf8_enc v, drop n s))
          else if c \<noteq> BS then Some ([c], r)
          else (case r of [] \<Rightarrow> None | e # s' \<Rightarrow> unquote_escape e s'))"

text \<open>The body of a quoted string, up to the closing quote, which must be the last byte; a character takes a byte at least.\<close>

fun unquote_body :: "nat \<Rightarrow> string \<Rightarrow> string option" where
  "unquote_body 0 s = None"
| "unquote_body (Suc n) s =
     (if s = [DQ] then Some []
      else case unquote_char s of
          None \<Rightarrow> None
        | Some (x, r) \<Rightarrow> map_option (\<lambda>y. x @ y) (unquote_body n r))"

definition Unquote :: "string \<Rightarrow> string option" where
  "Unquote s = (if 2 \<le> length s \<and> hd s = DQ then unquote_body (length s) (drop 1 s) else None)"

section \<open>The .env file (dotenv.go)\<close>

abbreviation SQ :: char where "SQ \<equiv> CHR 0x27"

text \<open>From the byte after the opening quote; a backslash hides the byte after it.\<close>

fun closing_quote :: "string \<Rightarrow> nat option" where
  "closing_quote [] = None"
| "closing_quote (c # s) =
     (if c = BS then (case s of [] \<Rightarrow> None | e # s' \<Rightarrow> map_option (\<lambda>i. i + 2) (closing_quote s'))
      else if c = DQ then Some 0
      else map_option Suc (closing_quote s))"

definition findClosingDoubleQuote :: "string \<Rightarrow> nat option" where
  "findClosingDoubleQuote raw =
     map_option Suc (closing_quote (drop 1 raw))"

definition validateDotenvTail :: "(string \<Rightarrow> string) \<Rightarrow> string \<Rightarrow> go_error option" where
  "validateDotenvTail quote tail0 =
     (let t = TrimSpace tail0
      in if t = [] \<or> HasPrefix t ''#'' then None
         else Some (Errorf (''unexpected trailing content '' @ quote t)))"

definition parseDotenvValue :: "(string \<Rightarrow> string) \<Rightarrow> string \<Rightarrow> go_error + string" where
  "parseDotenvValue quote raw =
     (case raw of
        [] \<Rightarrow> Inr []
      | c # r \<Rightarrow>
          if c = SQ then
            (case Index r [SQ] of
               None \<Rightarrow> Inl (Errorf ''unterminated single-quoted value'')
             | Some i \<Rightarrow>
                 (case validateDotenvTail quote (drop (Suc i) r) of
                    Some err \<Rightarrow> Inl err
                  | None \<Rightarrow> Inr (take i r)))
          else if c = DQ then
            (case findClosingDoubleQuote raw of
               None \<Rightarrow> Inl (Errorf ''unterminated double-quoted value'')
             | Some end_ \<Rightarrow>
                 (case Unquote (take (end_ + 1) raw) of
                    None \<Rightarrow> Inl (Errorf ''invalid syntax'')
                  | Some v \<Rightarrow>
                      (case validateDotenvTail quote (drop (end_ + 1) raw) of
                         Some err \<Rightarrow> Inl err
                       | None \<Rightarrow> Inr v)))
          else Inr (TrimSpace (case Index raw '' #'' of Some i \<Rightarrow> take i raw | None \<Rightarrow> raw)))"

text \<open>
  The lines a \<open>bufio.Scanner\<close> gives: without the final empty one and without a carriage return at the
  end; it stops with an error at a line of 64 KB.
\<close>

definition drop_cr :: "string \<Rightarrow> string" where
  "drop_cr l = (if l \<noteq> [] \<and> last l = CHR 0x0D then butlast l else l)"

definition scan_lines :: "string \<Rightarrow> string list \<times> go_error option" where
  "scan_lines content =
     (let ls = Split content NL;
          raw = (if last ls = [] then butlast ls else ls);
          ok = takeWhile (\<lambda>l. length l < 65536) raw
      in (map drop_cr ok, if length ok < length raw then Some (Errorf ''bufio.Scanner: token too long'') else None))"

text \<open>One line: the environment after it, and the error that ends the file.\<close>

definition load_line ::
  "(string \<Rightarrow> string) \<Rightarrow> string \<Rightarrow> nat \<Rightarrow> string \<Rightarrow> string gomap \<Rightarrow> string gomap \<times> go_error option" where
  "load_line quote path n text0 env =
     (let line0 = TrimSpace text0; at = ''parse '' @ quote path @ '':'' @ dec_nat n
      in if line0 = [] \<or> HasPrefix line0 ''#'' then (env, None)
         else let line = (if HasPrefix line0 ''export '' then TrimSpace (TrimPrefix line0 ''export '') else line0)
              in case Cut line ''='' of
                   None \<Rightarrow> (env, Some (Errorf (at @ '': missing '' @ [SQ] @ ''='' @ [SQ])))
                 | Some (key0, raw) \<Rightarrow>
                     (let key = TrimSpace key0
                      in if key = [] then (env, Some (Errorf (at @ '': empty key'')))
                         else if CHR '' '' \<in> set key \<or> CHR 0x09 \<in> set key
                         then (env, Some (Errorf (at @ '': invalid key '' @ quote key)))
                         else if LookupEnv env key \<noteq> None then (env, None)
                         else case parseDotenvValue quote (TrimSpace raw) of
                             Inl err \<Rightarrow> (env, Some (Wrapf at err))
                           | Inr v \<Rightarrow>
                               (case Setenv env key v of
                                  Inl err \<Rightarrow>
                                    (env, Some (Wrapf (''set env '' @ quote key @ '' from '' @ quote path) err))
                                | Inr env' \<Rightarrow> (env', None))))"

fun load_lines ::
  "(string \<Rightarrow> string) \<Rightarrow> string \<Rightarrow> nat \<Rightarrow> string list \<Rightarrow> string gomap \<Rightarrow> string gomap \<times> go_error option" where
  "load_lines quote path n [] env = (env, None)"
| "load_lines quote path n (l # ls) env =
     (case load_line quote path n l env of
        (env', Some err) \<Rightarrow> (env', Some err)
      | (env', None) \<Rightarrow> load_lines quote path (Suc n) ls env')"

text \<open>What \<open>os.Stat\<close> finds at a path; a regular file is opened and read, or not.\<close>

datatype file_info = NotExist | StatError go_error | Directory | RegularFile "go_error + string"

definition loadDotenvFile ::
  "(string \<Rightarrow> string) \<Rightarrow> string \<Rightarrow> go_error + string \<Rightarrow> string gomap \<Rightarrow> string gomap \<times> go_error option" where
  "loadDotenvFile quote path opened env =
     (case opened of
        Inl err \<Rightarrow> (env, Some (Wrapf (''open '' @ quote path) err))
      | Inr content \<Rightarrow>
          (case scan_lines content of (ls, serr) \<Rightarrow>
            (case load_lines quote path 1 ls env of
               (env', Some err) \<Rightarrow> (env', Some err)
             | (env', None) \<Rightarrow> (env', map_option (Wrapf (''scan '' @ quote path)) serr))))"

text \<open>
  \<open>filepath.Clean\<close> by path elements: empty ones and \<open>.\<close> are dropped, \<open>..\<close> takes away the element
  before it, is dropped at the root, and stays at the start of a relative path.
\<close>

definition clean_step :: "bool \<Rightarrow> string list \<Rightarrow> string \<Rightarrow> string list" where
  "clean_step rooted out e =
     (if e = [] \<or> e = ''.'' then out
      else if e \<noteq> ''..'' then out @ [e]
      else if out \<noteq> [] \<and> last out \<noteq> ''..'' then butlast out
      else if rooted then out else out @ [e])"

definition Clean :: "string \<Rightarrow> string" where
  "Clean path =
     (let rooted = HasPrefix path ''/'';
          body = Join (foldl (clean_step rooted) [] (Split path ''/'')) ''/''
      in if rooted then ''/'' @ body else if body = [] then ''.'' else body)"

definition Dir :: "string \<Rightarrow> string" where
  "Dir path = Clean (rev (dropWhile (\<lambda>c. c \<noteq> CHR ''/'') (rev path)))"

definition path_join :: "string list \<Rightarrow> string" where
  "path_join elems =
     (let es = dropWhile (\<lambda>e. e = []) elems in if es = [] then [] else Clean (Join es ''/''))"

definition DotenvCandidatePaths :: "string \<Rightarrow> string list" where
  "DotenvCandidatePaths configPath =
     (if configPath = [] then [''.env'']
      else [''.env'', path_join [Dir configPath, ''.env''], path_join [Dir configPath, ''..'', ''.env'']])"

fun load_first ::
  "(string \<Rightarrow> string) \<Rightarrow> (string \<Rightarrow> file_info) \<Rightarrow> string list \<Rightarrow> string list \<Rightarrow> string gomap \<Rightarrow>
   string gomap \<times> (go_error + string)" where
  "load_first quote fs seen [] env = (env, Inr [])"
| "load_first quote fs seen (path # paths) env =
     (if path = [] \<or> Clean path \<in> set seen then load_first quote fs seen paths env
      else let clean = Clean path
           in case fs clean of
                NotExist \<Rightarrow> load_first quote fs (clean # seen) paths env
              | StatError err \<Rightarrow> (env, Inl (Wrapf (''stat '' @ quote clean) err))
              | Directory \<Rightarrow> load_first quote fs (clean # seen) paths env
              | RegularFile opened \<Rightarrow>
                  (case loadDotenvFile quote clean opened env of
                     (env', Some err) \<Rightarrow> (env', Inl err)
                   | (env', None) \<Rightarrow> (env', Inr clean)))"

definition LoadDotenvIfExists ::
  "(string \<Rightarrow> string) \<Rightarrow> (string \<Rightarrow> file_info) \<Rightarrow> string list \<Rightarrow> string gomap \<Rightarrow> string gomap \<times> (go_error + string)" where
  "LoadDotenvIfExists quote fs paths env = load_first quote fs [] paths env"

section \<open>What the environment keeps\<close>

definition env_extends :: "string gomap \<Rightarrow> string gomap \<Rightarrow> bool" where
  "env_extends env env' \<longleftrightarrow> (\<forall>k v. LookupEnv env k = Some v \<longrightarrow> LookupEnv env' k = Some v)"

lemma env_extends_refl [simp]: "env_extends env env"
  by (simp add: env_extends_def)

lemma env_extends_trans: "env_extends a b \<Longrightarrow> env_extends b c \<Longrightarrow> env_extends a c"
  by (simp add: env_extends_def)

lemma Setenv_Inr: "Setenv env k v = Inr env' \<Longrightarrow> env' = AList.update k v env"
  by (simp add: Setenv_def split: if_splits)

lemma Setenv_extends:
  "LookupEnv env k = None \<Longrightarrow> Setenv env k v = Inr env' \<Longrightarrow> env_extends env env'"
  by (drule Setenv_Inr) (simp add: env_extends_def LookupEnv_def update_conv)

lemma load_line_extends: "env_extends env (fst (load_line quote path n l env))"
proof -
  have binding: "env_extends env (fst (if LookupEnv env key \<noteq> None then (env, None)
      else case parse of Inl err \<Rightarrow> (env, e1 err)
        | Inr v \<Rightarrow> (case Setenv env key v of Inl err \<Rightarrow> (env, e2 err) | Inr env' \<Rightarrow> (env', None))))"
    for key parse e1 e2
    by (simp split: sum.split) (blast intro: Setenv_extends)
  show ?thesis
    unfolding load_line_def Let_def
    by (simp only: fst_conv env_extends_refl binding split: if_split option.split prod.split) simp
qed

lemma load_lines_extends: "env_extends env (fst (load_lines quote path n ls env))"
proof (induction ls arbitrary: n env)
  case (Cons l ls)
  have "env_extends env (fst (load_line quote path n l env))" by (rule load_line_extends)
  then show ?case
    using Cons.IH by (auto split: prod.splits option.splits intro: env_extends_trans)
qed simp

lemma loadDotenvFile_extends: "env_extends env (fst (loadDotenvFile quote path opened env))"
proof -
  have "env_extends env (fst (load_lines quote path 1 ls env))" for ls by (rule load_lines_extends)
  then show ?thesis
    unfolding loadDotenvFile_def by (simp split: sum.splits prod.splits option.splits) (metis fst_conv)
qed

lemma load_first_extends: "env_extends env (fst (load_first quote fs seen paths env))"
proof (induction paths arbitrary: seen)
  case (Cons path paths)
  have "env_extends env (fst (loadDotenvFile quote (Clean path) opened env))" for opened
    by (rule loadDotenvFile_extends)
  then show ?case
    using Cons.IH by (auto simp: Let_def split: file_info.splits prod.splits option.splits) (metis fst_conv)+
qed simp

text \<open>C29 Loading a .env file never changes a variable that is already set, whatever the candidate files hold and
  also when the file is found to be malformed after some of its lines have been taken over.\<close>
theorem existing_env_wins:
  assumes "LookupEnv env k = Some v"
  shows "LookupEnv (fst (LoadDotenvIfExists quote fs paths env)) k = Some v"
  using assms load_first_extends [of env quote fs "[]" paths] by (simp add: LoadDotenvIfExists_def env_extends_def)

theorem existing_env_wins_witness:
  "LookupEnv (fst (LoadDotenvIfExists (\<lambda>s. s) (\<lambda>_. RegularFile (Inr ''A=x'')) [''.env''] [(''A'', ''y'')])) ''A'' = Some ''y''"
  by (rule existing_env_wins) (simp add: LookupEnv_def)

section \<open>Writing and loading a file\<close>

definition ascii_solid :: "char \<Rightarrow> bool" where
  "ascii_solid c \<longleftrightarrow> 32 < byte c \<and> byte c < 128"

lemma ws_heads: "\<forall>w \<in> set ws_runes. \<not> ascii_solid (hd w) \<and> w \<noteq> []" "\<forall>w \<in> set (map rev ws_runes). \<not> ascii_solid (hd w) \<and> w \<noteq> []"
  by code_simp+

lemma solid_no_tok:
  assumes "\<forall>w \<in> set ws. \<not> ascii_solid (hd w) \<and> w \<noteq> []" "ascii_solid c"
  shows "tok_len ws (c # s) = 0"
proof -
  have "\<not> HasPrefix (c # s) w" if "w \<in> set ws" for w
    using assms that by (cases w) auto
  moreover have "[] \<notin> set ws" using assms(1) by auto
  ultimately show ?thesis by (simp add: tok_len_0_iff)
qed

lemma TrimSpace_solid:
  assumes "s \<noteq> []" "ascii_solid (hd s)" "ascii_solid (last s)"
  shows "TrimSpace s = s"
proof -
  obtain c t where s: "s = c # t" using assms(1) by (cases s) auto
  have "strip_toks ws_runes s = s"
    using solid_no_tok [OF ws_heads(1), of c t] assms(2) by (simp add: s strip_toks_id)
  moreover obtain d u where r: "rev s = d # u" using assms(1) by (cases "rev s") auto
  then have "last s = d" by (metis last_rev list.sel(1) rev_rev_ident list.discI)
  then have "strip_toks (map rev ws_runes) (rev s) = rev s"
    using solid_no_tok [OF ws_heads(2), of d u] assms(3) by (simp add: r strip_toks_id)
  ultimately show ?thesis by (simp add: TrimSpace_def)
qed

lemma split_aux_line:
  assumes "CHR 0x0A \<notin> set l"
  shows "split_aux NL cur (l @ CHR 0x0A # s) = (rev cur @ l) # split_aux NL [] s"
  using assms by (induction l arbitrary: cur) (auto simp: HasPrefix_def)

definition dotenv_line :: "string \<times> string \<Rightarrow> string" where
  "dotenv_line p = fst p @ ''='' @ [SQ] @ snd p @ [SQ]"

definition dotenv_text :: "(string \<times> string) list \<Rightarrow> string" where
  "dotenv_text kvs = concat (map (\<lambda>p. dotenv_line p @ NL) kvs)"

definition entry_ok :: "string \<times> string \<Rightarrow> bool" where
  "entry_ok p \<longleftrightarrow> fst p \<noteq> [] \<and> list_all is_name_char (fst p) \<and> SQ \<notin> set (snd p) \<and> CHR 0x0A \<notin> set (snd p) \<and>
     CHR 0x00 \<notin> set (snd p) \<and> length (dotenv_line p) < 65536"

lemma name_char_solid: "is_name_char c \<Longrightarrow> ascii_solid c \<and> c \<noteq> CHR ''='' \<and> c \<noteq> CHR ''#''"
  by (auto simp: is_name_char_def ascii_solid_def is_digit_def)

lemma no_newline: "list_all is_name_char k \<Longrightarrow> CHR 0x0A \<notin> set k"
  using name_char_solid [of "CHR 0x0A"] by (auto simp: list_all_iff ascii_solid_def)

lemma Split_dotenv:
  "list_all entry_ok kvs \<Longrightarrow> Split (dotenv_text kvs) NL = map dotenv_line kvs @ [[]]"
proof (induction kvs)
  case Nil then show ?case by (simp add: dotenv_text_def Split_def)
next
  case (Cons p kvs)
  have "CHR 0x0A \<notin> set (dotenv_line p)"
    using Cons.prems no_newline by (auto simp: entry_ok_def dotenv_line_def)
  then show ?case
    using Cons by (simp add: dotenv_text_def Split_def split_aux_line)
qed

lemma scan_dotenv: "list_all entry_ok kvs \<Longrightarrow> scan_lines (dotenv_text kvs) = (map dotenv_line kvs, None)"
proof -
  assume ok: "list_all entry_ok kvs"
  then have t: "takeWhile (\<lambda>l. length l < 65536) (map dotenv_line kvs) = map dotenv_line kvs"
    by (auto simp only: takeWhile_eq_all_conv list_all_iff entry_ok_def set_map)
  have "map drop_cr (map dotenv_line kvs) = map dotenv_line kvs"
    by (simp add: drop_cr_def dotenv_line_def)
  with t show ?thesis
    by (simp only: scan_lines_def Split_dotenv [OF ok] Let_def last_snoc butlast_snoc if_True simp_thms length_map less_irrefl if_False)
qed

lemma Index_single: "c \<notin> set a \<Longrightarrow> Index (a @ c # b) [c] = Some (length a)"
  by (induction a) auto

lemma parse_single: "SQ \<notin> set v \<Longrightarrow> parseDotenvValue quote (SQ # v @ [SQ]) = Inr v"
  by (simp add: parseDotenvValue_def Index_single validateDotenvTail_def)

lemma load_dotenv_line:
  assumes "entry_ok p"
  shows "load_line quote path n (dotenv_line p) env =
    ((if LookupEnv env (fst p) = None then AList.update (fst p) (snd p) env else env), None)"
proof -
  obtain k v where p: "p = (k, v)" by (cases p)
  obtain c k' where k: "k = c # k'" using assms by (cases k) (auto simp: p entry_ok_def)
  have names: "\<forall>x \<in> set k. ascii_solid x \<and> x \<noteq> CHR ''='' \<and> x \<noteq> CHR ''#''"
    using assms name_char_solid by (auto simp: p entry_ok_def list_all_iff)
  have outside: "\<not> ascii_solid (CHR '' '')" "\<not> ascii_solid (CHR 0x09)" "\<not> ascii_solid (CHR 0x00)"
    by (simp_all add: ascii_solid_def)
  have sq: "ascii_solid SQ" by (simp add: ascii_solid_def)
  have line: "dotenv_line p = k @ CHR ''='' # SQ # v @ [SQ]" by (simp add: dotenv_line_def p)
  have hd_k: "ascii_solid c" "c \<noteq> CHR ''#''" and last_k: "ascii_solid (last k)"
    using names last_in_set [of k] by (simp_all only: k list.set_intros list.distinct not_False_eq_True)
  have trim: "TrimSpace (dotenv_line p) = dotenv_line p" "TrimSpace (SQ # v @ [SQ]) = SQ # v @ [SQ]"
    by (rule TrimSpace_solid; simp add: line k sq hd_k)+
  have tk: "TrimSpace k = k" by (rule TrimSpace_solid) (simp_all add: last_k, simp_all add: k hd_k)
  have "\<not> HasPrefix (dotenv_line p) ''export ''"
  proof
    assume "HasPrefix (dotenv_line p) ''export ''"
    then have t: "dotenv_line p ! i = ''export '' ! i" if "i < 7" for i
      using that unfolding HasPrefix_iff by (elim exE) (simp only: nth_append, simp)
    show False
    proof (cases "6 < length k")
      case True
      then have "k ! 6 = CHR '' ''" using t [of 6] by (simp add: line nth_append)
      moreover have "ascii_solid (k ! 6)" using names nth_mem [OF True] by blast
      ultimately show False by (simp add: ascii_solid_def)
    next
      case False
      then have "''export '' ! length k = CHR ''=''" using t [of "length k"] by (simp add: line)
      moreover have "''export '' ! length k \<in> set ''export ''" using False by (intro nth_mem) simp
      ultimately show False by simp
    qed
  qed
  moreover have "\<not> HasPrefix (dotenv_line p) ''#''" "dotenv_line p \<noteq> []" using hd_k by (simp_all add: line k)
  moreover have eq: "CHR ''='' \<notin> set k" using names by blast
  then have "Cut (dotenv_line p) ''='' = Some (k, SQ # v @ [SQ])"
    by (simp add: Cut_def line Index_single)
  moreover have "CHR '' '' \<notin> set k" "CHR 0x09 \<notin> set k" "CHR 0x00 \<notin> set k"
    using names outside by (blast, blast, blast)
  moreover have "parseDotenvValue quote (SQ # v @ [SQ]) = Inr v" "CHR 0x00 \<notin> set v"
    using assms by (auto simp: p entry_ok_def parse_single)
  moreover have "k \<noteq> []" "fst p = k" "snd p = v" by (simp_all add: k p)
  ultimately show ?thesis
    using eq by (simp add: load_line_def trim tk Let_def Setenv_def)
qed

lemma load_dotenv_lines:
  "list_all entry_ok kvs \<Longrightarrow> \<exists>env'. load_lines quote path n (map dotenv_line kvs) env = (env', None) \<and>
     (\<forall>k. LookupEnv env' k = (case LookupEnv env k of Some v \<Rightarrow> Some v | None \<Rightarrow> map_of kvs k))"
proof (induction kvs arbitrary: n env)
  case Nil then show ?case by (auto split: option.splits)
next
  case (Cons p kvs)
  define env1 where "env1 = (if LookupEnv env (fst p) = None then AList.update (fst p) (snd p) env else env)"
  from Cons obtain env' where e: "load_lines quote path (Suc n) (map dotenv_line kvs) env1 = (env', None)"
    "\<forall>k. LookupEnv env' k = (case LookupEnv env1 k of Some v \<Rightarrow> Some v | None \<Rightarrow> map_of kvs k)" by force
  have "load_line quote path n (dotenv_line p) env = (env1, None)"
    using Cons.prems by (simp add: load_dotenv_line env1_def)
  moreover have "LookupEnv env1 k = (if LookupEnv env k = None \<and> k = fst p then Some (snd p) else LookupEnv env k)" for k
    by (auto simp: env1_def LookupEnv_def update_conv)
  ultimately show ?case
    using e by (cases p) (auto split: option.splits)
qed

text \<open>C30 A file of lines of the form \<open>KEY='value'\<close> is read back as written: each variable that was not set gets
  the value of its first line, the others keep theirs, and nothing else is set.\<close>
theorem dotenv_roundtrip:
  assumes "list_all entry_ok kvs"
  shows "\<exists>env'. loadDotenvFile quote path (Inr (dotenv_text kvs)) env = (env', None) \<and>
    (\<forall>k. LookupEnv env' k = (case LookupEnv env k of Some v \<Rightarrow> Some v | None \<Rightarrow> map_of kvs k))"
proof -
  from load_dotenv_lines [OF assms, of quote path 1 env] obtain env' where
    "load_lines quote path 1 (map dotenv_line kvs) env = (env', None)"
    "\<forall>k. LookupEnv env' k = (case LookupEnv env k of Some v \<Rightarrow> Some v | None \<Rightarrow> map_of kvs k)" by blast
  then show ?thesis by (simp add: loadDotenvFile_def scan_dotenv [OF assms])
qed

theorem dotenv_roundtrip_witness:
  "\<exists>env'. loadDotenvFile (\<lambda>s. s) ''.env'' (Inr (dotenv_text [(''A'', ''x # y''), (''B_1'', ''z'')])) [(''A'', ''w'')] = (env', None) \<and>
    (\<forall>k. LookupEnv env' k = (case LookupEnv [(''A'', ''w'')] k of Some v \<Rightarrow> Some v
      | None \<Rightarrow> map_of [(''A'', ''x # y''), (''B_1'', ''z'')] k))"
  by (rule dotenv_roundtrip) (simp add: entry_ok_def dotenv_line_def is_name_char_def is_digit_def)

end
