(* ===== verification/Context.thy ===== *)
theory Context
  imports Lark Config
begin

text \<open>
  The values a request carries in its context, internal/log/log.go and internal/tool/context.go, and the logger
  that reads one of them. The other theories pass the two values as arguments; here is why they may.
\<close>

section \<open>Values of a context\<close>

text \<open>The two packages use keys of types of their own, so that neither sees the value of the other.\<close>

datatype context_key = traceKey | callerKey

type_synonym ctx = "context_key \<Rightarrow> string option"

definition WithTrace :: "ctx \<Rightarrow> string \<Rightarrow> ctx" where
  "WithTrace c i = c(traceKey \<mapsto> i)"

definition TraceID :: "ctx \<Rightarrow> string" where
  "TraceID c = (case c traceKey of Some v \<Rightarrow> v | None \<Rightarrow> [])"

definition WithCallerOpenID :: "ctx \<Rightarrow> string \<Rightarrow> ctx" where
  "WithCallerOpenID c openID = (if openID = [] then c else c(callerKey \<mapsto> openID))"

definition CallerOpenID :: "ctx \<Rightarrow> string" where
  "CallerOpenID c = (case c callerKey of Some v \<Rightarrow> v | None \<Rightarrow> [])"

section \<open>The logger\<close>

text \<open>\<open>lgWriter\<close> is \<open>None\<close> for stderr; the attributes are those of every line.\<close>

record 'h logger =
  lgWriter :: "'h option"
  lgLevel :: log_level
  lgAttrs :: "(string \<times> string) list"

definition NewLogger :: "'h option \<Rightarrow> log_level \<Rightarrow> 'h logger" where
  "NewLogger w level = \<lparr>lgWriter = w, lgLevel = level, lgAttrs = []\<rparr>"

definition FromContext :: "'h logger \<Rightarrow> ctx \<Rightarrow> 'h logger option \<Rightarrow> 'h logger" where
  "FromContext slogDefault c base =
     (let base' = (case base of None \<Rightarrow> slogDefault | Some b \<Rightarrow> b)
      in if TraceID c \<noteq> [] then base'\<lparr>lgAttrs := lgAttrs base' @ [(''trace_id'', TraceID c)]\<rparr> else base')"

section \<open>The context of a message\<close>

text \<open>The first lines of \<open>Handle\<close>; the context of a message comes from the root one and carries neither value.\<close>

definition turn_context :: "string \<Rightarrow> message_event \<Rightarrow> ctx" where
  "turn_context rnd ev = WithCallerOpenID (WithTrace (\<lambda>_. None) (NewTraceID rnd)) (evSenderOpenID ev)"

text \<open>So a tool reads the sender as its caller also when the sender is empty, and every line of the turn bears
  the identifier that the card shows and the session keeps.\<close>

lemma turn_context_values:
  "TraceID (turn_context rnd ev) = NewTraceID rnd" "CallerOpenID (turn_context rnd ev) = evSenderOpenID ev"
  by (simp_all add: turn_context_def TraceID_def CallerOpenID_def WithTrace_def WithCallerOpenID_def)

lemma turn_logger:
  "lgAttrs (FromContext l (turn_context rnd ev) base) =
     lgAttrs (case base of None \<Rightarrow> l | Some b \<Rightarrow> b) @ (if rnd = [] then [] else [(''trace_id'', NewTraceID rnd)])"
  by (cases rnd) (simp_all add: FromContext_def turn_context_values Let_def NewTraceID_def hex_encode_def)

end
