(* ===== verification/Turns.thy ===== *)
theory Turns
  imports Agent
begin

text \<open>
  The messages of a session through a turn of internal/agent. What a turn keeps depends on what a save does to
  the messages: a store may keep them, as \<open>MemoryStore\<close> does, or trim them, as \<open>RedisStore\<close> does. The locale
  \<open>saved_messages\<close> holds what both have in common; it is interpreted on both.
\<close>

section \<open>Transcripts\<close>

text \<open>
  A complete transcript: every assistant message that calls tools is followed at once by the
  results of its calls, in their order, and there are no other tool messages.
\<close>

definition is_result_of :: "tool_call \<Rightarrow> message \<Rightarrow> bool" where
  "is_result_of c m \<longleftrightarrow> msgRole m = RoleTool \<and> msgToolCallID m = tcID c \<and> msgName m = tcName c"

function transcript :: "message list \<Rightarrow> bool" where
  "transcript [] \<longleftrightarrow> True"
| "transcript (m # ms) \<longleftrightarrow>
     (if msgRole m = RoleAssistant
      then list_all2 is_result_of (msgToolCalls m) (take (length (msgToolCalls m)) ms)
             \<and> transcript (drop (length (msgToolCalls m)) ms)
      else msgRole m \<noteq> RoleTool \<and> transcript ms)"
  by pat_completeness auto
termination by (relation "measure length") auto

lemma transcript_append: "transcript xs \<Longrightarrow> transcript (xs @ ys) = transcript ys"
proof (induction xs rule: transcript.induct)
  case (2 m ms)
  show ?case
  proof (cases "msgRole m = RoleAssistant")
    case True
    let ?n = "length (msgToolCalls m)"
    have l: "list_all2 is_result_of (msgToolCalls m) (take ?n ms)" "transcript (drop ?n ms)"
      using 2(3) True by auto
    then have "?n \<le> length ms" by (auto dest: list_all2_lengthD)
    with 2(1) [OF True l(2)] l True show ?thesis by simp
  next
    case False
    with 2 show ?thesis by auto
  qed
qed simp

lemma transcript_snoc_plain:
  "transcript xs \<Longrightarrow> msgRole m \<noteq> RoleTool \<Longrightarrow> msgRole m = RoleAssistant \<longrightarrow> msgToolCalls m = [] \<Longrightarrow> transcript (xs @ [m])"
  by (simp add: transcript_append)

lemma transcript_batch:
  "transcript xs \<Longrightarrow> msgRole m = RoleAssistant \<Longrightarrow> list_all2 is_result_of (msgToolCalls m) rs \<Longrightarrow>
   transcript (xs @ m # rs)"
  by (frule list_all2_lengthD) (simp add: transcript_append)

lemma results_match:
  "map trID rs = map tcID cs \<Longrightarrow> map trName rs = map tcName cs \<Longrightarrow>
   list_all2 is_result_of cs (map tool_message rs)"
proof -
  assume a: "map trID rs = map tcID cs" "map trName rs = map tcName cs"
  then have l: "length rs = length cs" by (metis length_map)
  have "trID (rs ! i) = tcID (cs ! i) \<and> trName (rs ! i) = tcName (cs ! i)" if "i < length cs" for i
    using that l a by (metis nth_map)
  with l show ?thesis
    by (simp add: list_all2_conv_all_nth is_result_of_def tool_message_def message_zero_def)
qed

section \<open>A message end\<close>

text \<open>Every save of the agent turns the messages into \<open>T\<close> of them.\<close>

definition saves_as :: "(message list \<Rightarrow> message list) \<Rightarrow> 'w agent \<Rightarrow> bool" where
  "saves_as T a \<longleftrightarrow> (\<forall>st st' e. saveSession a st = (st', e) \<longrightarrow> msgs st' = T (msgs st))"

lemma saves_asD: "saves_as T a \<Longrightarrow> saveSession a st = (st', e) \<Longrightarrow> msgs st' = T (msgs st)"
  unfolding saves_as_def by blast

text \<open>The outcomes of a message end.\<close>

lemma on_message_end_cases:
  assumes "on_message_end a env ev st tn = (st', tn', r)" "saves_as T a" "valid_env env"
  shows "tn' = tn\<lparr>tnAsst := final_message tn\<rparr> \<and>
    ((r = Some (Some ErrEmptyAssistantResponse) \<and> msgToolCalls (final_message tn) = [] \<and> TrimSpace (tnText tn) = []
        \<and> msgs st' = msgs st) \<or>
     (\<exists>e. r = Some (Some e) \<and> e \<noteq> ErrMaxStepsReached \<and> msgs st' = T (msgs st @ [final_message tn])) \<or>
     (r = Some None \<and> msgToolCalls (final_message tn) = [] \<and> TrimSpace (tnText tn) \<noteq> []
        \<and> msgs st' = T (msgs st @ [final_message tn])) \<or>
     (msgToolCalls (final_message tn) \<noteq> [] \<and> (r = None \<or> (\<exists>e. r = Some (Some e) \<and> e \<noteq> ErrMaxStepsReached)) \<and>
        (\<exists>rs. list_all2 is_result_of (msgToolCalls (final_message tn)) rs \<and>
              msgs st' = T (T (msgs st @ [final_message tn]) @ rs))))"
proof -
  let ?m = "final_message tn"
  let ?tn = "tn\<lparr>tnAsst := ?m\<rparr>"
  note d = assms(1) [unfolded on_message_end_def Let_def, folded final_message_def]
  obtain st1 e1 where s1: "saveSession a (append_messages [?m] st) = (st1, e1)" by fastforce
  have m1: "msgs st1 = T (msgs st @ [?m])" using saves_asD [OF assms(2) s1] by simp
  show ?thesis
  proof (cases "msgToolCalls ?m = [] \<and> TrimSpace (msgContent ?m) = []")
    case True
    with d show ?thesis by auto
  next
    case ne: False
    show ?thesis
    proof (cases e1)
      case (Some e)
      with d ne s1 m1 show ?thesis by auto
    next
      case None
      show ?thesis
      proof (cases "msgToolCalls ?m = []")
        case True
        with d ne s1 m1 None show ?thesis by auto
      next
        case False
        let ?st3 = "(emit ev st1)\<lparr>rsOut := rsOut (emit ev st1) @ map start_event (msgToolCalls ?m)\<rparr>"
        obtain w' rs evs where x: "execTools a env (reSched env (rsBatch ?st3) (length (msgToolCalls ?m)))
            (msgToolCalls ?m) (rsWorld ?st3) = (w', rs, evs)" by (metis prod_cases3)
        have k: "list_all2 is_result_of (msgToolCalls ?m) (map tool_message rs)"
          using execTools_spec [OF x] assms(3) by (auto simp: valid_env_def intro: results_match)
        let ?st4 = "?st3\<lparr>rsWorld := w', rsOut := rsOut ?st3 @ evs, rsBatch := rsBatch ?st3 + 1\<rparr>"
        obtain st5 e5 where s5: "saveSession a (append_messages (map tool_message rs) ?st4) = (st5, e5)" by fastforce
        have m5: "msgs st5 = T (T (msgs st @ [?m]) @ map tool_message rs)"
          using saves_asD [OF assms(2) s5] m1 by simp
        have "(st', tn', r) = (case e5 of Some e \<Rightarrow> (st5, ?tn, Some (Some (Wrapf ''save session (tools)'' e)))
            | None \<Rightarrow> (st5, ?tn, None))"
          using d ne s1 None False x s5 by (simp split: option.splits)
        then have "tn' = ?tn \<and> msgs st' = T (T (msgs st @ [?m]) @ map tool_message rs) \<and>
            (r = None \<or> (\<exists>e. r = Some (Some e) \<and> e \<noteq> ErrMaxStepsReached))"
          using m5 by (cases e5) auto
        with k False show ?thesis by blast
      qed
    qed
  qed
qed


section \<open>Outcomes of a turn\<close>

text \<open>
  Of the messages \<open>ms\<close> a session may have: \<open>cut_off\<close>, its last message calls tools whose results are missing;
  \<open>replied\<close>, its last message is an answer, assistant text without tool calls.
\<close>

definition cut_off :: "(message list \<Rightarrow> message list) \<Rightarrow> (message list \<Rightarrow> bool) \<Rightarrow> message list \<Rightarrow> bool" where
  "cut_off T whole ms \<longleftrightarrow> (\<exists>xs m. ms = T (xs @ [m]) \<and> whole xs \<and> msgRole m = RoleAssistant)"

definition replied :: "(message list \<Rightarrow> message list) \<Rightarrow> (message list \<Rightarrow> bool) \<Rightarrow> message list \<Rightarrow> bool" where
  "replied T whole ms \<longleftrightarrow> whole ms \<and> (\<exists>xs m. ms = T (xs @ [m]) \<and> msgRole m = RoleAssistant \<and>
     msgToolCalls m = [] \<and> TrimSpace (msgContent m) \<noteq> [])"

text \<open>Messages that come about by appending and saving.\<close>

inductive grown :: "(message list \<Rightarrow> message list) \<Rightarrow> message list \<Rightarrow> message list \<Rightarrow> bool" for T where
  grown_refl: "grown T ms ms"
| grown_save: "grown T ms ms1 \<Longrightarrow> grown T ms (T (ms1 @ new))"

lemma grown_trans: "grown T ms1 ms2 \<Longrightarrow> grown T ms ms1 \<Longrightarrow> grown T ms ms2"
  by (induction rule: grown.induct) (auto intro: grown.intros)

lemma grown_step: "grown T ms (T (ms @ new))"
  by (intro grown_save grown_refl)

lemma grown_steps: "grown T ms (T (T (ms @ new) @ new'))"
  by (intro grown_save grown_refl)

text \<open>
  What running from the messages \<open>ms\<close> to \<open>ms'\<close> with the outcome \<open>r\<close> keeps: they are whole when the loop goes on
  or has run out of steps, replied when it returns without an error, and in every case whole or cut off.
\<close>

definition good_out ::
  "(message list \<Rightarrow> message list) \<Rightarrow> (message list \<Rightarrow> bool) \<Rightarrow> message list \<Rightarrow> message list \<Rightarrow> go_error option option \<Rightarrow> bool" where
  "good_out T whole ms ms' r \<longleftrightarrow> grown T ms ms' \<and> (whole ms' \<or> cut_off T whole ms') \<and>
     (r = None \<or> r = Some (Some ErrMaxStepsReached) \<longrightarrow> whole ms') \<and> (r = Some None \<longrightarrow> replied T whole ms')"

lemma good_out_trans: "good_out T whole ms ms1 None \<Longrightarrow> good_out T whole ms1 ms' r \<Longrightarrow> good_out T whole ms ms' r"
  by (auto simp: good_out_def intro: grown_trans)

lemma good_out_same: "whole ms \<Longrightarrow> r \<noteq> Some None \<Longrightarrow> good_out T whole ms ms r"
  by (simp add: good_out_def grown_refl)

definition errors_given :: "stream_event list \<Rightarrow> bool" where
  "errors_given evs \<longleftrightarrow> (\<forall>e \<in> set evs. evType e = EventError \<longrightarrow> evErr e \<noteq> None)"

definition provider_errors :: "'w agent \<Rightarrow> bool" where
  "provider_errors a \<longleftrightarrow>
     (\<forall>req w w' evs. provStream (agProvider a) req w = (w', Inr evs) \<longrightarrow> errors_given evs)"

text \<open>
  The interface between the turn and the store: \<open>whole\<close> messages stay whole when a plain message, or an
  assistant message and then the results of its calls, is appended and saved.
\<close>

locale saved_messages =
  fixes T :: "message list \<Rightarrow> message list" and whole :: "message list \<Rightarrow> bool"
  assumes plain: "whole ms \<Longrightarrow> msgRole m \<noteq> RoleTool \<Longrightarrow> msgRole m = RoleAssistant \<longrightarrow> msgToolCalls m = [] \<Longrightarrow>
      whole (T (ms @ [m]))"
    and batch: "whole ms \<Longrightarrow> msgRole m = RoleAssistant \<Longrightarrow> list_all2 is_result_of (msgToolCalls m) rs \<Longrightarrow>
      whole (T (T (ms @ [m]) @ rs))"
begin

lemma message_end_good:
  assumes "on_message_end a env ev st tn = (st', tn', r)" "saves_as T a" "valid_env env"
    "whole (msgs st)" "msgRole (tnAsst tn) = RoleAssistant"
  shows "good_out T whole (msgs st) (msgs st') r \<and> msgRole (tnAsst tn') = RoleAssistant"
proof -
  let ?m = "final_message tn"
  have role: "msgRole ?m = RoleAssistant" using assms(5) by simp
  have cut: "cut_off T whole (T (msgs st @ [?m]))" unfolding cut_off_def using assms(4) role by blast
  from on_message_end_cases [OF assms(1,2,3)] have tn': "tn' = tn\<lparr>tnAsst := ?m\<rparr>" by blast
  from on_message_end_cases [OF assms(1,2,3)] consider
      "r = Some (Some ErrEmptyAssistantResponse)" "msgs st' = msgs st"
    | e where "r = Some (Some e)" "e \<noteq> ErrMaxStepsReached" "msgs st' = T (msgs st @ [?m])"
    | "r = Some None" "msgToolCalls ?m = []" "TrimSpace (tnText tn) \<noteq> []" "msgs st' = T (msgs st @ [?m])"
    | rs where "r = None \<or> (\<exists>e. r = Some (Some e) \<and> e \<noteq> ErrMaxStepsReached)"
        "list_all2 is_result_of (msgToolCalls ?m) rs" "msgs st' = T (T (msgs st @ [?m]) @ rs)"
    by blast
  then have "good_out T whole (msgs st) (msgs st') r"
  proof cases
    case 1
    with assms(4) show ?thesis by (simp add: good_out_same)
  next
    case 2
    with cut show ?thesis by (simp add: good_out_def grown_step)
  next
    case 3
    have "whole (T (msgs st @ [?m]))" by (rule plain [OF assms(4)]) (use role 3(2) in \<open>auto simp: RoleAssistant_def RoleTool_def\<close>)
    then have "replied T whole (msgs st')" using 3 role unfolding replied_def by (metis final_message_sel(2))
    with 3 show ?thesis by (simp add: good_out_def grown_step replied_def)
  next
    case 4
    with batch [OF assms(4) role 4(2)] show ?thesis by (auto simp: good_out_def grown_steps)
  qed
  with tn' role show ?thesis by simp
qed

lemma event_good:
  assumes "on_event a env ev st tn = (st', tn', r)" "saves_as T a" "valid_env env"
    "whole (msgs st)" "msgRole (tnAsst tn) = RoleAssistant" "evType ev = EventError \<longrightarrow> evErr ev \<noteq> None"
  shows "good_out T whole (msgs st) (msgs st') r \<and> msgRole (tnAsst tn') = RoleAssistant"
proof (cases "evType ev = EventMessageEnd")
  case True
  with assms message_end_good [OF _ assms(2-5)] show ?thesis by (simp add: on_event_def)
next
  case False
  have "msgs st' = msgs st \<and> r \<noteq> Some None \<and> tnAsst tn' = tnAsst tn"
    using assms(1,6) False
    by (auto simp: on_event_def Let_def split: stream_event_type.splits option.splits if_splits prod.splits)
  with assms(4,5) show ?thesis by (simp add: good_out_same)
qed

lemma events_good:
  "on_events a env evs st tn = (st', tn', r) \<Longrightarrow> saves_as T a \<Longrightarrow> valid_env env \<Longrightarrow>
   whole (msgs st) \<Longrightarrow> msgRole (tnAsst tn) = RoleAssistant \<Longrightarrow> errors_given evs \<Longrightarrow>
   good_out T whole (msgs st) (msgs st') r"
proof (induction evs arbitrary: st tn)
  case Nil
  then show ?case by (simp add: good_out_same)
next
  case (Cons ev evs)
  obtain st1 tn1 r1 where e: "on_event a env ev st tn = (st1, tn1, r1)" by (metis prod_cases3)
  have g: "good_out T whole (msgs st) (msgs st1) r1 \<and> msgRole (tnAsst tn1) = RoleAssistant"
    using event_good [OF e] Cons.prems by (simp add: errors_given_def)
  show ?case
  proof (cases r1)
    case None
    with g have "whole (msgs st1)" by (simp add: good_out_def)
    with Cons.IH [of st1 tn1] Cons.prems e None g have "good_out T whole (msgs st1) (msgs st') r"
      by (simp add: errors_given_def)
    with g None show ?thesis by (blast intro: good_out_trans)
  qed (use Cons.prems e g in simp)
qed

lemma step_good:
  assumes "run_step a env st = (st', r)" "saves_as T a" "valid_env env" "provider_errors a" "whole (msgs st)"
  shows "good_out T whole (msgs st) (msgs st') r"
proof -
  let ?req = "buildRequest (rsSess st) (agRegistry a) (agPreamble a) (agThinking a) (rsWorld st)"
  obtain w1 q where p: "provStream (agProvider a) ?req (rsWorld st) = (w1, q)" by fastforce
  show ?thesis
  proof (cases q)
    case (Inl e)
    with assms(1,5) p show ?thesis by (auto simp: run_step_def Let_def intro: good_out_same)
  next
    case (Inr evs)
    obtain st1 tn1 r1 where e: "on_events a env evs (st\<lparr>rsWorld := w1\<rparr>) turn_init = (st1, tn1, r1)"
      by (metis prod_cases3)
    have "errors_given evs" using assms(4) p Inr by (auto simp: provider_errors_def)
    then have g: "good_out T whole (msgs st) (msgs st1) r1"
      using events_good [OF e assms(2,3)] assms(5) by (simp add: turn_init_def)
    have "msgs st' = msgs st1 \<and> (r = r1 \<or> r1 = None \<and> (\<exists>m. r = Some (Some (Errorf m))))"
      using assms(1) p Inr e by (auto simp: run_step_def Let_def split: option.splits if_splits)
    with g show ?thesis by (auto simp: good_out_def)
  qed
qed

lemma steps_good:
  "run_steps a env n st = (st', r) \<Longrightarrow> saves_as T a \<Longrightarrow> valid_env env \<Longrightarrow> provider_errors a \<Longrightarrow>
   whole (msgs st) \<Longrightarrow> good_out T whole (msgs st) (msgs st') (Some r)"
proof (induction n arbitrary: st)
  case 0
  then show ?case by (auto intro: good_out_same)
next
  case (Suc n)
  obtain st1 r1 where s: "run_step a env st = (st1, r1)" by fastforce
  note g = step_good [OF s Suc.prems(2-5)]
  show ?case
  proof (cases r1)
    case None
    with g have "whole (msgs st1)" by (simp add: good_out_def)
    with Suc.IH [of st1] Suc.prems s None have "good_out T whole (msgs st1) (msgs st') (Some r)" by simp
    with g None show ?thesis by (blast intro: good_out_trans)
  qed (use g s Suc.prems in simp)
qed

lemma run_good:
  assumes "Run a env sess input w = (st, r)" "whole (sessMessages sess)" "saves_as T a" "valid_env env" "provider_errors a"
  shows "grown T (T (sessMessages sess @ [user_message input])) (msgs st) \<and>
    (whole (msgs st) \<or> cut_off T whole (msgs st)) \<and>
    (r = Some ErrMaxStepsReached \<longrightarrow> whole (msgs st)) \<and> (r = None \<longrightarrow> replied T whole (msgs st))"
proof -
  let ?st0 = "\<lparr>rsWorld = w, rsSess = sess, rsOut = [], rsBatch = 0\<rparr>"
  obtain st1 e where s: "saveSession a (append_messages [user_message input] ?st0) = (st1, e)" by fastforce
  have m1: "msgs st1 = T (sessMessages sess @ [user_message input])"
    using saves_asD [OF assms(3) s] by simp
  have t1: "whole (msgs st1)"
    unfolding m1 by (rule plain [OF assms(2)]) (simp_all add: user_message_def message_zero_def)
  show ?thesis
  proof (cases e)
    case (Some err)
    with assms(1) s have "st = st1" "r = Some (Wrapf ''save session (pre-turn)'' err)" by (auto simp: Run_def)
    with m1 t1 show ?thesis by (simp add: grown_refl)
  next
    case None
    with assms(1) s have "run_steps a env (max_steps a) st1 = (st, r)" by (simp add: Run_def)
    from steps_good [OF this assms(3,4,5) t1] m1 show ?thesis by (auto simp: good_out_def)
  qed
qed

end

section \<open>A store that keeps the messages\<close>

interpretation kept: saved_messages "\<lambda>ms. ms" transcript
  by unfold_locales (simp_all add: transcript_snoc_plain transcript_batch)

text \<open>A store whose \<open>Save\<close> leaves the messages as they are (as the in-memory store does).\<close>

definition store_keeps :: "'w agent \<Rightarrow> bool" where
  "store_keeps a \<longleftrightarrow> (\<forall>save. agStore a = Some save \<longrightarrow>
     (\<forall>k s w w' so e. save k s w = (w', so, e) \<longrightarrow>
        (\<forall>s'. so = Some s' \<longrightarrow> sessMessages s' = sessMessages s)))"

lemma store_keeps_saves:
  assumes "store_keeps a"
  shows "saves_as (\<lambda>ms. ms) a"
proof -
  have "sessMessages s' = sessMessages s" if "agStore a = Some save" "save k s w = (w', Some s', e)" for save k s w w' s' e
    using assms that unfolding store_keeps_def by blast
  then show ?thesis by (auto simp: saves_as_def saveSession_def split: option.splits prod.splits)
qed

lemma grown_kept: "grown (\<lambda>ms. ms) ms ms' \<Longrightarrow> \<exists>new. ms' = ms @ new"
  by (induction rule: grown.induct) auto

text \<open>A transcript cut short while the calls of its last message are pending.\<close>

definition pending :: "message list \<Rightarrow> bool" where
  "pending ms \<longleftrightarrow> (\<exists>xs m. ms = xs @ [m] \<and> transcript xs \<and> msgRole m = RoleAssistant)"

text \<open>A transcript that ends with an answer: assistant text, no tool calls.\<close>

definition answered :: "message list \<Rightarrow> bool" where
  "answered ms \<longleftrightarrow> transcript ms \<and> (\<exists>xs m. ms = xs @ [m] \<and> msgRole m = RoleAssistant \<and>
     msgToolCalls m = [] \<and> TrimSpace (msgContent m) \<noteq> [])"


lemma demo_agent_keeps: "store_keeps demo_agent" "provider_errors demo_agent"
  by (auto simp: store_keeps_def demo_agent_def NewAgent_def provider_errors_def errors_given_def demo_events_def
      split: if_splits)



end
