(* ===== verification/Capped.thy ===== *)
theory Capped
  imports Turns
begin

text \<open>
  A turn of internal/agent on the store the program really uses: \<open>RedisStore.Save\<close> trims the messages of
  the session it is given, so a long conversation loses its oldest messages, whatever they are. What is left
  of a complete transcript is a window: tool results whose call is gone, then a complete transcript.
\<close>

section \<open>Windows of a transcript\<close>

text \<open>A list of messages that satisfies \<open>P\<close> after its leading tool results.\<close>

definition windowed :: "(message list \<Rightarrow> bool) \<Rightarrow> message list \<Rightarrow> bool" where
  "windowed P ms \<longleftrightarrow> P (dropWhile (\<lambda>m. msgRole m = RoleTool) ms)"

lemma windowedE:
  assumes "windowed P ms"
  obtains orphans rest where "ms = orphans @ rest" "\<forall>m \<in> set orphans. msgRole m = RoleTool" "P rest"
proof (rule that)
  show "ms = takeWhile (\<lambda>m. msgRole m = RoleTool) ms @ dropWhile (\<lambda>m. msgRole m = RoleTool) ms" by simp
  show "\<forall>m \<in> set (takeWhile (\<lambda>m. msgRole m = RoleTool) ms). msgRole m = RoleTool"
    by (auto dest: set_takeWhileD)
qed (use assms in \<open>simp add: windowed_def\<close>)

lemma trim_content_sel [simp]:
  "msgRole (trim_content m) = msgRole m" "msgToolCalls (trim_content m) = msgToolCalls m"
  "is_result_of c (trim_content m) = is_result_of c m"
  by (simp_all add: trim_content_def is_result_of_def Let_def)

lemma TrimMessages_drop: "TrimMessages ms = drop (length ms - MaxMessages) (map trim_content ms)"
  by (auto simp: TrimMessages_def Let_def)

lemma TrimMessages_snoc: "TrimMessages (xs @ [m]) = drop (Suc (length xs) - MaxMessages) (map trim_content xs) @ [trim_content m]"
  by (simp add: TrimMessages_drop MaxMessages_def)

text \<open>
  What makes \<open>P\<close> survive the loss of the oldest messages: it is closed under appending, it never starts with a
  tool result, and a suffix is a window of it.
\<close>

locale message_shape =
  fixes P :: "message list \<Rightarrow> bool"
  assumes empty: "P []"
    and append: "P xs \<Longrightarrow> P ys \<Longrightarrow> P (xs @ ys)"
    and starts: "P (m # ms) \<Longrightarrow> msgRole m \<noteq> RoleTool"
    and suffix: "P ms \<Longrightarrow> windowed P (drop n ms)"
    and trimmed: "P ms \<Longrightarrow> P (map trim_content ms)"
begin

lemma windowI:
  assumes "\<forall>m \<in> set orphans. msgRole m = RoleTool" "P rest"
  shows "windowed P (orphans @ rest)"
proof -
  have "dropWhile (\<lambda>m. msgRole m = RoleTool) rest = rest"
    using assms(2) starts by (cases rest) auto
  with assms show ?thesis by (simp add: windowed_def)
qed

lemma window_append:
  assumes "windowed P xs" "P ys"
  shows "windowed P (xs @ ys)"
proof -
  from assms(1) obtain os rs where o: "xs = os @ rs" "\<forall>m \<in> set os. msgRole m = RoleTool" "P rs" by (rule windowedE)
  from windowI [OF o(2) append [OF o(3) assms(2)]] o(1) show ?thesis by simp
qed

lemma window_results: "\<forall>r \<in> set rs. msgRole r = RoleTool \<Longrightarrow> windowed P rs"
  using windowI [OF _ empty, of rs] by simp

lemma window_drop:
  assumes "windowed P ms"
  shows "windowed P (drop n ms)"
proof -
  from assms obtain orphans rest where
    o: "ms = orphans @ rest" "\<forall>m \<in> set orphans. msgRole m = RoleTool" "P rest" by (rule windowedE)
  from suffix [OF o(3), of "n - length orphans"] obtain os rs where
    r: "drop (n - length orphans) rest = os @ rs" "\<forall>m \<in> set os. msgRole m = RoleTool" "P rs" by (rule windowedE)
  have "\<forall>m \<in> set (drop n orphans @ os). msgRole m = RoleTool" using o(2) r(2) by (auto dest: in_set_dropD)
  from windowI [OF this r(3)] r(1) o(1) show ?thesis by simp
qed

lemma window_trim_content: "windowed P ms \<Longrightarrow> windowed P (map trim_content ms)"
  by (simp add: windowed_def dropWhile_map comp_def trimmed)

lemma window_TrimMessages: "windowed P ms \<Longrightarrow> windowed P (TrimMessages ms)"
  by (simp add: TrimMessages_drop window_drop window_trim_content)

lemma window_cut: "windowed P xs \<Longrightarrow> windowed P (drop n (map trim_content xs))"
  by (intro window_drop window_trim_content)

text \<open>A batch may be longer than the cap: then the message that calls the tools is lost to the first of its results.\<close>

lemma window_batch:
  assumes "windowed P ms" "P (trim_content m # rs)"
  shows "windowed P (TrimMessages (TrimMessages (ms @ [m]) @ rs))"
proof -
  have "windowed P (drop (Suc (length ms) - MaxMessages) (map trim_content ms) @ trim_content m # rs)"
    by (rule window_append [OF window_cut [OF assms(1)] assms(2)])
  then show ?thesis by (simp add: TrimMessages_snoc window_TrimMessages)
qed

end

section \<open>Windows of a complete transcript\<close>

lemma transcript_trim_content [simp]: "transcript (map trim_content ms) = transcript ms"
  by (induction ms rule: transcript.induct)
    (simp_all add: take_map drop_map list_all2_conv_all_nth cong: conj_cong)

lemma batch_drop:
  assumes "list_all2 is_result_of cs (take (length cs) ms)" "n < length cs"
  shows "\<forall>r \<in> set (drop n (take (length cs) ms)). msgRole r = RoleTool"
    "drop n ms = drop n (take (length cs) ms) @ drop (length cs) ms"
proof -
  have "\<forall>r \<in> set (take (length cs) ms). msgRole r = RoleTool"
    using assms(1) by (auto simp: list_all2_conv_all_nth is_result_of_def in_set_conv_nth)
  then show "\<forall>r \<in> set (drop n (take (length cs) ms)). msgRole r = RoleTool" by (blast dest: in_set_dropD)
  have "length cs \<le> length ms" using assms(1) by (auto dest: list_all2_lengthD)
  then have "drop n (take (length cs) ms @ drop (length cs) ms) = drop n (take (length cs) ms) @ drop (length cs) ms"
    using assms(2) by (simp only: drop_append) (simp add: min_absorb2)
  then show "drop n ms = drop n (take (length cs) ms) @ drop (length cs) ms" by simp
qed

lemma windowed_prefix:
  "\<forall>m \<in> set orphans. msgRole m = RoleTool \<Longrightarrow> windowed P rest \<Longrightarrow> windowed P (orphans @ rest)"
  by (simp add: windowed_def dropWhile_append2)

lemma transcript_starts: "transcript (m # ms) \<Longrightarrow> msgRole m \<noteq> RoleTool"
  by (auto simp: RoleTool_def RoleAssistant_def split: if_splits)

lemma transcript_window: "transcript ms \<Longrightarrow> windowed transcript ms"
  unfolding windowed_def by (cases ms) (auto dest: transcript_starts simp del: transcript.simps(2))

lemma transcript_drop: "transcript ms \<Longrightarrow> windowed transcript (drop n ms)"
proof (induction ms arbitrary: n rule: transcript.induct)
  case (2 m ms)
  show ?case
  proof (cases n)
    case 0
    with 2(3) show ?thesis by (simp add: transcript_window del: transcript.simps)
  next
    case (Suc k)
    let ?c = "length (msgToolCalls m)"
    show ?thesis
    proof (cases "msgRole m = RoleAssistant")
      case True
      then have l: "list_all2 is_result_of (msgToolCalls m) (take ?c ms)" "transcript (drop ?c ms)"
        using 2(3) by auto
      show ?thesis
      proof (cases "?c \<le> k")
        case True
        then have "drop k ms = drop (k - ?c) (drop ?c ms)" by simp
        with 2(1) [OF \<open>msgRole m = RoleAssistant\<close> l(2)] Suc show ?thesis by simp
      next
        case False
        then show ?thesis
          using batch_drop [OF l(1), of k] windowed_prefix transcript_window [OF l(2)] Suc by simp
      qed
    qed (use 2 Suc in simp)
  qed
qed (simp add: windowed_def)

interpretation complete: message_shape transcript
proof
  show "transcript (xs @ ys)" if "transcript xs" "transcript ys" for xs ys
    using transcript_append [OF that(1)] that(2) by simp
qed (simp_all add: transcript_drop del: transcript.simps(2), rule transcript_starts)

section \<open>The store that trims\<close>

interpretation capped: saved_messages TrimMessages "windowed transcript"
proof
  fix ms and m :: message
  assume "windowed transcript ms" "msgRole m \<noteq> RoleTool" "msgRole m = RoleAssistant \<longrightarrow> msgToolCalls m = []"
  then show "windowed transcript (TrimMessages (ms @ [m]))"
    by (intro complete.window_TrimMessages complete.window_append) auto
next
  fix ms rs and m :: message
  assume "windowed transcript ms" "msgRole m = RoleAssistant" "list_all2 is_result_of (msgToolCalls m) rs"
  then show "windowed transcript (TrimMessages (TrimMessages (ms @ [m]) @ rs))"
    using list_all2_lengthD [of is_result_of "msgToolCalls m" rs] by (intro complete.window_batch) simp_all
qed

lemma grown_capped: "grown TrimMessages ms ms' \<Longrightarrow> length ms \<le> MaxMessages \<Longrightarrow> length ms' \<le> MaxMessages"
  by (induction rule: grown.induct) (simp_all add: TrimMessages_length)

text \<open>The agent saves to Redis, whose clock is \<open>clk\<close>.\<close>

definition saves_to_redis :: "go_error \<Rightarrow> 'w redis_store \<Rightarrow> ('w \<Rightarrow> time) \<Rightarrow> 'w agent \<Rightarrow> bool" where
  "saves_to_redis merr rst clk a \<longleftrightarrow> agStore a = Some (\<lambda>k s w. RedisStore_Save merr rst (clk w) k (Some s) w)"

lemma redis_saves: "saves_to_redis merr rst clk a \<Longrightarrow> saves_as TrimMessages a"
  by (auto simp: saves_to_redis_def saves_as_def saveSession_def RedisStore_Save_def Let_def
      split: option.splits prod.splits)

text \<open>What a turn on Redis may leave: at most the cap, a window, or a window and a message whose results are missing.\<close>

definition capped_session :: "message list \<Rightarrow> bool" where
  "capped_session ms \<longleftrightarrow> length ms \<le> MaxMessages \<and>
     (windowed transcript ms \<or> ms \<noteq> [] \<and> windowed transcript (butlast ms) \<and> msgRole (last ms) = RoleAssistant)"

lemma cut_off_capped:
  assumes "cut_off TrimMessages (windowed transcript) ms"
  shows "ms \<noteq> [] \<and> windowed transcript (butlast ms) \<and> msgRole (last ms) = RoleAssistant"
proof -
  from assms obtain xs m where x: "ms = TrimMessages (xs @ [m])" "windowed transcript xs" "msgRole m = RoleAssistant"
    unfolding cut_off_def by blast
  have "windowed transcript (drop (Suc (length xs) - MaxMessages) (map trim_content xs))"
    by (rule complete.window_cut [OF x(2)])
  with x show ?thesis by (simp add: TrimMessages_snoc)
qed


definition redis_agent :: "mem_redis agent" where
  "redis_agent = NewAgent \<lparr>provName = ''p'', provStream = (\<lambda>req w. (w, Inr (demo_events 1)))\<rparr> []
     (Some (\<lambda>k s w. RedisStore_Save (Errorf ''m'') (NewRedisStore mr_client 0) (mrNow w) k (Some s) w))"

lemma redis_agent_ok:
  "saves_to_redis (Errorf ''m'') (NewRedisStore mr_client 0) mrNow redis_agent" "provider_errors redis_agent"
  by (auto simp: saves_to_redis_def redis_agent_def NewAgent_def provider_errors_def errors_given_def demo_events_def)


text \<open>C35 The cap takes single messages, not exchanges: a complete transcript can be saved so that what the next
  request of the model starts with is the result of a tool call that is not in the request.\<close>
theorem trim_orphans_result:
  "\<exists>sess. transcript (sessMessages sess) \<and>
     (\<forall>now reg preamble thinking w. \<exists>m rest.
        crMessages (buildRequest (stamp_session now sess) reg preamble thinking w) = m # rest \<and>
        msgRole m = RoleTool \<and> concat (map msgToolCalls rest) = [])"
proof -
  let ?u = "message_zero\<lparr>msgRole := RoleUser\<rparr>"
  let ?a = "message_zero\<lparr>msgRole := RoleAssistant, msgToolCalls := [\<lparr>tcID = ''c'', tcName = ''t'', tcArguments = ''{}''\<rparr>]\<rparr>"
  let ?r = "message_zero\<lparr>msgRole := RoleTool, msgToolCallID := ''c'', msgName := ''t''\<rparr>"
  let ?ms = "?u # ?a # ?r # replicate 39 ?u"
  let ?sess = "session_zero\<lparr>sessMessages := ?ms\<rparr>"
  have tc: "trim_content m = m" if "msgContent m = []" for m using that by (simp add: trim_content_def)
  have "transcript (replicate n ?u)" for n by (induction n) simp_all
  then have "transcript ?ms" by (simp add: is_result_of_def)
  moreover have "TrimMessages ?ms = ?r # replicate 39 ?u"
    by (simp add: TrimMessages_drop tc message_zero_def MaxMessages_def)
  ultimately show ?thesis
    by (intro exI [of _ ?sess]) (simp add: buildRequest_def message_zero_def del: transcript.simps)
qed

end
