(* ===== verification/OAuth.thy ===== *)
theory OAuth
  imports Sessions
begin

text \<open>
  internal/oauth: the signed state tokens (state.go), encrypted credentials and their refresh
  (tokens.go), the credential store (store.go), the HTTP handlers and the rate limiter (server.go).
  The cryptographic primitives, the random source and the HTTP transport are parameters.
\<close>

section \<open>Base64\<close>

text \<open>
  \<open>encoding/base64\<close>: an alphabet is a string of 64 characters; decoding skips line breaks and, like Go's,
  ignores the unused low bits of the last character.
\<close>

definition b64_std :: string where
  "b64_std = ''ABCDEFGHIJKLMNOPQRSTUVWXYZabcdefghijklmnopqrstuvwxyz0123456789+/''"

definition b64_url :: string where
  "b64_url = ''ABCDEFGHIJKLMNOPQRSTUVWXYZabcdefghijklmnopqrstuvwxyz0123456789-_''"

fun b64_sextets :: "nat list \<Rightarrow> nat list" where
  "b64_sextets [] = []"
| "b64_sextets [a] = [a div 4, a mod 4 * 16]"
| "b64_sextets [a, b] = [a div 4, a mod 4 * 16 + b div 16, b mod 16 * 4]"
| "b64_sextets (a # b # c # s) =
     [a div 4, a mod 4 * 16 + b div 16, b mod 16 * 4 + c div 64, c mod 64] @ b64_sextets s"

fun b64_octets :: "nat list \<Rightarrow> nat list option" where
  "b64_octets [] = Some []"
| "b64_octets [a] = None"
| "b64_octets [a, b] = Some [a * 4 + b div 16]"
| "b64_octets [a, b, c] = Some [a * 4 + b div 16, b mod 16 * 16 + c div 4]"
| "b64_octets (a # b # c # d # s) =
     map_option (\<lambda>r. [a * 4 + b div 16, b mod 16 * 16 + c div 4, c mod 4 * 64 + d] @ r) (b64_octets s)"

fun find_char :: "char \<Rightarrow> string \<Rightarrow> nat option" where
  "find_char c [] = None"
| "find_char c (x # xs) = (if x = c then Some 0 else map_option Suc (find_char c xs))"

definition b64_values :: "string \<Rightarrow> string \<Rightarrow> nat list option" where
  "b64_values alpha s = decode_all (\<lambda>c. find_char c alpha) s"

definition b64_bytes :: "string \<Rightarrow> string \<Rightarrow> string option" where
  "b64_bytes alpha s = map_option (map char_of) (Option.bind (b64_values alpha s) b64_octets)"

definition no_breaks :: "string \<Rightarrow> string" where
  "no_breaks s = filter (\<lambda>c. c \<noteq> CHR 0x0D \<and> c \<noteq> CHR 0x0A) s"

definition RawURL_encode :: "string \<Rightarrow> string" where
  "RawURL_encode s = map (\<lambda>i. b64_url ! i) (b64_sextets (map byte s))"

definition RawURL_decode :: "string \<Rightarrow> string option" where
  "RawURL_decode s = b64_bytes b64_url (no_breaks s)"

text \<open>The padded decoder: the length is a multiple of four, the missing characters are \<open>=\<close>.\<close>

definition Std_decode :: "string \<Rightarrow> string option" where
  "Std_decode s0 =
     (let s = no_breaks s0;
          core = TrimRight s ''='';
          pad = length s - length core
      in if length s mod 4 = 0 \<and> pad \<le> 2 then b64_bytes b64_std core else None)"

section \<open>State tokens (state.go)\<close>

text \<open>\<open>mac\<close> is HMAC-SHA256: a key and a message give 32 bytes. A signer is its key.\<close>

type_synonym mac_fn = "string \<Rightarrow> string \<Rightarrow> string"

definition NewStateSigner :: "(string \<Rightarrow> string) \<Rightarrow> string \<Rightarrow> go_error + string" where
  "NewStateSigner berr base64Key =
     (if base64Key = [] then Inl (Errorf ''state key env is empty'')
      else case Std_decode base64Key of
          None \<Rightarrow> Inl (Wrapf ''state key base64'' (Errorf (berr base64Key)))
        | Some k \<Rightarrow>
            if length k \<noteq> 32 then
              Inl (Errorf (''state key must be 32 bytes after base64 decode (got '' @ dec_nat (length k) @ '')''))
            else Inr k)"

text \<open>\<open>rnd\<close> is what \<open>rand.Read\<close> gives: 16 bytes or an error.\<close>

definition Sign :: "mac_fn \<Rightarrow> string \<Rightarrow> go_error + string \<Rightarrow> string \<Rightarrow> go_error + string" where
  "Sign mac key rnd openID =
     (if openID = [] then Inl (Errorf ''sign: empty open_id'')
      else case rnd of
          Inl err \<Rightarrow> Inl err
        | Inr nonce \<Rightarrow>
            (let payload = openID @ [CHR 0x00] @ nonce; tag = take 16 (mac key payload)
             in Inr (RawURL_encode (payload @ tag))))"

fun find_nul :: "string \<Rightarrow> nat option" where
  "find_nul [] = None"
| "find_nul (c # s) = (if c = CHR 0x00 then Some 0 else map_option Suc (find_nul s))"

definition Verify :: "mac_fn \<Rightarrow> string \<Rightarrow> string \<Rightarrow> go_error + string" where
  "Verify mac key state =
     (case RawURL_decode state of
        None \<Rightarrow> Inl ErrInvalidState
      | Some raw \<Rightarrow>
          if length raw < 1 + 16 + 16 then Inl ErrInvalidState
          else let tag = drop (length raw - 16) raw; payload = take (length raw - 16) raw;
                   expected = take 16 (mac key payload)
               in if tag \<noteq> expected then Inl ErrInvalidState
                  else case find_nul payload of
                      None \<Rightarrow> Inl ErrInvalidState
                    | Some nul \<Rightarrow> if nul = 0 then Inl ErrInvalidState else Inr (take nul payload))"

subsection \<open>Properties\<close>

lemma b64_url_inverse: "\<forall>i < 64. find_char (b64_url ! i) b64_url = Some i"
proof -
  have "\<forall>i \<in> set [0..<64]. find_char (b64_url ! i) b64_url = Some i"
    by code_simp
  then show ?thesis by simp
qed

lemma b64_values_map: "list_all (\<lambda>i. i < 64) is \<Longrightarrow> b64_values b64_url (map (\<lambda>i. b64_url ! i) is) = Some is"
  using b64_url_inverse unfolding b64_values_def by (induction "is") auto

lemma sextets_small: "list_all (\<lambda>b. b < 256) bs \<Longrightarrow> list_all (\<lambda>i. i < 64) (b64_sextets bs)"
  by (induction bs rule: b64_sextets.induct) auto

lemma octets_sextets: "list_all (\<lambda>b. b < 256) bs \<Longrightarrow> b64_octets (b64_sextets bs) = Some bs"
  by (induction bs rule: b64_sextets.induct) auto

lemma bytes_small: "list_all (\<lambda>b. b < 256) (map byte s)"
  by (simp add: list_all_iff)

lemma url_char_plain: "i < 64 \<Longrightarrow> b64_url ! i \<noteq> CHR 0x0D \<and> b64_url ! i \<noteq> CHR 0x0A"
proof -
  have "list_all (\<lambda>c. c \<noteq> CHR 0x0D \<and> c \<noteq> CHR 0x0A) b64_url" by (simp add: b64_url_def)
  moreover have "length b64_url = 64" by (simp add: b64_url_def)
  ultimately show "i < 64 \<Longrightarrow> ?thesis" by (simp add: list_all_length)
qed

lemma RawURL_roundtrip: "RawURL_decode (RawURL_encode s) = Some s"
proof -
  let ?x = "b64_sextets (map byte s)"
  have small: "list_all (\<lambda>i. i < 64) ?x" using sextets_small bytes_small by blast
  have "no_breaks (RawURL_encode s) = RawURL_encode s"
    unfolding no_breaks_def RawURL_encode_def using small url_char_plain
    by (intro filter_True) (auto simp: list_all_iff)
  then show ?thesis
    using octets_sextets [OF bytes_small, of s] b64_values_map [OF small]
    by (simp add: RawURL_decode_def b64_bytes_def RawURL_encode_def comp_def)
qed

lemma find_nul_append: "CHR 0x00 \<notin> set a \<Longrightarrow> find_nul (a @ CHR 0x00 # b) = Some (length a)"
  by (induction a) auto

lemma find_nul_Some: "find_nul s = Some n \<Longrightarrow> n < length s \<and> s ! n = CHR 0x00 \<and> CHR 0x00 \<notin> set (take n s)"
  by (induction s arbitrary: n) (auto split: if_splits)

lemma signed_verifies:
  assumes "\<forall>k m. length (mac k m) = 32" "length nonce = 16" "CHR 0x00 \<notin> set openID"
    and "Sign mac key (Inr nonce) openID = Inr token"
  shows "Verify mac key token = Inr openID"
proof -
  let ?p = "openID @ CHR 0x00 # nonce"
  from assms(4) have ne: "openID \<noteq> []" and t: "token = RawURL_encode (?p @ take 16 (mac key ?p))"
    by (auto simp: Sign_def Let_def split: if_splits)
  have len: "length (take 16 (mac key ?p)) = 16" using assms(1) by simp
  have d: "RawURL_decode token = Some (?p @ take 16 (mac key ?p))"
    unfolding t by (rule RawURL_roundtrip)
  have "33 \<le> length (?p @ take 16 (mac key ?p))" using ne assms(2) len by (cases openID) auto
  with d find_nul_append [OF assms(3), of nonce] ne len show ?thesis
    by (simp add: Verify_def Let_def)
qed

text \<open>C12 A state token the program signed for a user verifies, under the same key, to this user.\<close>
theorem state_roundtrip:
  assumes "\<forall>k m. length (mac k m) = 32" "length nonce = 16" "CHR 0x00 \<notin> set openID"
    and "Sign mac key (Inr nonce) openID = Inr token"
  shows "Verify mac key token = Inr openID"
  by (rule signed_verifies [OF assms])

definition demo_mac :: mac_fn where
  "demo_mac k m = take 32 (m @ replicate 32 (CHR ''m''))"

lemma demo_mac_length: "length (demo_mac k m) = 32"
  by (simp add: demo_mac_def)

theorem state_roundtrip_witness:
  "\<exists>token. Sign demo_mac ''k'' (Inr (replicate 16 (CHR ''n''))) ''ou_1'' = Inr token \<and>
     Verify demo_mac ''k'' token = Inr ''ou_1''"
proof -
  obtain token where t: "Sign demo_mac ''k'' (Inr (replicate 16 (CHR ''n''))) ''ou_1'' = Inr token"
    by (simp add: Sign_def Let_def)
  with state_roundtrip [OF _ _ _ t] demo_mac_length show ?thesis by auto
qed

text \<open>C13 A token is accepted only when its bytes are a payload followed by the first 16 bytes of the payload's
  MAC under the key; the user it names is the payload up to its first zero byte and is not empty.\<close>
theorem verify_only_signed:
  "case Verify mac key token of
     Inl e \<Rightarrow> e = ErrInvalidState
   | Inr user \<Rightarrow> user \<noteq> [] \<and> CHR 0x00 \<notin> set user \<and>
       (\<exists>rest. RawURL_decode token = Some ((user @ [CHR 0x00] @ rest) @ take 16 (mac key (user
           @ [CHR 0x00] @ rest))))"
proof (cases "Verify mac key token")
  case (Inl e)
  then show ?thesis
    by (auto simp: Verify_def Let_def split: option.splits if_splits)
next
  case (Inr user)
  then obtain raw n where r: "RawURL_decode token = Some raw" "33 \<le> length raw"
    "find_nul (take (length raw - 16) raw) = Some n" "n \<noteq> 0" "user = take n (take (length raw - 16) raw)"
    "drop (length raw - 16) raw = take 16 (mac key (take (length raw - 16) raw))"
    by (auto simp: Verify_def Let_def split: option.splits if_splits)
  let ?p = "take (length raw - 16) raw"
  note n = find_nul_Some [OF r(3)]
  have "?p = take n ?p @ [?p ! n] @ drop (Suc n) ?p" using n by (metis append_Cons append_Nil id_take_nth_drop)
  then have p: "?p = user @ [CHR 0x00] @ drop (Suc n) ?p" using n r(5) by metis
  have "raw = ?p @ take 16 (mac key ?p)" using r(6) by (metis append_take_drop_id)
  with p r(1) have "RawURL_decode token = Some ((user @ [CHR 0x00] @ drop (Suc n) ?p) @
      take 16 (mac key (user @ [CHR 0x00] @ drop (Suc n) ?p)))" by metis
  moreover have "user \<noteq> []" "CHR 0x00 \<notin> set user" using r(4,5) n by auto
  ultimately show ?thesis using Inr by auto
qed

section \<open>Credentials (tokens.go)\<close>

record credential =
  crOpenID :: string
  crAccessToken :: string
  crRefreshToken :: string
  crAccessExpiresAt :: time
  crRefreshExpiresAt :: time
  crScopes :: "string list"
  crGrantedAt :: time
  crLastUsedAt :: time

definition credential_zero :: credential where
  "credential_zero = \<lparr>crOpenID = [], crAccessToken = [], crRefreshToken = [], crAccessExpiresAt = 0,
     crRefreshExpiresAt = 0, crScopes = [], crGrantedAt = 0, crLastUsedAt = 0\<rparr>"

text \<open>Its JSON form; a time is never empty for \<open>omitempty\<close>.\<close>

definition credential_json :: "credential \<Rightarrow> json option" where
  "credential_json c =
     (case (time_json (crAccessExpiresAt c), time_json (crRefreshExpiresAt c), time_json (crGrantedAt c),
            time_json (crLastUsedAt c)) of
        (Some a, Some r, Some g, Some l) \<Rightarrow> Some (JObj
          ([(''open_id'', jstr (crOpenID c)), (''access_token'', jstr (crAccessToken c)),
            (''refresh_token'', jstr (crRefreshToken c)), (''access_expires_at'', a), (''refresh_expires_at'', r)]
           @ (if crScopes c = [] then [] else [(''scopes'', JArr (map (\<lambda>s. jstr s) (crScopes c)))])
           @ [(''granted_at'', g), (''last_used_at'', l)]))
      | _ \<Rightarrow> None)"

definition credential_encode :: "credential \<Rightarrow> string option" where
  "credential_encode c = map_option print_json (credential_json c)"

definition string_unjson :: "json \<Rightarrow> string option" where
  "string_unjson v = put_string v (\<lambda>s. s) []"

definition credential_put :: "string \<Rightarrow> json \<Rightarrow> credential \<Rightarrow> credential option" where
  "credential_put f v r =
     (if f = ''open_id'' then put_string v (\<lambda>x. r\<lparr>crOpenID := x\<rparr>) r
      else if f = ''access_token'' then put_string v (\<lambda>x. r\<lparr>crAccessToken := x\<rparr>) r
      else if f = ''refresh_token'' then put_string v (\<lambda>x. r\<lparr>crRefreshToken := x\<rparr>) r
      else if f = ''access_expires_at'' then put_time v (\<lambda>x. r\<lparr>crAccessExpiresAt := x\<rparr>) r
      else if f = ''refresh_expires_at'' then put_time v (\<lambda>x. r\<lparr>crRefreshExpiresAt := x\<rparr>) r
      else if f = ''scopes'' then put_list string_unjson v (\<lambda>x. r\<lparr>crScopes := x\<rparr>)
      else if f = ''granted_at'' then put_time v (\<lambda>x. r\<lparr>crGrantedAt := x\<rparr>) r
      else if f = ''last_used_at'' then put_time v (\<lambda>x. r\<lparr>crLastUsedAt := x\<rparr>) r
      else Some r)"

definition credential_decode :: "string \<Rightarrow> credential option" where
  "credential_decode raw = Option.bind (read_json raw) (decode_struct credential_put credential_zero)"

definition norm_credential :: "credential \<Rightarrow> credential" where
  "norm_credential c = c\<lparr>crOpenID := sanitize (crOpenID c), crAccessToken := sanitize (crAccessToken c),
     crRefreshToken := sanitize (crRefreshToken c), crScopes := map sanitize (crScopes c)\<rparr>"

text \<open>
  The authenticated cipher of an \<open>Encryptor\<close>: its nonce size, sealing with a nonce, and opening. The
  random source gives a nonce of that size or an error.
\<close>

record aead =
  aeNonceSize :: nat
  aeSeal :: "string \<Rightarrow> string \<Rightarrow> string"
  aeOpen :: "string \<Rightarrow> string \<Rightarrow> string option"

definition NewEncryptor :: "(string \<Rightarrow> string) \<Rightarrow> (string \<Rightarrow> go_error + aead) \<Rightarrow> string \<Rightarrow> go_error + aead" where
  "NewEncryptor berr newGCM base64Key =
     (if base64Key = [] then Inl (Errorf ''encryption key env is empty'')
      else case Std_decode base64Key of
          None \<Rightarrow> Inl (Wrapf ''encryption key base64'' (Errorf (berr base64Key)))
        | Some k \<Rightarrow>
            if length k \<noteq> 32 then
              Inl (Errorf (''encryption key must be 32 bytes after base64 decode (got '' @ dec_nat (length k)
                  @ '')''))
            else newGCM k)"

definition Seal :: "aead \<Rightarrow> go_error + string \<Rightarrow> string \<Rightarrow> go_error + string" where
  "Seal e rnd plaintext =
     (case rnd of Inl err \<Rightarrow> Inl err | Inr nonce \<Rightarrow> Inr (nonce @ aeSeal e nonce plaintext))"

definition auth_failed :: go_error where
  "auth_failed = Errorf ''cipher: message authentication failed''"

definition Open :: "aead \<Rightarrow> string \<Rightarrow> go_error + string" where
  "Open e envelope =
     (let ns = aeNonceSize e
      in if length envelope < ns then Inl (Errorf ''ciphertext too short'')
         else case aeOpen e (take ns envelope) (drop ns envelope) of
             None \<Rightarrow> Inl auth_failed | Some pt \<Rightarrow> Inr pt)"

section \<open>The credential store (store.go)\<close>

text \<open>
  \<open>EXPIREAT\<close> is the one more operation of the client; \<open>csNonce\<close> is the random source in a world.
\<close>

record 'w cred_store =
  csRdb :: "'w redis"
  csExpireAt :: "string \<Rightarrow> time \<Rightarrow> 'w \<Rightarrow> 'w \<times> go_error option"
  csEnc :: aead
  csNonce :: "'w \<Rightarrow> go_error + string"

definition credKey :: "string \<Rightarrow> string" where
  "credKey openID = ''bot:oauth:'' @ openID"

definition cred_Get ::
  "(string \<Rightarrow> go_error) \<Rightarrow> 'w cred_store \<Rightarrow> string \<Rightarrow> 'w \<Rightarrow> 'w \<times> (go_error + credential option)" where
  "cred_Get jerr st openID w =
     (case rcGet (csRdb st) (credKey openID) w of
        (w', GetNil) \<Rightarrow> (w', Inr None)
      | (w', GetErr e) \<Rightarrow> (w', Inl (Wrapf ''redis get oauth'' e))
      | (w', GetVal raw) \<Rightarrow>
          (case Open (csEnc st) raw of
             Inl e \<Rightarrow> (w', Inl (Wrapf ''oauth credential auth'' e))
           | Inr pt \<Rightarrow>
               (case credential_decode pt of
                  None \<Rightarrow> (w', Inl (Wrapf ''oauth credential decode'' (jerr pt)))
                | Some c \<Rightarrow> (w', Inr (Some c)))))"

definition cred_Save :: "go_error \<Rightarrow> 'w cred_store \<Rightarrow> credential option \<Rightarrow> 'w \<Rightarrow> 'w \<times> go_error option" where
  "cred_Save merr st co w =
     (case co of None \<Rightarrow> (w, Some (Errorf ''credential has no open_id''))
      | Some c \<Rightarrow>
          if crOpenID c = [] then (w, Some (Errorf ''credential has no open_id''))
          else case credential_encode c of
              None \<Rightarrow> (w, Some merr)
            | Some pt \<Rightarrow>
                (case Seal (csEnc st) (csNonce st w) pt of
                   Inl e \<Rightarrow> (w, Some e)
                 | Inr envelope \<Rightarrow>
                     (case rcSet (csRdb st) (credKey (crOpenID c)) envelope 0 w of
                        (w1, Some e) \<Rightarrow> (w1, Some (Wrapf ''redis set oauth'' e))
                      | (w1, None) \<Rightarrow>
                          if crRefreshExpiresAt c \<noteq> 0 then
                            (case csExpireAt st (credKey (crOpenID c)) (crRefreshExpiresAt c) w1 of
                               (w2, Some e) \<Rightarrow> (w2, Some (Wrapf ''redis expireat oauth'' e))
                             | (w2, None) \<Rightarrow> (w2, None))
                          else (w1, None))))"

definition cred_Delete :: "'w cred_store \<Rightarrow> string \<Rightarrow> 'w \<Rightarrow> 'w \<times> go_error option" where
  "cred_Delete st openID w = rcDel (csRdb st) (credKey openID) w"

section \<open>Refresh (tokens.go)\<close>

text \<open>The product of an \<open>int\<close> and a \<open>time.Duration\<close> wraps at 64 bits.\<close>

definition wrap64 :: "int \<Rightarrow> int" where
  "wrap64 i = (i + 2 ^ 63) mod 2 ^ 64 - 2 ^ 63"

record token_resp =
  tkAccessToken :: string
  tkExpiresIn :: int
  tkRefreshToken :: string
  tkRefreshTokenExpiresIn :: int
  tkScope :: string
  tkCode :: int
  tkError :: string
  tkErrorDesc :: string

definition token_zero :: token_resp where
  "token_zero = \<lparr>tkAccessToken = [], tkExpiresIn = 0, tkRefreshToken = [], tkRefreshTokenExpiresIn = 0,
     tkScope = [], tkCode = 0, tkError = [], tkErrorDesc = []\<rparr>"

definition token_put :: "string \<Rightarrow> json \<Rightarrow> token_resp \<Rightarrow> token_resp option" where
  "token_put f v r =
     (if f = ''access_token'' then put_string v (\<lambda>x. r\<lparr>tkAccessToken := x\<rparr>) r
      else if f = ''expires_in'' then put_int v (\<lambda>x. r\<lparr>tkExpiresIn := x\<rparr>) r
      else if f = ''refresh_token'' then put_string v (\<lambda>x. r\<lparr>tkRefreshToken := x\<rparr>) r
      else if f = ''refresh_token_expires_in'' then put_int v (\<lambda>x. r\<lparr>tkRefreshTokenExpiresIn := x\<rparr>) r
      else if f = ''scope'' then put_string v (\<lambda>x. r\<lparr>tkScope := x\<rparr>) r
      else if f = ''code'' then put_int v (\<lambda>x. r\<lparr>tkCode := x\<rparr>) r
      else if f = ''error'' then put_string v (\<lambda>x. r\<lparr>tkError := x\<rparr>) r
      else if f = ''error_description'' then put_string v (\<lambda>x. r\<lparr>tkErrorDesc := x\<rparr>) r
      else Some r)"

definition token_decode :: "string \<Rightarrow> token_resp option" where
  "token_decode body = Option.bind (read_json body) (decode_struct token_put token_zero)"

text \<open>
  Where the error of \<open>json.Unmarshal\<close> is ignored: text that is not JSON decodes nothing, a member of the
  wrong type is skipped and the others are decoded.
\<close>

definition lenient :: "(string \<Rightarrow> json \<Rightarrow> 'r \<Rightarrow> 'r option) \<Rightarrow> string \<Rightarrow> json \<Rightarrow> 'r \<Rightarrow> 'r option" where
  "lenient put f v r = (case put f v r of None \<Rightarrow> Some r | Some r' \<Rightarrow> Some r')"

definition token_decode_lenient :: "string \<Rightarrow> token_resp" where
  "token_decode_lenient body =
     (case Option.bind (read_json body) (decode_struct (lenient token_put) token_zero) of
        None \<Rightarrow> token_zero | Some t \<Rightarrow> t)"

definition FeishuTokenEndpoint :: string where
  "FeishuTokenEndpoint = ''https://open.feishu.cn/open-apis/authen/v2/oauth/token''"

text \<open>A POST of a JSON body: the status and body of the response, or the transport's error.\<close>

type_synonym 'w http_post = "string \<Rightarrow> string \<Rightarrow> 'w \<Rightarrow> 'w \<times> (go_error + (int \<times> string))"

record 'w refresher =
  rfAppID :: string
  rfAppSecret :: string
  rfStore :: "'w cred_store option"
  rfStartURL :: "(string \<Rightarrow> 'w \<Rightarrow> go_error + string) option"
  rfPost :: "'w http_post"

definition reauthorize :: "'w refresher \<Rightarrow> string \<Rightarrow> 'w \<Rightarrow> 'w \<times> go_error" where
  "reauthorize r openID w =
     (let w1 = (case rfStore r of
                  Some st \<Rightarrow> if openID \<noteq> [] then fst (cred_Delete st openID w) else w
                | None \<Rightarrow> w)
      in case rfStartURL r of
           None \<Rightarrow> (w1, ReauthorizeError [])
         | Some start \<Rightarrow>
             (case start openID w1 of Inl err \<Rightarrow> (w1, err) | Inr u \<Rightarrow> (w1, ReauthorizeError u)))"

definition refresh_body :: "'w refresher \<Rightarrow> credential \<Rightarrow> string" where
  "refresh_body r cred =
     print_json (go_map [(''grant_type'', jstr ''refresh_token''), (''client_id'', jstr (rfAppID r)),
       (''client_secret'', jstr (rfAppSecret r)), (''refresh_token'', jstr (crRefreshToken cred))])"

definition updated_credential :: "credential \<Rightarrow> token_resp \<Rightarrow> time \<Rightarrow> credential" where
  "updated_credential cred tok now =
     (let c1 = cred\<lparr>crAccessToken := tkAccessToken tok\<rparr>;
          c2 = (if tkRefreshToken tok \<noteq> [] then c1\<lparr>crRefreshToken := tkRefreshToken tok\<rparr> else c1);
          c3 = c2\<lparr>crAccessExpiresAt := now + wrap64 (tkExpiresIn tok * sec)\<rparr>;
          c4 = (if 0 < tkRefreshTokenExpiresIn tok
                then c3\<lparr>crRefreshExpiresAt := now + wrap64 (tkRefreshTokenExpiresIn tok * sec)\<rparr> else c3)
      in if tkScope tok \<noteq> [] then c4\<lparr>crScopes := Fields (tkScope tok)\<rparr> else c4)"

text \<open>\<open>clock\<close> reads the time in a world.\<close>

definition RefreshIfNeeded ::
  "go_error \<Rightarrow> ('w \<Rightarrow> time) \<Rightarrow> 'w refresher \<Rightarrow> credential option \<Rightarrow> 'w \<Rightarrow> 'w \<times> (go_error + credential option)" where
  "RefreshIfNeeded merr clock r credo w =
     (case credo of None \<Rightarrow> (w, Inr None)
      | Some cred \<Rightarrow>
          if clock w + 60 * sec < crAccessExpiresAt cred then (w, Inr (Some cred))
          else if crRefreshToken cred = [] then
            (let (w1, e) = reauthorize r (crOpenID cred) w in (w1, Inl e))
          else case rfPost r FeishuTokenEndpoint (refresh_body r cred) w of
              (w1, Inl err) \<Rightarrow> (w1, Inl err)
            | (w1, Inr (status, body)) \<Rightarrow>
                (let tok = token_decode_lenient body
                 in if 400 \<le> status \<or> tkCode tok \<noteq> 0 \<or> tkError tok \<noteq> [] then
                      (if 400 \<le> status \<and> status < 500 \<or> tkCode tok \<noteq> 0 \<or> tkError tok \<noteq> [] then
                         (let w2 = (case rfStore r of
                                      Some st \<Rightarrow> if crOpenID cred \<noteq> [] then fst (cred_Delete st (crOpenID cred) w1) else w1
                                    | None \<Rightarrow> w1);
                              (w3, e) = reauthorize r (crOpenID cred) w2
                          in (w3, Inl e))
                       else (w1, Inl (Errorf (''refresh token endpoint status='' @ dec_int status
                           @ '' code='' @ dec_int (tkCode tok)))))
                    else if tkAccessToken tok = [] then (w1, Inl (Errorf ''refresh returned empty access_token''))
                    else let updated = updated_credential cred tok (clock w1)
                         in case rfStore r of
                              None \<Rightarrow> (w1, Inr (Some updated))
                            | Some st \<Rightarrow>
                                (case cred_Save merr st (Some updated) w1 of
                                   (w2, Some e) \<Rightarrow> (w2, Inl e)
                                 | (w2, None) \<Rightarrow> (w2, Inr (Some updated)))))"

section \<open>The HTTP server (server.go)\<close>

text \<open>What a handler reads of a request and what it writes.\<close>

record http_request =
  hqQuery :: "string gomap"
  hqForwardedFor :: string
  hqRemoteAddr :: string

record http_response =
  hsStatus :: int
  hsContentType :: string
  hsLocation :: string
  hsBody :: string

definition query_get :: "http_request \<Rightarrow> string \<Rightarrow> string" where
  "query_get q k = (case map_of (hqQuery q) k of Some v \<Rightarrow> v | None \<Rightarrow> [])"

text \<open>\<open>http.Error\<close>.\<close>

definition http_error :: "string \<Rightarrow> int \<Rightarrow> http_response" where
  "http_error msg code =
     \<lparr>hsStatus = code, hsContentType = ''text/plain; charset=utf-8'', hsLocation = [], hsBody = msg
         @ NL\<rparr>"

text \<open>\<open>url.QueryEscape\<close> and \<open>Values.Encode\<close> (keys sorted).\<close>

definition hex_upper :: "nat \<Rightarrow> char" where
  "hex_upper n = (if n < 10 then char_of (48 + n) else char_of (55 + n))"

definition query_escape :: "string \<Rightarrow> string" where
  "query_escape s = concat (map (\<lambda>c.
     if is_digit c \<or> (65 \<le> byte c \<and> byte c \<le> 90) \<or> (97 \<le> byte c \<and> byte c \<le> 122)
        \<or> c = CHR ''-'' \<or> c = CHR ''_'' \<or> c = CHR ''.'' \<or> c = CHR 0x7E then [c]
     else if c = CHR '' '' then ''+''
     else [CHR 0x25, hex_upper (byte c div 16), hex_upper (byte c mod 16)]) s)"

definition values_encode :: "(string \<times> string) list \<Rightarrow> string" where
  "values_encode kvs =
     Join (map (\<lambda>(k, v). query_escape k @ ''='' @ query_escape v) (sort_key fst kvs)) ''&''"

definition FeishuAuthorizeURL :: string where
  "FeishuAuthorizeURL = ''https://accounts.feishu.cn/open-apis/authen/v1/authorize''"

record oauth_config =
  ocPublicBaseURL :: string
  ocAppID :: string
  ocAppSecret :: string
  ocScopes :: "string list"

text \<open>A server: its configuration, signing key, store, the optional notifier and the transport.\<close>

record 'w oauth_server =
  osCfg :: oauth_config
  osMac :: mac_fn
  osKey :: string
  osNonce :: "'w \<Rightarrow> go_error + string"
  osStore :: "'w cred_store"
  osNotify :: "(string \<Rightarrow> string \<Rightarrow> 'w \<Rightarrow> 'w \<times> go_error option) option"
  osPost :: "'w http_post"
  osOverride :: string

text \<open>The token endpoint; tests replace it through a package variable that is empty in a running program.\<close>

definition OverrideTokenEndpointForTest :: "'w oauth_server \<Rightarrow> string \<Rightarrow> 'w oauth_server" where
  "OverrideTokenEndpointForTest s url = s\<lparr>osOverride := url\<rparr>"

definition token_endpoint :: "'w oauth_server \<Rightarrow> string" where
  "token_endpoint s = (if osOverride s \<noteq> [] then osOverride s else FeishuTokenEndpoint)"

definition StartURL :: "'w oauth_server \<Rightarrow> string \<Rightarrow> 'w \<Rightarrow> go_error + string" where
  "StartURL s openID w =
     (case Sign (osMac s) (osKey s) (osNonce s w) openID of
        Inl err \<Rightarrow> Inl err
      | Inr state \<Rightarrow> Inr (TrimRight (ocPublicBaseURL (osCfg s)) ''/'' @ ''/oauth/start?state='' @ state))"

definition handleHealth :: http_response where
  "handleHealth = \<lparr>hsStatus = 200, hsContentType = ''text/plain; charset=utf-8'', hsLocation = [], hsBody = ''ok''\<rparr>"

definition redirect_uri :: "'w oauth_server \<Rightarrow> string" where
  "redirect_uri s = TrimRight (ocPublicBaseURL (osCfg s)) ''/'' @ ''/oauth/callback''"

text \<open>\<open>http.Redirect\<close> also writes a short HTML page, not modelled.\<close>

definition handleStart :: "'w oauth_server \<Rightarrow> http_request \<Rightarrow> http_response" where
  "handleStart s q =
     (let state = query_get q ''state''
      in if state = [] then http_error ''invalid state'' 400
         else case Verify (osMac s) (osKey s) state of
             Inl e \<Rightarrow> http_error ''invalid state'' 400
           | Inr user \<Rightarrow>
               \<lparr>hsStatus = 302, hsContentType = ''text/html; charset=utf-8'',
                hsLocation = FeishuAuthorizeURL @ ''?'' @ values_encode
                  [(''app_id'', ocAppID (osCfg s)), (''redirect_uri'', redirect_uri s), (''state'', state),
                   (''scope'', Join (ocScopes (osCfg s)) '' ''), (''response_type'', ''code'')],
                hsBody = []\<rparr>)"

text \<open>\<open>net.SplitHostPort\<close>, the host only.\<close>

fun last_index :: "char \<Rightarrow> string \<Rightarrow> nat option" where
  "last_index c [] = None"
| "last_index c (x # s) =
     (case last_index c s of Some i \<Rightarrow> Some (Suc i) | None \<Rightarrow> if x = c then Some 0 else None)"

definition SplitHostPort :: "string \<Rightarrow> string option" where
  "SplitHostPort hp =
     (case last_index (CHR '':'') hp of None \<Rightarrow> None
      | Some i \<Rightarrow>
          (let res =
             (if take 1 hp = ''['' then
                (case find_char (CHR '']'') hp of None \<Rightarrow> None
                 | Some e \<Rightarrow> if e + 1 = i then Some (take (e - 1) (drop 1 hp), 1, e + 1) else None)
              else if CHR '':'' \<in> set (take i hp) then None
              else Some (take i hp, 0, 0))
           in case res of None \<Rightarrow> None
              | Some (host, j, k) \<Rightarrow>
                  if CHR ''['' \<in> set (drop j hp) \<or> CHR '']'' \<in> set (drop k hp) then None else Some host))"

definition clientIP :: "http_request \<Rightarrow> string" where
  "clientIP q =
     (let xff = hqForwardedFor q
      in if xff \<noteq> [] then
           (case find_char (CHR '','') xff of
              Some idx \<Rightarrow> if 0 < idx then TrimSpace (take idx xff) else TrimSpace xff
            | None \<Rightarrow> TrimSpace xff)
         else case SplitHostPort (hqRemoteAddr q) of
             Some host \<Rightarrow> if host \<noteq> [] then host else hqRemoteAddr q
           | None \<Rightarrow> hqRemoteAddr q)"

section \<open>The rate limiter (server.go)\<close>

text \<open>\<open>lastScan\<close> is Go's zero time at the start, so the first call always collects.\<close>

record limiter =
  lmWindow :: time
  lmBurst :: nat
  lmByIP :: "time list gomap"
  lmLastScan :: time

definition newCallbackLimiter :: "nat \<Rightarrow> time \<Rightarrow> limiter" where
  "newCallbackLimiter burst window = \<lparr>lmWindow = window, lmBurst = burst, lmByIP = [], lmLastScan = 0\<rparr>"

definition recent :: "limiter \<Rightarrow> time \<Rightarrow> time list \<Rightarrow> time list" where
  "recent l now ts = filter (\<lambda>t. now - lmWindow l < t) ts"

definition limiter_gc :: "time \<Rightarrow> limiter \<Rightarrow> limiter" where
  "limiter_gc now l =
     (if 300 * sec < now - lmLastScan l then
        l\<lparr>lmByIP := filter (\<lambda>(k, ts). ts \<noteq> []) (map (\<lambda>(k, ts). (k, recent l now ts)) (lmByIP l)), lmLastScan := now\<rparr>
      else l)"

definition limiter_allow :: "time \<Rightarrow> string \<Rightarrow> limiter \<Rightarrow> limiter \<times> bool" where
  "limiter_allow now ip l0 =
     (let l = limiter_gc now l0;
          ts = (case map_of (lmByIP l) ip of Some ts \<Rightarrow> ts | None \<Rightarrow> []);
          nts = recent l now ts
      in if lmBurst l \<le> length nts then (l\<lparr>lmByIP := AList.update ip nts (lmByIP l)\<rparr>, False)
         else (l\<lparr>lmByIP := AList.update ip (nts @ [now]) (lmByIP l)\<rparr>, True))"

section \<open>The callback (server.go)\<close>

definition exchange_body :: "'w oauth_server \<Rightarrow> string \<Rightarrow> string" where
  "exchange_body s code =
     print_json (go_map [(''grant_type'', jstr ''authorization_code''), (''client_id'', jstr (ocAppID (osCfg s))),
       (''client_secret'', jstr (ocAppSecret (osCfg s))), (''code'', jstr code),
       (''redirect_uri'', jstr (redirect_uri s))])"

definition credential_of :: "string \<Rightarrow> token_resp \<Rightarrow> time \<Rightarrow> credential" where
  "credential_of openID tok now =
     credential_zero\<lparr>crOpenID := openID, crAccessToken := tkAccessToken tok, crRefreshToken := tkRefreshToken tok,
       crAccessExpiresAt := now + wrap64 (tkExpiresIn tok * sec),
       crRefreshExpiresAt := now + wrap64 (tkRefreshTokenExpiresIn tok * sec),
       crScopes := Fields (tkScope tok), crGrantedAt := now\<rparr>"

definition exchange ::
  "(string \<Rightarrow> go_error) \<Rightarrow> ('w \<Rightarrow> time) \<Rightarrow> 'w oauth_server \<Rightarrow> string \<Rightarrow> string \<Rightarrow> 'w \<Rightarrow> 'w \<times> (go_error + credential)" where
  "exchange jerr clock s code openID w =
     (case osPost s (token_endpoint s) (exchange_body s code) w of
        (w1, Inl err) \<Rightarrow> (w1, Inl (if errors_Is err DeadlineExceeded then ErrUpstreamTimeout else err))
      | (w1, Inr (status, body)) \<Rightarrow>
          if 400 \<le> status then (w1, Inl (Errorf (''token endpoint status '' @ dec_int status)))
          else (case token_decode body of
                  None \<Rightarrow> (w1, Inl (Wrapf ''parse token response'' (jerr body)))
                | Some tok \<Rightarrow>
                    if tkCode tok \<noteq> 0 \<and> tkAccessToken tok = [] then (w1, Inl (Errorf (''feishu code='' @ dec_int (tkCode tok))))
                    else if tkError tok \<noteq> [] then
                      (w1, Inl (Errorf (''feishu error='' @ tkError tok @ '' desc='' @ tkErrorDesc tok)))
                    else if tkAccessToken tok = [] then (w1, Inl (Errorf ''empty access_token''))
                    else (w1, Inr (credential_of openID tok (clock w1)))))"

definition success_page :: string where
  "success_page = (''<!doctype html><meta charset=utf-8><title>'' @ utf8 [0x6388, 0x6743, 0x6210, 0x529F]
      @ ''</title><body style='' @ [CHR 0x22] @ ''font-family:sans-serif;padding:2em'' @ [CHR 0x22]
      @ ''><h1>'' @ utf8 [0x2705] @ '' '' @ utf8 [0x6388, 0x6743, 0x6210, 0x529F] @ ''</h1><p>''
      @ utf8 [0x8BF7, 0x56DE, 0x5230, 0x98DE, 0x4E66, 0x7EE7, 0x7EED, 0x63D0, 0x95EE, 0x3002, 0x53EF, 0x4EE5, 0x5173, 0x95ED, 0x6B64, 0x9875, 0x9762, 0x3002] @ ''</p>'')"

definition handleCallback ::
  "go_error \<Rightarrow> (string \<Rightarrow> go_error) \<Rightarrow> ('w \<Rightarrow> time) \<Rightarrow> 'w oauth_server \<Rightarrow> http_request \<Rightarrow> limiter \<Rightarrow> 'w \<Rightarrow>
   limiter \<times> 'w \<times> http_response" where
  "handleCallback merr jerr clock s q l w =
     (case limiter_allow (clock w) (clientIP q) l of
        (l1, False) \<Rightarrow> (l1, w, http_error ''too many requests'' 429)
      | (l1, True) \<Rightarrow>
          (let code = query_get q ''code''; state = query_get q ''state''
           in if code = [] \<or> state = [] then (l1, w, http_error ''invalid request'' 400)
              else case Verify (osMac s) (osKey s) state of
                  Inl e \<Rightarrow> (l1, w, http_error ''invalid state'' 400)
                | Inr openID \<Rightarrow>
                    (case exchange jerr clock s code openID w of
                       (w1, Inl err) \<Rightarrow>
                         (if errors_Is err ErrUpstreamTimeout
                          then (l1, w1, http_error (utf8 [0x6388, 0x6743, 0x670D, 0x52A1, 0x6682, 0x65F6, 0x4E0D, 0x53EF, 0x7528]) 504)
                          else (l1, w1, http_error (utf8 [0x6388, 0x6743, 0x5931, 0x8D25, 0xFF0C, 0x8BF7, 0x7A0D, 0x540E, 0x91CD, 0x8BD5]) 400))
                     | (w1, Inr cred) \<Rightarrow>
                         (case cred_Save merr (osStore s) (Some cred) w1 of
                            (w2, Some e) \<Rightarrow> (l1, w2, http_error (utf8 [0x6388, 0x6743, 0x5B58, 0x50A8, 0x5931, 0x8D25, 0xFF0C, 0x8BF7, 0x7A0D, 0x540E, 0x91CD, 0x8BD5]) 500)
                          | (w2, None) \<Rightarrow>
                              (let w3 = (case osNotify s of None \<Rightarrow> w2
                                         | Some notify \<Rightarrow> fst (notify openID (utf8 [0x2705]
                                             @ '' '' @ utf8 [0x6388, 0x6743, 0x6210, 0x529F, 0xFF0C, 0x8BF7, 0x56DE, 0x5230, 0x98DE, 0x4E66, 0x7EE7, 0x7EED, 0x63D0, 0x95EE, 0x3002]) w2))
                               in (l1, w3, \<lparr>hsStatus = 200, hsContentType = ''text/html; charset=utf-8'',
                                            hsLocation = [], hsBody = success_page\<rparr>))))))"

section \<open>The limiter is a sliding window\<close>

text \<open>The calls in order, each with its time and its client.\<close>

fun limiter_run :: "limiter \<Rightarrow> (time \<times> string) list \<Rightarrow> bool list" where
  "limiter_run l [] = []"
| "limiter_run l ((now, ip) # cs) = (let (l', ok) = limiter_allow now ip l in ok # limiter_run l' cs)"

text \<open>The specification keeps every admitted call and counts the client's in the t0 window.\<close>

fun window_spec :: "nat \<Rightarrow> time \<Rightarrow> (string \<times> time) list \<Rightarrow> (time \<times> string) list \<Rightarrow> bool list" where
  "window_spec burst window hist [] = []"
| "window_spec burst window hist ((now, ip) # cs) =
     (let ok = length (filter (\<lambda>(i, t). i = ip \<and> now - window < t) hist) < burst
      in ok # window_spec burst window (if ok then hist @ [(ip, now)] else hist) cs)"

definition ip_times :: "limiter \<Rightarrow> string \<Rightarrow> time list" where
  "ip_times l ip = (case map_of (lmByIP l) ip of Some ts \<Rightarrow> ts | None \<Rightarrow> [])"

definition hist_times :: "(string \<times> time) list \<Rightarrow> string \<Rightarrow> time list" where
  "hist_times hist ip = map snd (filter (\<lambda>(i, t). i = ip) hist)"

definition limiter_rel :: "limiter \<Rightarrow> (string \<times> time) list \<Rightarrow> time \<Rightarrow> bool" where
  "limiter_rel l hist t0 \<longleftrightarrow> keys_ok (lmByIP l) \<and>
     (\<forall>ip now. t0 \<le> now \<longrightarrow> recent l now (ip_times l ip) = recent l now (hist_times hist ip))"

lemma recent_recent: "now \<le> now' \<Longrightarrow> recent l now' (recent l now ts) = recent l now' ts"
proof -
  assume "now \<le> now'"
  then have "now' - lmWindow l < t \<Longrightarrow> now - lmWindow l < t" for t by linarith
  then show ?thesis by (auto simp: recent_def intro!: filter_cong)
qed

lemma map_of_nonempty:
  "keys_ok m \<Longrightarrow> map_of (filter (\<lambda>(k, ts). ts \<noteq> []) m) k =
     (case map_of m k of Some ts \<Rightarrow> if ts = [] then None else Some ts | None \<Rightarrow> None)"
proof (induction m)
  case (Cons p m)
  obtain a ts where p: "p = (a, ts)" by (cases p)
  have "map_of m a = None" using Cons.prems p by (simp add: map_of_eq_None_iff)
  with Cons p show ?case by auto
qed simp

lemma map_of_map_snd: "map_of (map (\<lambda>(k, ts). (k, f ts)) m) k = map_option f (map_of m k)"
  by (induction m) auto

lemma fst_map_snd: "map fst (map (\<lambda>(k, ts). (k, f ts)) m) = map fst m"
  by (induction m) auto

lemma gc_fields [simp]: "lmWindow (limiter_gc now l) = lmWindow l" "lmBurst (limiter_gc now l) = lmBurst l"
  by (simp_all add: limiter_gc_def)

lemma recent_gc [simp]: "recent (limiter_gc now l) t = recent l t"
  by (simp add: recent_def fun_eq_iff)

lemma gc_times:
  assumes "keys_ok (lmByIP l)"
  shows "ip_times (limiter_gc now l) ip = ip_times l ip \<or> ip_times (limiter_gc now l) ip = recent l now (ip_times l ip)"
proof (cases "300 * sec < now - lmLastScan l")
  case True
  have k: "keys_ok (map (\<lambda>(k, ts). (k, recent l now ts)) (lmByIP l))"
    using assms by (simp only: fst_map_snd)
  show ?thesis
    using True map_of_nonempty [OF k, of ip]
    by (auto simp: limiter_gc_def ip_times_def map_of_map_snd recent_def split: option.splits)
qed (simp add: limiter_gc_def)

lemma gc_rel:
  assumes "limiter_rel l hist t0" "t0 \<le> now"
  shows "limiter_rel (limiter_gc now l) hist now"
proof -
  have k: "keys_ok (lmByIP l)" using assms(1) by (simp add: limiter_rel_def)
  have "keys_ok (lmByIP (limiter_gc now l))"
    using k by (auto simp: limiter_gc_def distinct_map_filter fst_map_snd simp del: map_map)
  moreover have "recent l now' (ip_times (limiter_gc now l) ip) = recent l now' (hist_times hist ip)" if "now \<le> now'" for ip now'
  proof -
    have "recent l now' (ip_times l ip) = recent l now' (hist_times hist ip)"
      using assms that by (auto simp: limiter_rel_def)
    with gc_times [OF k, of now ip] recent_recent [OF that] show ?thesis by metis
  qed
  ultimately show ?thesis by (simp add: limiter_rel_def)
qed

lemma length_recent_hist:
  "length (recent l now (hist_times hist ip)) = length (filter (\<lambda>(i, t). i = ip \<and> now - lmWindow l < t) hist)"
  by (induction hist) (auto simp: recent_def hist_times_def)

lemma allow_rel:
  assumes "limiter_rel l0 hist t0" "t0 \<le> now" "limiter_allow now ip l0 = (l', ok)"
  shows "(ok \<longleftrightarrow> length (filter (\<lambda>(i, t). i = ip \<and> now - lmWindow l0 < t) hist) < lmBurst l0) \<and>
    limiter_rel l' (if ok then hist @ [(ip, now)] else hist) now \<and> lmWindow l' = lmWindow l0 \<and> lmBurst l' = lmBurst l0"
proof -
  let ?l = "limiter_gc now l0"
  let ?n = "recent l0 now (ip_times ?l ip)"
  have rel: "limiter_rel ?l hist now" by (rule gc_rel [OF assms(1,2)])
  have n: "?n = recent l0 now (hist_times hist ip)" using rel by (simp add: limiter_rel_def)
  have l': "(l', ok) = (if lmBurst l0 \<le> length ?n then (?l\<lparr>lmByIP := AList.update ip ?n (lmByIP ?l)\<rparr>, False)
      else (?l\<lparr>lmByIP := AList.update ip (?n @ [now]) (lmByIP ?l)\<rparr>, True))"
    using assms(3) unfolding limiter_allow_def Let_def ip_times_def [symmetric] recent_gc gc_fields by simp
  have ok: "ok \<longleftrightarrow> length (filter (\<lambda>(i, t). i = ip \<and> now - lmWindow l0 < t) hist) < lmBurst l0"
    using l' n length_recent_hist [of l0 now hist ip] by (auto split: if_splits)
  have same: "lmWindow l' = lmWindow l0" "lmBurst l' = lmBurst l0" using l' by (auto split: if_splits)
  have r: "recent l' = recent l0" using same by (simp add: recent_def fun_eq_iff)
  have times: "ip_times l' j = (if j = ip then (if ok then ?n @ [now] else ?n) else ip_times ?l j)" for j
    using l' by (auto simp: ip_times_def update_conv' split: if_splits)
  have "recent l0 t (ip_times l' j) = recent l0 t (hist_times (if ok then hist @ [(ip, now)] else hist) j)" if "now \<le> t" for t j
  proof (cases "j = ip")
    case True
    have "recent l0 t ?n = recent l0 t (hist_times hist ip)" using n recent_recent [OF that, of l0] by simp
    with True times [of j] show ?thesis by (auto simp: hist_times_def recent_def)
  next
    case False
    with times [of j] rel that show ?thesis by (auto simp: limiter_rel_def hist_times_def)
  qed
  moreover have "keys_ok (lmByIP l')" using l' rel by (auto simp: limiter_rel_def split: if_splits)
  ultimately show ?thesis using ok same r by (simp add: limiter_rel_def)
qed

lemma run_rel:
  "limiter_rel l hist t0 \<Longrightarrow> sorted (t0 # map fst cs) \<Longrightarrow>
   limiter_run l cs = window_spec (lmBurst l) (lmWindow l) hist cs"
proof (induction cs arbitrary: l hist t0)
  case (Cons c cs)
  obtain now ip where c: "c = (now, ip)" by (cases c)
  obtain l' ok where a: "limiter_allow now ip l = (l', ok)" by fastforce
  have "t0 \<le> now" "sorted (now # map fst cs)" using Cons.prems(2) c by auto
  note r = allow_rel [OF Cons.prems(1) \<open>t0 \<le> now\<close> a]
  then have rel: "limiter_rel l' (if ok then hist @ [(ip, now)] else hist) now" by blast
  have "limiter_run l' cs = window_spec (lmBurst l) (lmWindow l) (if ok then hist @ [(ip, now)] else hist) cs"
    using Cons.IH [OF rel] \<open>sorted (now # map fst cs)\<close> r by simp
  with c a r show ?case by (simp add: Let_def)
qed simp

text \<open>C14 For calls whose times do not decrease, the limiter with its garbage collection admits a call exactly
  when fewer than the allowed number of calls of this client were admitted in the window before it.\<close>
theorem limiter_is_sliding_window:
  assumes "sorted (map fst cs)"
  shows "limiter_run (newCallbackLimiter burst window) cs = window_spec burst window [] cs"
proof (cases cs)
  case (Cons c cs')
  have "limiter_rel (newCallbackLimiter burst window) [] (fst c)"
    by (simp add: limiter_rel_def newCallbackLimiter_def ip_times_def hist_times_def)
  from run_rel [OF this, of cs] assms Cons show ?thesis by (simp add: newCallbackLimiter_def)
qed simp

theorem limiter_is_sliding_window_witness:
  "limiter_run (newCallbackLimiter 1 60) [(1, ''a''), (2, ''a''), (3, ''b''), (62, ''a'')] = [True, False, True, True]"
  using limiter_is_sliding_window [of "[(1, ''a''), (2, ''a''), (3, ''b''), (62, ''a'')]" 1 60] by simp

section \<open>The stored credential\<close>

text \<open>
  What is documented of \<open>EXPIREAT\<close>: a deadline that has passed deletes the key, one more than a second
  ahead keeps it (the client sends whole seconds); and of the cipher.
\<close>

definition expire_laws :: "'w cred_store \<Rightarrow> ('w \<Rightarrow> keyspace) \<Rightarrow> ('w \<Rightarrow> time) \<Rightarrow> bool" where
  "expire_laws st view clock \<longleftrightarrow>
     (\<forall>k t w w' r. csExpireAt st k t w = (w', r) \<longrightarrow>
        (view w' = view w \<or> view w' = (view w)(k := None)) \<and>
        (r = None \<and> t \<le> clock w \<longrightarrow> view w' = (view w)(k := None)) \<and>
        (clock w + sec \<le> t \<longrightarrow> view w' = view w)) \<and>
     (\<forall>k v ttl w. clock w \<le> clock (fst (rcSet (csRdb st) k v ttl w)))"

definition aead_laws :: "'w cred_store \<Rightarrow> bool" where
  "aead_laws st \<longleftrightarrow>
     (\<forall>w n. csNonce st w = Inr n \<longrightarrow> length n = aeNonceSize (csEnc st)) \<and>
     (\<forall>n p. aeOpen (csEnc st) n (aeSeal (csEnc st) n p) = Some p)"

lemma Open_Seal: "aead_laws st \<Longrightarrow> Seal (csEnc st) (csNonce st w) pt = Inr env \<Longrightarrow> Open (csEnc st) env = Inr pt"
  by (auto simp: aead_laws_def Seal_def Open_def Let_def split: sum.splits)

lemma cred_field_keys [simp]:
  "field_key ''open_id''" "field_key ''access_token''" "field_key ''refresh_token''"
  "field_key ''access_expires_at''" "field_key ''refresh_expires_at''" "field_key ''scopes''"
  "field_key ''granted_at''" "field_key ''last_used_at''"
  by (simp_all add: field_key_def)

lemmas wf_cred_keys = cred_field_keys [THEN wf_body_key]

lemma scopes_roundtrip: "decode_all string_unjson (map (\<lambda>s. jstr s) ss) = Some (map sanitize ss)"
  by (rule decode_all_map) (simp add: string_unjson_def)

lemma credential_codec: "credential_encode c = Some raw \<Longrightarrow> credential_decode raw = Some (norm_credential c)"
proof -
  assume "credential_encode c = Some raw"
  then obtain v where v: "credential_json c = Some v" "raw = print_json v" by (auto simp: credential_encode_def)
  from v(1) obtain a r g l where t: "time_json (crAccessExpiresAt c) = Some a" "time_json (crRefreshExpiresAt c) = Some r"
    "time_json (crGrantedAt c) = Some g" "time_json (crLastUsedAt c) = Some l"
    by (auto simp: credential_json_def split: option.splits)
  let ?sc = "if crScopes c = [] then [] else [(''scopes'', JArr (map (\<lambda>s. jstr s) (crScopes c)))]"
  have vv: "v = JObj ([(''open_id'', jstr (crOpenID c)), (''access_token'', jstr (crAccessToken c)),
            (''refresh_token'', jstr (crRefreshToken c)), (''access_expires_at'', a), (''refresh_expires_at'', r)]
           @ ?sc @ [(''granted_at'', g), (''last_used_at'', l)])"
    using v(1) t by (simp add: credential_json_def)
  have scopes: "decode_members credential_put x (?sc @ ms) = decode_members credential_put (x\<lparr>crScopes := map sanitize (crScopes c)\<rparr>) ms"
    if "crScopes x = []" for x ms
  proof (cases "crScopes c = []")
    case True
    with that show ?thesis by (cases x) simp
  next
    case False
    have "credential_put ''scopes'' (JArr (map (\<lambda>s. jstr s) (crScopes c))) x = Some (x\<lparr>crScopes := map sanitize (crScopes c)\<rparr>)"
      by (simp add: credential_put_def put_list_def scopes_roundtrip)
    with False show ?thesis by (simp add: decode_members_field del: decode_members.simps(2))
  qed
  have wf: "wf_json v" unfolding vv by (auto simp: wf_cred_keys wf_time_json [OF t(1)] wf_time_json [OF t(2)]
      wf_time_json [OF t(3)] wf_time_json [OF t(4)] list_all_iff)
  have "decode_struct credential_put credential_zero v = Some (norm_credential c)"
    unfolding vv using t
    by (simp add: decode_members_field scopes credential_put_def put_time_json credential_zero_def norm_credential_def
        del: decode_members.simps(2))
  with wf v(2) show ?thesis by (simp add: credential_decode_def read_json_print)
qed

lemma cred_Save_view:
  assumes "redis_laws (csRdb st) view" "cred_Save merr st (Some c) w = (w', None)"
  obtains pt env w1 where "credential_encode c = Some pt" "Seal (csEnc st) (csNonce st w) pt = Inr env"
    "rcSet (csRdb st) (credKey (crOpenID c)) env 0 w = (w1, None)" "view w1 = (view w)(credKey (crOpenID c) \<mapsto> env)"
    "if crRefreshExpiresAt c \<noteq> 0 then csExpireAt st (credKey (crOpenID c)) (crRefreshExpiresAt c) w1 = (w', None) else w' = w1"
proof -
  obtain pt env w1 where s: "credential_encode c = Some pt" "Seal (csEnc st) (csNonce st w) pt = Inr env"
    "rcSet (csRdb st) (credKey (crOpenID c)) env 0 w = (w1, None)"
    "if crRefreshExpiresAt c \<noteq> 0 then csExpireAt st (credKey (crOpenID c)) (crRefreshExpiresAt c) w1 = (w', None) else w' = w1"
    using assms(2) by (auto simp: cred_Save_def split: if_splits option.splits sum.splits prod.splits)
  moreover have "view w1 = (view w)(credKey (crOpenID c) \<mapsto> env)"
    using redis_set [OF assms(1) s(3)] by simp
  ultimately show thesis using that by blast
qed

text \<open>C16 A credential that was saved is read back (text that is not UTF-8 replaced), when it has no refresh
  expiry or one more than a second ahead.\<close>
theorem credential_save_get:
  assumes "redis_laws (csRdb st) view" "expire_laws st view clock" "aead_laws st"
    and "cred_Save merr st (Some c) w = (w', None)"
    and "crRefreshExpiresAt c = 0 \<or>
      (\<forall>env w1. rcSet (csRdb st) (credKey (crOpenID c)) env 0 w = (w1, None) \<longrightarrow> clock w1 + sec \<le> crRefreshExpiresAt c)"
    and "cred_Get jerr st (crOpenID c) w' = (w2, Inr r)"
  shows "r = Some (norm_credential c)"
proof -
  obtain pt env w1 where s: "credential_encode c = Some pt" "Seal (csEnc st) (csNonce st w) pt = Inr env"
    "rcSet (csRdb st) (credKey (crOpenID c)) env 0 w = (w1, None)" "view w1 = (view w)(credKey (crOpenID c) \<mapsto> env)"
    "if crRefreshExpiresAt c \<noteq> 0 then csExpireAt st (credKey (crOpenID c)) (crRefreshExpiresAt c) w1 = (w', None) else w' = w1"
    by (rule cred_Save_view [OF assms(1,4)])
  have "view w' = view w1"
  proof (cases "crRefreshExpiresAt c = 0")
    case False
    with assms(5) s(3,5) have "clock w1 + sec \<le> crRefreshExpiresAt c"
      "csExpireAt st (credKey (crOpenID c)) (crRefreshExpiresAt c) w1 = (w', None)" by auto
    with assms(2) show ?thesis unfolding expire_laws_def by blast
  qed (use s(5) in simp)
  with s(4) have "view w' (credKey (crOpenID c)) = Some env" by simp
  with assms(6) redis_get [OF assms(1)] Open_Seal [OF assms(3) s(2)] credential_codec [OF s(1)] show ?thesis
    by (auto simp: cred_Get_def split: prod.splits get_reply.splits)
qed

text \<open>C39 A token response without a refresh lifetime is lost: the callback stores the credential with a deadline
  that has already passed, which deletes it, although saving succeeds.\<close>
theorem no_refresh_lifetime_not_stored:
  assumes "redis_laws (csRdb st) view" "expire_laws st view clock"
    and "tkRefreshTokenExpiresIn tok = 0" "clock w \<noteq> 0"
    and "cred_Save merr st (Some (credential_of openID tok (clock w))) w = (w', None)"
  shows "view w' (credKey openID) = None"
proof -
  let ?c = "credential_of openID tok (clock w)"
  have c: "crRefreshExpiresAt ?c = clock w" "crOpenID ?c = openID"
    using assms(3) by (simp_all add: credential_of_def wrap64_def)
  obtain pt env w1 where s: "rcSet (csRdb st) (credKey (crOpenID ?c)) env 0 w = (w1, None)"
    "if crRefreshExpiresAt ?c \<noteq> 0 then csExpireAt st (credKey (crOpenID ?c)) (crRefreshExpiresAt ?c) w1 = (w', None) else w' = w1"
    by (rule cred_Save_view [OF assms(1,5)])
  then have e: "csExpireAt st (credKey openID) (clock w) w1 = (w', None)" using assms(4) c by simp
  have "clock w \<le> clock w1" using s(1) assms(2) unfolding expire_laws_def by (metis fst_conv)
  with e assms(2) have "view w' = (view w1)(credKey openID := None)" unfolding expire_laws_def by blast
  then show ?thesis by simp
qed

text \<open>The in-memory server with \<open>EXPIREAT\<close> and a cipher that does nothing.\<close>

definition mr_expire :: "string \<Rightarrow> time \<Rightarrow> mem_redis \<Rightarrow> mem_redis \<times> go_error option" where
  "mr_expire k t w =
     (w\<lparr>mrKeys := (mrKeys w)(k := (case mr_view w k of None \<Rightarrow> None
        | Some v \<Rightarrow> if t \<le> mrNow w then None else Some (v, Some t)))\<rparr>, None)"

definition mr_creds :: "mem_redis cred_store" where
  "mr_creds = \<lparr>csRdb = mr_client, csExpireAt = mr_expire,
     csEnc = \<lparr>aeNonceSize = 0, aeSeal = (\<lambda>n p. p), aeOpen = (\<lambda>n p. Some p)\<rparr>, csNonce = (\<lambda>w. Inr [])\<rparr>"

lemma mr_creds_laws: "redis_laws (csRdb mr_creds) mr_view" "expire_laws mr_creds mr_view mrNow" "aead_laws mr_creds"
proof -
  have e: "mr_view (fst (mr_expire k t w)) = (if t \<le> mrNow w then (mr_view w)(k := None) else mr_view w)" for k t w
    by (auto simp: mr_expire_def mr_view_def fun_eq_iff split: option.splits)
  show "expire_laws mr_creds mr_view mrNow"
  proof -
    have "snd (mr_expire k t w) = None" for k t w by (simp add: mr_expire_def)
    with e show ?thesis
      by (fastforce simp: expire_laws_def mr_creds_def mr_client_def mr_put_def dest: arg_cong [of _ _ fst])
  qed
qed (simp_all add: mr_creds_def mr_laws aead_laws_def)

definition demo_credential :: credential where
  "demo_credential = credential_zero\<lparr>crOpenID := ''ou_1'', crAccessToken := ''at''\<rparr>"

lemma credential_encode_Some:
  assumes "time_json (crAccessExpiresAt c) \<noteq> None" "time_json (crRefreshExpiresAt c) \<noteq> None"
    "time_json (crGrantedAt c) \<noteq> None" "time_json (crLastUsedAt c) \<noteq> None"
  shows "\<exists>pt. credential_encode c = Some pt"
  using assms by (auto simp: credential_encode_def credential_json_def simp del: escape.simps)

lemma time_json_01: "time_json 0 \<noteq> None" "time_json 1 \<noteq> None"
  by (auto simp: time_json_def fmt_RFC3339_def date_of_def year_day_def day_ns_def split: prod.splits)

lemma demo_credential_encode: "\<exists>pt. credential_encode demo_credential = Some pt"
  by (rule credential_encode_Some) (simp_all add: demo_credential_def credential_zero_def time_json_01 del: not_None_eq)

lemma demo_save:
  "credential_encode c = Some pt \<Longrightarrow> crOpenID c \<noteq> [] \<Longrightarrow> crRefreshExpiresAt c = 0 \<Longrightarrow>
   cred_Save merr mr_creds (Some c) w = (mr_put (credKey (crOpenID c)) pt 0 w, None)"
  by (simp add: cred_Save_def mr_creds_def Seal_def mr_client_def)

theorem credential_save_get_witness:
  "\<exists>w' w2. cred_Save (Errorf []) mr_creds (Some demo_credential) mr_empty = (w', None) \<and>
     cred_Get Errorf mr_creds ''ou_1'' w' = (w2, Inr (Some (norm_credential demo_credential)))"
proof -
  obtain pt where pt: "credential_encode demo_credential = Some pt" using demo_credential_encode by blast
  let ?w = "mr_put (credKey (crOpenID demo_credential)) pt 0 mr_empty"
  have d: "crOpenID demo_credential = ''ou_1''" "crRefreshExpiresAt demo_credential = 0"
    by (simp_all add: demo_credential_def credential_zero_def)
  have s: "cred_Save (Errorf []) mr_creds (Some demo_credential) mr_empty = (?w, None)"
    by (rule demo_save [OF pt]) (simp_all add: d)
  obtain w2 r where g: "cred_Get Errorf mr_creds (crOpenID demo_credential) ?w = (w2, Inr r)"
    using credential_codec [OF pt] by (simp add: cred_Get_def mr_creds_def mr_client_def Open_def d)
  have "r = Some (norm_credential demo_credential)"
    by (rule credential_save_get [OF mr_creds_laws s _ g]) (simp add: d)
  with s g d show ?thesis by auto
qed

lemma demo_saves:
  "credential_encode c = Some pt \<Longrightarrow> crOpenID c \<noteq> [] \<Longrightarrow> \<exists>w'. cred_Save merr mr_creds (Some c) w = (w', None)"
proof -
  assume c: "credential_encode c = Some pt" "crOpenID c \<noteq> []"
  have e: "snd (csExpireAt mr_creds k t w) = None" for k t w by (simp add: mr_creds_def mr_expire_def)
  have "snd (cred_Save merr mr_creds (Some c) w) = None"
    using c e by (auto simp: cred_Save_def Seal_def mr_creds_def mr_client_def mr_expire_def)
  then show ?thesis by (metis prod.collapse)
qed

theorem no_refresh_lifetime_not_stored_witness:
  "\<exists>w'. cred_Save (Errorf []) mr_creds (Some (credential_of ''ou_1'' (token_zero\<lparr>tkAccessToken := ''at''\<rparr>) 1)) (mr_empty\<lparr>mrNow := 1\<rparr>) = (w', None) \<and>
     mr_view w' (credKey ''ou_1'') = None"
proof -
  let ?tok = "token_zero\<lparr>tkAccessToken := ''at''\<rparr>"
  let ?w = "mr_empty\<lparr>mrNow := 1\<rparr>"
  let ?c = "credential_of ''ou_1'' ?tok (mrNow ?w)"
  have "\<exists>pt. credential_encode ?c = Some pt"
    by (rule credential_encode_Some)
      (simp_all add: credential_of_def credential_zero_def token_zero_def wrap64_def time_json_01 del: not_None_eq)
  then obtain pt where pt: "credential_encode ?c = Some pt" by blast
  have "crOpenID ?c \<noteq> []" by (simp add: credential_of_def)
  with demo_saves [OF pt] obtain w' where s: "cred_Save (Errorf []) mr_creds (Some ?c) ?w = (w', None)" by blast
  have "mr_view w' (credKey ''ou_1'') = None"
    by (rule no_refresh_lifetime_not_stored [OF mr_creds_laws(1,2) _ _ s]) (simp_all add: token_zero_def)
  with s show ?thesis by auto
qed

section \<open>The callback\<close>

lemma cred_Save_other:
  assumes "redis_laws (csRdb st) view" "expire_laws st view clock" "cred_Save merr st (Some c) w = (w', r)"
    and "k \<noteq> credKey (crOpenID c)"
  shows "view w' k = view w k"
proof (cases "\<exists>pt env. crOpenID c \<noteq> [] \<and> credential_encode c = Some pt \<and> Seal (csEnc st) (csNonce st w) pt = Inr env")
  case False
  then have "w' = w" using assms(3) by (auto simp: cred_Save_def split: option.splits sum.splits if_splits)
  then show ?thesis by simp
next
  case True
  then obtain pt env where p: "crOpenID c \<noteq> []" "credential_encode c = Some pt" "Seal (csEnc st) (csNonce st w) pt = Inr env"
    by blast
  obtain w1 r1 where s: "rcSet (csRdb st) (credKey (crOpenID c)) env 0 w = (w1, r1)" by fastforce
  have v1: "view w1 k = view w k" using redis_set [OF assms(1) s] assms(4) by auto
  obtain w2 r2 where e: "csExpireAt st (credKey (crOpenID c)) (crRefreshExpiresAt c) w1 = (w2, r2)" by fastforce
  have "view w2 = view w1 \<or> view w2 = (view w1)(credKey (crOpenID c) := None)"
    using assms(2) e unfolding expire_laws_def by blast
  then have v2: "view w2 k = view w1 k" using assms(4) by auto
  have "w' = w1 \<or> w' = w2"
    using assms(3) p s e by (auto simp: cred_Save_def split: option.splits if_splits)
  with v1 v2 show ?thesis by auto
qed

lemma exchange_view:
  assumes "\<forall>u b w. view (fst (osPost s u b w)) = view w" "exchange jerr clock s code openID w = (w1, r)"
  shows "view w1 = view w \<and> (\<forall>c. r = Inr c \<longrightarrow> crOpenID c = openID)"
proof -
  obtain w2 q where p: "osPost s (token_endpoint s) (exchange_body s code) w = (w2, q)" by fastforce
  have "view w2 = view w" using assms(1) p by (metis fst_conv)
  moreover have "w1 = w2 \<and> (\<forall>c. r = Inr c \<longrightarrow> crOpenID c = openID)"
    using assms(2) p by (auto simp: exchange_def credential_of_def split: sum.splits prod.splits if_splits option.splits)
  ultimately show ?thesis by simp
qed

text \<open>The callback changes what is stored only for a request with a code and a state token that verifies,
  and then only the credential of the user the token names.\<close>
lemma callback_stores_only_verified:
  assumes laws: "redis_laws (csRdb (osStore s)) view" "expire_laws (osStore s) view clock"
    and post: "\<forall>u b w. view (fst (osPost s u b w)) = view w"
    and notify: "\<forall>n u m w. osNotify s = Some n \<longrightarrow> view (fst (n u m w)) = view w"
    and call: "handleCallback merr jerr clock s q l w = (l', w', resp)"
  shows "view w' = view w \<or>
    (\<exists>user. Verify (osMac s) (osKey s) (query_get q ''state'') = Inr user \<and> query_get q ''code'' \<noteq> [] \<and>
       (\<forall>k. k \<noteq> credKey user \<longrightarrow> view w' k = view w k))"
proof (cases "w' = w")
  case False
  obtain user where user: "Verify (osMac s) (osKey s) (query_get q ''state'') = Inr user" "query_get q ''code'' \<noteq> []"
    using call False by (auto simp: handleCallback_def Let_def split: prod.splits bool.splits if_splits sum.splits)
  obtain w1 r where x: "exchange jerr clock s (query_get q ''code'') user w = (w1, r)" by fastforce
  note v1 = exchange_view [OF post x]
  show ?thesis
  proof (cases r)
    case (Inl err)
    have "w' = w1"
      using call False user x Inl by (auto simp: handleCallback_def Let_def split: prod.splits bool.splits if_splits)
    with v1 show ?thesis by simp
  next
    case (Inr cred)
    obtain w2 e where s: "cred_Save merr (osStore s) (Some cred) w1 = (w2, e)" by fastforce
    have "w' = w2 \<or> (\<exists>n m. osNotify s = Some n \<and> w' = fst (n user m w2))"
      using call False user x Inr s
      by (auto simp: handleCallback_def Let_def split: prod.splits bool.splits if_splits option.splits)
    with notify have "view w' = view w2" by auto
    moreover have "k \<noteq> credKey user \<Longrightarrow> view w2 k = view w k" for k
      using cred_Save_other [OF laws s, of k] v1 Inr by auto
    ultimately show ?thesis using user by auto
  qed
qed simp

definition demo_server :: "mem_redis oauth_server" where
  "demo_server = \<lparr>osCfg = \<lparr>ocPublicBaseURL = ''https://h'', ocAppID = ''a'', ocAppSecret = ''s'', ocScopes = []\<rparr>,
     osMac = demo_mac, osKey = ''k'', osNonce = (\<lambda>w. Inr (replicate 16 (CHR ''n''))), osStore = mr_creds,
     osNotify = None, osPost = (\<lambda>u b w. (w, Inr (200, ''{}''))), osOverride = []\<rparr>"

section \<open>Refreshing\<close>

lemma cred_Delete_other:
  assumes "redis_laws (csRdb st) view" "k \<noteq> credKey u"
  shows "view (fst (cred_Delete st u w)) k = view w k"
proof -
  obtain w' e where d: "rcDel (csRdb st) (credKey u) w = (w', e)" by fastforce
  then show ?thesis using redis_del [OF assms(1) d] assms(2) by (auto simp: cred_Delete_def)
qed

lemma reauthorize_other:
  assumes "redis_laws (csRdb st) view" "rfStore r = Some st" "k \<noteq> credKey u"
  shows "view (fst (reauthorize r u w)) k = view w k"
  using cred_Delete_other [OF assms(1,3)] assms(2)
  by (auto simp: reauthorize_def Let_def split: option.split sum.split)

lemma updated_credential_sel:
  "crOpenID (updated_credential c tok now) = crOpenID c"
  "crAccessToken (updated_credential c tok now) = tkAccessToken tok"
  "crRefreshToken (updated_credential c tok now) = (if tkRefreshToken tok \<noteq> [] then tkRefreshToken tok else crRefreshToken c)"
  by (simp_all add: updated_credential_def Let_def)

definition refreshed_ok :: "go_error \<Rightarrow> 'w cred_store \<Rightarrow> credential \<Rightarrow> 'w \<Rightarrow> credential option \<Rightarrow> bool" where
  "refreshed_ok merr st cred w' res \<longleftrightarrow>
     (\<exists>c w1. res = Some c \<and> crOpenID c = crOpenID cred \<and> crAccessToken c \<noteq> [] \<and> crRefreshToken c \<noteq> [] \<and>
        cred_Save merr st (Some c) w1 = (w', None))"

text \<open>What follows an answer of the token endpoint to a token that is about to expire.\<close>

lemma refresh_answer:
  assumes "redis_laws (csRdb st) view" "expire_laws st view clock" "rfStore r = Some st"
    and "RefreshIfNeeded merr clock r (Some cred) w = (w', res)"
    and stale: "\<not> clock w + 60 * sec < crAccessExpiresAt cred" "crRefreshToken cred \<noteq> []"
    and p: "rfPost r FeishuTokenEndpoint (refresh_body r cred) w = (w1, Inr (status, body))"
  shows "((\<exists>e. res = Inl e) \<or> (\<exists>c. res = Inr c \<and> refreshed_ok merr st cred w' c)) \<and>
    (\<forall>k. k = credKey (crOpenID cred) \<or> view w' k = view w1 k)"
proof -
  define tok where "tok = token_decode_lenient body"
  note other = reauthorize_other [OF assms(1,3)] cred_Delete_other [OF assms(1)]
  consider (refused) "400 \<le> status \<or> tkCode tok \<noteq> 0 \<or> tkError tok \<noteq> []"
    | (empty) "\<not> (400 \<le> status \<or> tkCode tok \<noteq> 0 \<or> tkError tok \<noteq> [])" "tkAccessToken tok = []"
    | (good) "\<not> (400 \<le> status \<or> tkCode tok \<noteq> 0 \<or> tkError tok \<noteq> [])" "tkAccessToken tok \<noteq> []" by blast
  then show ?thesis
  proof cases
    case refused
    then have "(\<exists>e. res = Inl e) \<and> (w' = w1 \<or> w' = fst (reauthorize r (crOpenID cred) w1) \<or>
        w' = fst (reauthorize r (crOpenID cred) (fst (cred_Delete st (crOpenID cred) w1))))"
      using stale assms(3,4) p
      by (auto simp: RefreshIfNeeded_def tok_def Let_def split: prod.splits if_splits)
    then show ?thesis by (metis other)
  next
    case empty
    then show ?thesis using stale assms(4) p by (auto simp: RefreshIfNeeded_def tok_def Let_def)
  next
    case good
    define c where "c = updated_credential cred tok (clock w1)"
    obtain w2 e where s: "cred_Save merr st (Some c) w1 = (w2, e)" by fastforce
    have "w' = w2 \<and> res = (case e of Some err \<Rightarrow> Inl err | None \<Rightarrow> Inr (Some c))"
      using stale good assms(3,4) p s by (auto simp: RefreshIfNeeded_def tok_def c_def Let_def split: option.split)
    moreover have "view w2 k = view w1 k" if "k \<noteq> credKey (crOpenID cred)" for k
      using cred_Save_other [OF assms(1,2) s, of k] that by (simp add: c_def updated_credential_sel)
    moreover have "e = None \<Longrightarrow> refreshed_ok merr st cred w2 (Some c)"
      using s stale good by (auto simp: refreshed_ok_def c_def updated_credential_sel)
    ultimately show ?thesis by (cases e) auto
  qed
qed

text \<open>C36 A token that is valid for more than a minute is used as it is and nothing is written. Otherwise the
  refresh gives a token for the same user, with an access and a refresh token, that has been saved, or it
  fails; and in no case is anything else in the store touched.\<close>
theorem refresh_sound:
  assumes "redis_laws (csRdb st) view" "expire_laws st view clock" "rfStore r = Some st"
    and post: "\<And>u b v. view (fst (rfPost r u b v)) = view v"
    and "RefreshIfNeeded merr clock r (Some cred) w = (w', res)"
  shows "(if clock w + 60 * sec < crAccessExpiresAt cred then w' = w \<and> res = Inr (Some cred)
      else (\<exists>e. res = Inl e) \<or> (\<exists>c. res = Inr c \<and> refreshed_ok merr st cred w' c)) \<and>
    (\<forall>k. k = credKey (crOpenID cred) \<or> view w' k = view w k)"
proof -
  obtain w1 ans where p: "rfPost r FeishuTokenEndpoint (refresh_body r cred) w = (w1, ans)" by fastforce
  have v1: "view w1 = view w" using post [of FeishuTokenEndpoint "refresh_body r cred" w] p by simp
  consider (fresh) "clock w + 60 * sec < crAccessExpiresAt cred"
    | (bare) "\<not> clock w + 60 * sec < crAccessExpiresAt cred" "crRefreshToken cred = []"
    | (asked) "\<not> clock w + 60 * sec < crAccessExpiresAt cred" "crRefreshToken cred \<noteq> []" by blast
  then show ?thesis
  proof cases
    case fresh
    then show ?thesis using assms(5) by (auto simp: RefreshIfNeeded_def)
  next
    case bare
    then have "w' = fst (reauthorize r (crOpenID cred) w) \<and> (\<exists>e. res = Inl e)"
      using assms(5) by (auto simp: RefreshIfNeeded_def split: prod.splits)
    then show ?thesis using bare reauthorize_other [OF assms(1,3)] by auto
  next
    case asked
    show ?thesis
    proof (cases ans)
      case (Inl err)
      then show ?thesis using asked assms(5) p v1 by (auto simp: RefreshIfNeeded_def)
    next
      case (Inr sb)
      then show ?thesis
        using refresh_answer [OF assms(1-3,5) asked, of w1 "fst sb" "snd sb"] asked p v1 by simp
    qed
  qed
qed

definition demo_refresher :: "mem_redis refresher" where
  "demo_refresher = \<lparr>rfAppID = ''a'', rfAppSecret = ''s'', rfStore = Some mr_creds, rfStartURL = None,
     rfPost = (\<lambda>u b w. (w, Inr (500, ''{}'')))\<rparr>"

theorem refresh_sound_witness:
  "\<exists>w' res. RefreshIfNeeded (Errorf []) mrNow demo_refresher (Some (demo_credential\<lparr>crAccessExpiresAt := 5\<rparr>)) mr_empty = (w', res) \<and>
     ((\<exists>e. res = Inl e) \<or> (\<exists>c. res = Inr c \<and>
        refreshed_ok (Errorf []) mr_creds (demo_credential\<lparr>crAccessExpiresAt := 5\<rparr>) w' c)) \<and>
     mr_view w' ''bot:sess:x'' = mr_view mr_empty ''bot:sess:x''"
proof -
  let ?c = "demo_credential\<lparr>crAccessExpiresAt := 5\<rparr>"
  obtain w' res where r: "RefreshIfNeeded (Errorf []) mrNow demo_refresher (Some ?c) mr_empty = (w', res)" by fastforce
  have "\<not> mrNow mr_empty + 60 * sec < crAccessExpiresAt ?c" by (simp add: mr_empty_def)
  moreover have "''bot:sess:x'' \<noteq> credKey (crOpenID ?c)" by (simp add: credKey_def)
  ultimately show ?thesis
    using refresh_sound [OF _ _ _ _ r, of mr_creds mr_view] mr_creds_laws r by (auto simp: demo_refresher_def)
qed

section \<open>The server's routes\<close>

text \<open>
  \<open>NewServer\<close> installs three exact paths; any other (clean) path is not found. The limiter of a new server
  allows 20 callbacks a minute and address.
\<close>

definition server_limiter :: limiter where
  "server_limiter = newCallbackLimiter 20 (60 * sec)"

definition serve ::
  "go_error \<Rightarrow> (string \<Rightarrow> go_error) \<Rightarrow> ('w \<Rightarrow> time) \<Rightarrow> 'w oauth_server \<Rightarrow> string \<Rightarrow> http_request \<Rightarrow> limiter \<Rightarrow> 'w \<Rightarrow>
   limiter \<times> 'w \<times> http_response" where
  "serve merr jerr clock s path q l w =
     (if path = ''/healthz'' then (l, w, handleHealth)
      else if path = ''/oauth/start'' then (l, w, handleStart s q)
      else if path = ''/oauth/callback'' then handleCallback merr jerr clock s q l w
      else (l, w, http_error ''404 page not found'' 404))"

text \<open>\<open>served\<close> is what \<open>ListenAndServe\<close> of \<open>net/http\<close> ends with; that the server was shut down is no error.\<close>

definition ListenAndServe :: "go_error option \<Rightarrow> go_error option" where
  "ListenAndServe served =
     (case served of
        Some err \<Rightarrow> if \<not> errors_Is err ErrServerClosed then Some err else None
      | None \<Rightarrow> None)"

section \<open>A server over many requests\<close>

fun serve_all ::
  "go_error \<Rightarrow> (string \<Rightarrow> go_error) \<Rightarrow> ('w \<Rightarrow> time) \<Rightarrow> 'w oauth_server \<Rightarrow> (string \<times> http_request) list \<Rightarrow> limiter \<Rightarrow> 'w \<Rightarrow>
   limiter \<times> 'w" where
  "serve_all merr jerr clock s [] l w = (l, w)"
| "serve_all merr jerr clock s ((path, q) # rs) l w =
     (case serve merr jerr clock s path q l w of (l', w', resp) \<Rightarrow> serve_all merr jerr clock s rs l' w')"

text \<open>C15 Whatever requests a server gets, in whatever order, a key of the store changes only if one of them was a
  callback with a code and with a state that verifies for the user of that key.\<close>
theorem server_stores_only_verified:
  assumes laws: "redis_laws (csRdb (osStore s)) view" "expire_laws (osStore s) view clock"
    and post: "\<forall>u b w. view (fst (osPost s u b w)) = view w"
    and notify: "\<forall>n u m w. osNotify s = Some n \<longrightarrow> view (fst (n u m w)) = view w"
    and changed: "view (snd (serve_all merr jerr clock s rs l w)) k \<noteq> view w k"
  shows "\<exists>q user. (''/oauth/callback'', q) \<in> set rs \<and> query_get q ''code'' \<noteq> [] \<and>
    Verify (osMac s) (osKey s) (query_get q ''state'') = Inr user \<and> k = credKey user"
  using changed
proof (induction rs arbitrary: l w)
  case (Cons r rs)
  obtain path q where r: "r = (path, q)" by fastforce
  obtain l' w' resp where s: "serve merr jerr clock s path q l w = (l', w', resp)" by (metis prod_cases3)
  show ?case
  proof (cases "view w' k = view w k")
    case True
    then have "view (snd (serve_all merr jerr clock s rs l' w')) k \<noteq> view w' k" using Cons.prems s by (simp add: r)
    from Cons.IH [OF this] show ?thesis by auto
  next
    case False
    then have "path = ''/oauth/callback''" and h: "handleCallback merr jerr clock s q l w = (l', w', resp)"
      using s by (auto simp: serve_def split: if_splits)
    with callback_stores_only_verified [OF laws post notify h] False show ?thesis by (auto simp: r)
  qed
qed simp

text \<open>A granted code: the token endpoint answers with an access token, and the callback stores it.\<close>

definition granted :: json where
  "granted = JObj [(''access_token'', jstr ''at'')]"

definition granting_server :: "mem_redis oauth_server" where
  "granting_server = demo_server\<lparr>osPost := (\<lambda>u b w. (w, Inr (200, print_json granted)))\<rparr>"

definition granted_request :: "string \<Rightarrow> http_request" where
  "granted_request tok = \<lparr>hqQuery = [(''code'', ''c''), (''state'', tok)], hqForwardedFor = [], hqRemoteAddr = ''1.2.3.4:5''\<rparr>"

lemma sanitize_at: "sanitize ''at'' = ''at''"
  by (intro sanitize_valid utf8_valid_ascii) simp

lemma token_decode_granted: "token_decode (print_json granted) = Some (token_zero\<lparr>tkAccessToken := ''at''\<rparr>)"
proof -
  have k: "field_key ''access_token''" by (simp add: field_key_def)
  define a where "a = ''at''"
  have g: "granted = JObj [(''access_token'', jstr a)]" by (simp add: granted_def a_def del: escape.simps)
  have "wf_json granted" unfolding g by (simp add: wf_body_key [OF k])
  moreover have "decode_struct token_put token_zero granted = Some (token_zero\<lparr>tkAccessToken := sanitize a\<rparr>)"
    unfolding g by (simp add: decode_members_field [OF k] token_put_def del: decode_members.simps(2))
  moreover have "sanitize a = ''at''" by (simp only: a_def sanitize_at)
  ultimately show ?thesis by (simp add: token_decode_def read_json_print)
qed

lemma granted_stored:
  assumes "Verify demo_mac ''k'' tok = Inr ''x''" "tok \<noteq> []"
  obtains pt l resp where "handleCallback (Errorf []) Errorf mrNow granting_server (granted_request tok) server_limiter mr_empty
     = (l, mr_put (credKey ''x'') pt 0 mr_empty, resp)"
proof -
  let ?c = "credential_of ''x'' (token_zero\<lparr>tkAccessToken := ''at''\<rparr>) 0"
  have c: "crOpenID ?c = ''x''" "crRefreshExpiresAt ?c = 0" "crAccessExpiresAt ?c = 0" "crGrantedAt ?c = 0" "crLastUsedAt ?c = 0"
    by (simp_all add: credential_of_def token_zero_def wrap64_def credential_zero_def)
  obtain pt where pt: "credential_encode ?c = Some pt"
    using credential_encode_Some [of ?c] time_json_01 by (auto simp: c)
  have x: "exchange Errorf mrNow granting_server ''c'' ''x'' mr_empty = (mr_empty, Inr ?c)"
    by (simp add: exchange_def granting_server_def token_decode_granted) (simp add: token_zero_def mr_empty_def)
  have s: "cred_Save (Errorf []) mr_creds (Some ?c) mr_empty = (mr_put (credKey ''x'') pt 0 mr_empty, None)"
    using demo_save [OF pt] c by simp
  have q: "query_get (granted_request tok) ''code'' = ''c''" "query_get (granted_request tok) ''state'' = tok"
    by (simp_all add: query_get_def granted_request_def)
  have g: "osMac granting_server = demo_mac" "osKey granting_server = ''k''" "osStore granting_server = mr_creds"
    "osNotify granting_server = None"
    by (simp_all add: granting_server_def demo_server_def)
  obtain l where l: "limiter_allow (mrNow mr_empty) (clientIP (granted_request tok)) server_limiter = (l, True)"
    by (simp add: limiter_allow_def limiter_gc_def server_limiter_def newCallbackLimiter_def Let_def mr_empty_def recent_def)
  show thesis
    by (rule that) (simp add: handleCallback_def Let_def l q g x s assms)
qed

theorem server_stores_only_verified_witness:
  "\<exists>tok. Verify demo_mac ''k'' tok = Inr ''x'' \<and>
    mr_view (snd (serve_all (Errorf []) Errorf mrNow granting_server
        [(''/healthz'', granted_request tok), (''/oauth/callback'', granted_request tok)] server_limiter mr_empty)) (credKey ''x'') \<noteq> None \<and>
    (\<exists>q user. (''/oauth/callback'', q) \<in> set [(''/healthz'', granted_request tok), (''/oauth/callback'', granted_request tok)] \<and>
       query_get q ''code'' \<noteq> [] \<and> Verify demo_mac ''k'' (query_get q ''state'') = Inr user \<and> credKey ''x'' = credKey user)"
proof -
  obtain tok where tok: "Sign demo_mac ''k'' (Inr (replicate 16 (CHR ''n''))) ''x'' = Inr tok"
    by (simp add: Sign_def)
  have v: "Verify demo_mac ''k'' tok = Inr ''x''"
    using signed_verifies [OF _ _ _ tok] demo_mac_length by auto
  then have "tok \<noteq> []" by (auto simp: Verify_def RawURL_decode_def no_breaks_def b64_bytes_def b64_values_def)
  then obtain pt l resp where h: "handleCallback (Errorf []) Errorf mrNow granting_server (granted_request tok) server_limiter mr_empty
     = (l, mr_put (credKey ''x'') pt 0 mr_empty, resp)" using granted_stored [OF v] by metis
  let ?rs = "[(''/healthz'', granted_request tok), (''/oauth/callback'', granted_request tok)]"
  let ?w = "snd (serve_all (Errorf []) Errorf mrNow granting_server ?rs server_limiter mr_empty)"
  have w: "mr_view ?w (credKey ''x'') = Some pt"
    by (simp add: serve_def h)
  have g: "osMac granting_server = demo_mac" "osKey granting_server = ''k''" "osStore granting_server = mr_creds"
    by (simp_all add: granting_server_def demo_server_def)
  have "\<exists>q user. (''/oauth/callback'', q) \<in> set ?rs \<and> query_get q ''code'' \<noteq> [] \<and>
      Verify (osMac granting_server) (osKey granting_server) (query_get q ''state'') = Inr user \<and> credKey ''x'' = credKey user"
  proof (rule server_stores_only_verified [of _ mr_view mrNow "Errorf []" Errorf ?rs server_limiter mr_empty])
    show "redis_laws (csRdb (osStore granting_server)) mr_view" "expire_laws (osStore granting_server) mr_view mrNow"
      by (simp_all only: g mr_creds_laws)
    show "\<forall>u b w. mr_view (fst (osPost granting_server u b w)) = mr_view w"
      "\<forall>n u m w. osNotify granting_server = Some n \<longrightarrow> mr_view (fst (n u m w)) = mr_view w"
      by (simp_all add: granting_server_def demo_server_def)
    show "mr_view ?w (credKey ''x'') \<noteq> mr_view mr_empty (credKey ''x'')"
      using w by (simp add: mr_view_def mr_empty_def)
  qed
  with v w g show ?thesis by auto
qed

end
