(* ===== verification/Builtin.thy ===== *)
theory Builtin
  imports OAuth "HOL-Library.Word"
begin

text \<open>
  internal/tool/builtin: the tools \<open>datetime\<close>, \<open>web_fetch\<close>, \<open>web_search\<close>, \<open>feishu_doc_read\<close> and
  \<open>feishu_doc_search\<close>. The time zone database, the HTTP transport, the article extractor and the
  document API are parameters.
\<close>

text \<open>
  \<open>strings.ToLower\<close> where its result is compared with ASCII text only: the ASCII letters, and the two
  other runes whose lower case is ASCII (U+0130 and U+212A).
\<close>

fun ascii_lower :: "string \<Rightarrow> string" where
  "ascii_lower [] = []"
| "ascii_lower (c # s) =
     (if c = CHR 0xC4 \<and> take 1 s = [CHR 0xB0] then CHR ''i'' # ascii_lower (drop 1 s)
      else if c = CHR 0xE2 \<and> take 2 s = [CHR 0x84, CHR 0xAA] then CHR ''k'' # ascii_lower (drop 2 s)
      else lower_byte c # ascii_lower s)"

text \<open>Decoding the arguments of a tool, field by field.\<close>

definition decode_args :: "(string \<Rightarrow> json \<Rightarrow> 'r \<Rightarrow> 'r option) \<Rightarrow> 'r \<Rightarrow> string \<Rightarrow> 'r option" where
  "decode_args put zero args = Option.bind (read_json args) (decode_struct put zero)"

section \<open>Durations (datetime.go)\<close>

text \<open>Go's \<open>int\<close> and \<open>time.Duration\<close> wrap at 64 bits.\<close>

definition read_count :: "string \<Rightarrow> int" where
  "read_count digits = foldl (\<lambda>n b. wrap64 (n * 10 + (int (byte b) - 48))) 0 digits"

definition unit_ns :: "bool \<Rightarrow> char \<Rightarrow> int option" where
  "unit_ns inTime u =
     (if \<not> inTime \<and> u = CHR ''D'' then Some (86400 * sec)
      else if inTime \<and> u = CHR ''H'' then Some (3600 * sec)
      else if inTime \<and> u = CHR ''M'' then Some (60 * sec)
      else if inTime \<and> u = CHR ''S'' then Some sec
      else None)"

text \<open>The loop, with \<open>quote\<close> for \<open>%q\<close> (of a string and of a character).\<close>

function iso_loop ::
  "(string \<Rightarrow> string) \<Rightarrow> (char \<Rightarrow> string) \<Rightarrow> string \<Rightarrow> bool \<Rightarrow> int \<Rightarrow> string \<Rightarrow> go_error + int" where
  "iso_loop quote quotec s inTime tot rest =
     (case rest of [] \<Rightarrow> Inr tot
      | c # r \<Rightarrow>
          if c = CHR ''T'' then iso_loop quote quotec s True tot r
          else (case dropWhile is_digit rest of
                  [] \<Rightarrow> Inl (Errorf (''invalid duration '' @ quote s))
                | u # r' \<Rightarrow>
                    if takeWhile is_digit rest = [] then Inl (Errorf (''invalid duration '' @ quote s))
                    else (case unit_ns inTime u of
                            None \<Rightarrow> Inl (Errorf (''unsupported unit '' @ quotec u @ '' in '' @ quote s))
                          | Some ns \<Rightarrow>
                              iso_loop quote quotec s inTime
                                (wrap64 (tot + wrap64 (read_count (takeWhile is_digit rest) * ns))) r')))"
  by pat_completeness auto
termination
proof (relation "measure (\<lambda>(q, qc, s, t, n, rest). length rest)", goal_cases)
  case (3 quote quotec s inTime tot rest c r u r' ns)
  then have "length (u # r') \<le> length rest" by (metis length_dropWhile_le)
  then show ?case by simp
qed auto

declare iso_loop.simps [simp del]

definition parseISODuration :: "(string \<Rightarrow> string) \<Rightarrow> (char \<Rightarrow> string) \<Rightarrow> string \<Rightarrow> go_error + int" where
  "parseISODuration quote quotec s =
     (if length s < 2 \<or> take 1 s \<noteq> ''P'' then Inl (Errorf (''invalid duration '' @ quote s))
      else iso_loop quote quotec s False 0 (drop 1 s))"

section \<open>The datetime tool (datetime.go)\<close>

text \<open>\<open>Format(time.RFC3339)\<close> in a zone \<open>off\<close> seconds east of UTC.\<close>

definition fmt_year :: "int \<Rightarrow> string" where
  "fmt_year y = (if y < 0 then ''-'' @ pad 4 (nat (- y)) else pad 4 (nat y))"

definition fmt_zone :: "int \<Rightarrow> string" where
  "fmt_zone off =
     (if off = 0 then ''Z''
      else let z = nat \<bar>off\<bar> div 60
           in (if off < 0 \<and> z \<noteq> 0 then ''-'' else ''+'') @ pad 2 (z div 60) @ '':'' @ pad 2 (z mod 60))"

definition fmt_zoned :: "time \<Rightarrow> int \<Rightarrow> string" where
  "fmt_zoned t off =
     (let local = t + off * sec; (y, m, d) = date_of (local div day_ns);
          s = nat (local mod day_ns) div 1000000000
      in fmt_year y @ ''-'' @ pad 2 m @ ''-'' @ pad 2 d @ ''T'' @
         pad 2 (s div 3600) @ '':'' @ pad 2 (s div 60 mod 60) @ '':'' @ pad 2 (s mod 60) @ fmt_zone off)"

text \<open>
  The zone database gives the offset of a location at an instant; \<open>tlParse\<close> is \<open>time.Parse\<close> with the
  layout RFC 3339, more lenient than the reader of JSON times.
\<close>

record time_lib =
  tlLoad :: "string \<Rightarrow> go_error + (time \<Rightarrow> int)"
  tlParse :: "string \<Rightarrow> go_error + time"

record datetime_req =
  dqAction :: string
  dqTimezone :: string
  dqISOInput :: string
  dqDelta :: string

definition datetime_put :: "string \<Rightarrow> json \<Rightarrow> datetime_req \<Rightarrow> datetime_req option" where
  "datetime_put f v r =
     (if f = ''action'' then put_string v (\<lambda>x. r\<lparr>dqAction := x\<rparr>) r
      else if f = ''timezone'' then put_string v (\<lambda>x. r\<lparr>dqTimezone := x\<rparr>) r
      else if f = ''iso_input'' then put_string v (\<lambda>x. r\<lparr>dqISOInput := x\<rparr>) r
      else if f = ''delta'' then put_string v (\<lambda>x. r\<lparr>dqDelta := x\<rparr>) r
      else Some r)"

text \<open>The wording of the JSON library and of \<open>%q\<close>, shared by the tools.\<close>

record words =
  wdJson :: "string \<Rightarrow> go_error"
  wdQuote :: "string \<Rightarrow> string"
  wdQuoteC :: "char \<Rightarrow> string"

definition datetime_run :: "words \<Rightarrow> time_lib \<Rightarrow> time \<Rightarrow> datetime_req \<Rightarrow> tool_outcome" where
  "datetime_run wd tz now req =
     (let zone = (if dqTimezone req = [] then ''Asia/Shanghai'' else dqTimezone req); act = ascii_lower (dqAction req)
      in case tlLoad tz zone of
           Inl err \<Rightarrow> ToolErr (Wrapf ''invalid timezone'' err)
         | Inr loc \<Rightarrow>
             if act = ''now'' \<or> act = [] then ToolOk (fmt_zoned now (loc now))
             else if act = ''convert'' then
               (if dqISOInput req = [] then ToolErr (Errorf ([CHR 0x22] @ ''iso_input'' @ [CHR 0x22]
                   @ '' is required for action='' @ [CHR 0x22] @ ''convert'' @ [CHR 0x22]))
                else case tlParse tz (dqISOInput req) of
                    Inl err \<Rightarrow> ToolErr (Wrapf ''parse iso_input'' err)
                  | Inr t \<Rightarrow> ToolOk (fmt_zoned t (loc t)))
             else if act = ''add'' then
               (if dqISOInput req = [] \<or> dqDelta req = []
                then ToolErr (Errorf ([CHR 0x22] @ ''iso_input'' @ [CHR 0x22] @ '' and '' @ [CHR 0x22]
                    @ ''delta'' @ [CHR 0x22] @ '' are required for action='' @ [CHR 0x22] @ ''add'' @ [CHR 0x22]))
                else case tlParse tz (dqISOInput req) of
                    Inl err \<Rightarrow> ToolErr (Wrapf ''parse iso_input'' err)
                  | Inr t \<Rightarrow>
                      (case parseISODuration (wdQuote wd) (wdQuoteC wd) (dqDelta req) of
                         Inl err \<Rightarrow> ToolErr (Wrapf ''parse delta'' err)
                       | Inr d \<Rightarrow> ToolOk (fmt_zoned (t + d) (loc (t + d)))))
             else ToolErr (Errorf (''unknown action '' @ wdQuote wd (dqAction req))))"

definition datetime_Call :: "words \<Rightarrow> time_lib \<Rightarrow> time \<Rightarrow> string \<Rightarrow> tool_outcome" where
  "datetime_Call wd tz now args =
     (let zero = \<lparr>dqAction = [], dqTimezone = [], dqISOInput = [], dqDelta = []\<rparr>
      in if args = [] then datetime_run wd tz now zero
         else case decode_args datetime_put zero args of
             None \<Rightarrow> ToolErr (Wrapf ''invalid args'' (wdJson wd args))
           | Some req \<Rightarrow> datetime_run wd tz now req)"

definition datetimeSchema :: string where
  "datetimeSchema =
     ''{'' @ NL @ ''  '' @ [DQ] @ ''$schema'' @ [DQ] @ '': '' @ [DQ]
         @ ''http://json-schema.org/draft-07/schema#'' @ [DQ] @ '','' @ NL @ ''  '' @ [DQ] @ ''type'' @ [DQ]
         @ '': '' @ [DQ] @ ''object'' @ [DQ] @ '','' @ NL @ ''  '' @ [DQ] @ ''properties'' @ [DQ] @ '': {''
         @ NL @ ''    '' @ [DQ] @ ''action'' @ [DQ] @ '':    {'' @ [DQ] @ ''type'' @ [DQ] @ '': '' @ [DQ]
         @ ''string'' @ [DQ] @ '', '' @ [DQ] @ ''enum'' @ [DQ] @ '': ['' @ [DQ] @ ''now'' @ [DQ] @ '', ''
         @ [DQ] @ ''convert'' @ [DQ] @ '', '' @ [DQ] @ ''add'' @ [DQ] @ '']},'' @ NL @ ''    '' @ [DQ]
         @ ''timezone'' @ [DQ] @ '':  {'' @ [DQ] @ ''type'' @ [DQ] @ '': '' @ [DQ] @ ''string'' @ [DQ]
         @ '', '' @ [DQ] @ ''default'' @ [DQ] @ '': '' @ [DQ] @ ''Asia/Shanghai'' @ [DQ] @ ''},'' @ NL
         @ ''    '' @ [DQ] @ ''iso_input'' @ [DQ] @ '': {'' @ [DQ] @ ''type'' @ [DQ] @ '': '' @ [DQ]
         @ ''string'' @ [DQ] @ ''},'' @ NL @ ''    '' @ [DQ] @ ''delta'' @ [DQ] @ '':     {'' @ [DQ]
         @ ''type'' @ [DQ] @ '': '' @ [DQ] @ ''string'' @ [DQ] @ '', '' @ [DQ] @ ''description'' @ [DQ]
         @ '': '' @ [DQ] @ ''ISO-8601 duration, e.g. P1D or PT2H'' @ [DQ] @ ''}'' @ NL @ ''  },'' @ NL
         @ ''  '' @ [DQ] @ ''required'' @ [DQ] @ '': ['' @ [DQ] @ ''action'' @ [DQ] @ ''],'' @ NL @ ''  ''
         @ [DQ] @ ''additionalProperties'' @ [DQ] @ '': false'' @ NL @ ''}''"

definition NewDatetime :: "words \<Rightarrow> time_lib \<Rightarrow> ('w \<Rightarrow> time) \<Rightarrow> 'w tool" where
  "NewDatetime wd tz clock =
     \<lparr>tName = ''datetime'',
      tDescription = (''Get the current date/time or convert timezones. Use this instead of guessing ''
          @ utf8 [0x2014] @ '' your training data is stale.''),
      tInputSchema = datetimeSchema, tSource = SourceBuiltin, tAvailable = (\<lambda>w. True),
      tCall = (\<lambda>caller args w. (w, datetime_Call wd tz (clock w) args))\<rparr>"

section \<open>Durations are exact where they fit\<close>

lemma wrap64_id: "- (2 ^ 63) \<le> i \<Longrightarrow> i < 2 ^ 63 \<Longrightarrow> wrap64 i = i"
  by (simp add: wrap64_def)

lemma wrap64_mod: "wrap64 i mod 2 ^ 64 = i mod 2 ^ 64"
  by (simp add: wrap64_def mod_diff_left_eq)

lemma wrap64_cong: "i mod 2 ^ 64 = j mod 2 ^ 64 \<Longrightarrow> wrap64 i = wrap64 j"
  unfolding wrap64_def by (metis mod_add_cong)

lemma wrap64_add: "wrap64 (a + wrap64 b) = wrap64 (a + b)"
  by (rule wrap64_cong) (metis mod_add_right_eq wrap64_mod)

lemma wrap64_add_left: "wrap64 (wrap64 a + b) = wrap64 (a + b)"
  by (rule wrap64_cong) (metis mod_add_left_eq wrap64_mod)

lemma wrap64_mult: "wrap64 (wrap64 a * b) = wrap64 (a * b)"
  by (rule wrap64_cong) (metis mod_mult_left_eq wrap64_mod)

lemma read_count_eq: "list_all is_digit ds \<Longrightarrow> read_count ds = wrap64 (int (digits_val ds))"
proof (induction ds rule: rev_induct)
  case Nil
  show ?case by (simp add: read_count_def digits_val_def wrap64_def)
next
  case (snoc d ds)
  then have d: "48 \<le> byte d" by (simp add: is_digit_def)
  have "read_count (ds @ [d]) = wrap64 (wrap64 (int (digits_val ds)) * 10 + (int (byte d) - 48))"
    using snoc by (simp add: read_count_def)
  also have "\<dots> = wrap64 (int (digits_val ds) * 10 + (int (byte d) - 48))"
    by (metis wrap64_add_left wrap64_mult)
  also have "int (digits_val ds) * 10 + (int (byte d) - 48) = int (digits_val (ds @ [d]))"
    using d by (simp add: digits_val_def)
  finally show ?case .
qed

lemma unit_not_digit: "unit_ns b u = Some ns \<Longrightarrow> \<not> is_digit u \<and> u \<noteq> CHR ''T''"
  by (auto simp: unit_ns_def is_digit_def split: if_splits)

lemma iso_loop_T: "iso_loop q qc s b n (CHR ''T'' # r) = iso_loop q qc s True n r"
  by (subst iso_loop.simps) simp

lemma iso_loop_Nil: "iso_loop q qc s b n [] = Inr n"
  by (subst iso_loop.simps) simp

lemma iso_loop_component:
  assumes "unit_ns b u = Some ns"
  shows "iso_loop q qc s b n (dec_nat k @ u # r) = iso_loop q qc s b (wrap64 (n + int k * ns)) r"
proof -
  note u = unit_not_digit [OF assms]
  have dig: "\<forall>c \<in> set (dec_nat k). is_digit c" using dec_nat_digits by blast
  have tw: "takeWhile is_digit (dec_nat k @ u # r) = dec_nat k" "dropWhile is_digit (dec_nat k @ u # r) = u # r"
    using dig u by (simp_all add: takeWhile_append dropWhile_append)
  obtain c ds where cd: "dec_nat k = c # ds" using dec_nat_ne by (cases "dec_nat k") auto
  have c: "c \<noteq> CHR ''T''" using dig cd by (auto simp: is_digit_def)
  have "read_count (dec_nat k) = wrap64 (int k)"
    using read_count_eq [of "dec_nat k"] dig by (simp add: digits_val_dec_nat list_all_iff)
  then have "iso_loop q qc s b n (dec_nat k @ u # r) = iso_loop q qc s b (wrap64 (n + wrap64 (wrap64 (int k) * ns))) r"
    using c cd assms tw by (subst iso_loop.simps) simp
  then show ?thesis by (simp add: wrap64_add wrap64_mult)
qed

definition iso_text :: "nat \<Rightarrow> nat \<Rightarrow> nat \<Rightarrow> nat \<Rightarrow> string" where
  "iso_text d h m s = ''P'' @ dec_nat d @ ''DT'' @ dec_nat h @ ''H'' @ dec_nat m @ ''M'' @ dec_nat s @ ''S''"

text \<open>C40 A duration of days, hours, minutes and seconds is parsed to its number of nanoseconds modulo
  \<open>2 ^ 64\<close>, read as a signed number: exactly where it fits, wrapped otherwise, and never an error.\<close>
theorem duration_value:
  "parseISODuration q qc (iso_text d h m s) = Inr (wrap64 (((int d * 24 + int h) * 60 + int m) * 60 * sec + int s * sec)) \<and>
   (((int d * 24 + int h) * 60 + int m) * 60 + int s \<le> 9223372036 \<longrightarrow>
    parseISODuration q qc (iso_text d h m s) = Inr ((((int d * 24 + int h) * 60 + int m) * 60 + int s) * sec))"
proof -
  have units: "unit_ns False (CHR ''D'') = Some (86400 * sec)" "unit_ns True (CHR ''H'') = Some (3600 * sec)"
    "unit_ns True (CHR ''M'') = Some (60 * sec)" "unit_ns True (CHR ''S'') = Some sec"
    by (simp_all add: unit_ns_def)
  let ?t = "iso_text d h m s"
  have ne: "take 1 ?t = ''P''" "\<not> length ?t < 2" "drop 1 ?t = dec_nat d @ CHR ''D'' # CHR ''T'' #
      (dec_nat h @ CHR ''H'' # (dec_nat m @ CHR ''M'' # (dec_nat s @ CHR ''S'' # [])))"
    by (simp_all add: iso_text_def)
  have "parseISODuration q qc ?t = Inr (wrap64 (wrap64 (wrap64 (wrap64 (0 + int d * (86400 * sec)) + int h * (3600 * sec))
      + int m * (60 * sec)) + int s * sec))"
    unfolding parseISODuration_def ne
    by (simp add: ne(2) iso_loop_component [OF units(1)] iso_loop_component [OF units(2)] iso_loop_component [OF units(3)]
        iso_loop_component [OF units(4)] iso_loop_T iso_loop_Nil)
  also have "\<dots> = Inr (wrap64 (((int d * 24 + int h) * 60 + int m) * 60 * sec + int s * sec))"
    by (simp add: wrap64_add wrap64_add_left algebra_simps)
  finally have v: "parseISODuration q qc ?t = Inr (wrap64 (((int d * 24 + int h) * 60 + int m) * 60 * sec + int s * sec))" .
  moreover have "wrap64 (((int d * 24 + int h) * 60 + int m) * 60 * sec + int s * sec) =
      (((int d * 24 + int h) * 60 + int m) * 60 + int s) * sec"
    if "((int d * 24 + int h) * 60 + int m) * 60 + int s \<le> 9223372036"
    using that by (subst wrap64_id) (simp_all add: algebra_simps)
  ultimately show ?thesis by simp
qed

theorem duration_value_witness:
  "parseISODuration (\<lambda>s. s) (\<lambda>c. [c]) (iso_text 1 2 3 4) = Inr (93784 * sec) \<and>
   parseISODuration (\<lambda>s. s) (\<lambda>c. [c]) (iso_text 106752 0 0 0) = Inr (- 9223371273709551616)"
  using duration_value [of "\<lambda>s. s" "\<lambda>c. [c]" 1 2 3 4] duration_value [of "\<lambda>s. s" "\<lambda>c. [c]" 106752 0 0 0] by (simp add: wrap64_def)

section \<open>Private addresses (web_fetch.go)\<close>

text \<open>\<open>netip.Addr\<close>: the methods treat an IPv4 address mapped into IPv6 as the IPv4 one.\<close>

datatype ip_addr = V4 "32 word" | V6 "128 word"

definition v4_byte :: "32 word \<Rightarrow> nat \<Rightarrow> nat" where
  "v4_byte a i = unat (drop_bit (24 - 8 * i) a) mod 256"

definition unmap :: "ip_addr \<Rightarrow> ip_addr" where
  "unmap a = (case a of V4 w \<Rightarrow> V4 w | V6 w \<Rightarrow> if unat (drop_bit 32 w) = 0xFFFF then V4 (ucast w) else V6 w)"

definition is_loopback :: "ip_addr \<Rightarrow> bool" where
  "is_loopback a = (case unmap a of V4 w \<Rightarrow> v4_byte w 0 = 127 | V6 w \<Rightarrow> w = 1)"

definition is_private :: "ip_addr \<Rightarrow> bool" where
  "is_private a =
     (case unmap a of
        V4 w \<Rightarrow> v4_byte w 0 = 10 \<or> (v4_byte w 0 = 172 \<and> 16 \<le> v4_byte w 1 \<and> v4_byte w 1 \<le> 31) \<or>
                (v4_byte w 0 = 192 \<and> v4_byte w 1 = 168)
      | V6 w \<Rightarrow> unat (drop_bit 121 w) = 0x7E)"

definition is_link_local_unicast :: "ip_addr \<Rightarrow> bool" where
  "is_link_local_unicast a =
     (case unmap a of V4 w \<Rightarrow> v4_byte w 0 = 169 \<and> v4_byte w 1 = 254 | V6 w \<Rightarrow> unat (drop_bit 118 w) = 0x3FA)"

definition is_link_local_multicast :: "ip_addr \<Rightarrow> bool" where
  "is_link_local_multicast a =
     (case unmap a of
        V4 w \<Rightarrow> v4_byte w 0 = 224 \<and> v4_byte w 1 = 0 \<and> v4_byte w 2 = 0
      | V6 w \<Rightarrow> unat (drop_bit 120 w) = 0xFF \<and> unat (drop_bit 112 w) mod 16 = 2)"

definition isPrivateIP :: "ip_addr \<Rightarrow> bool" where
  "isPrivateIP a \<longleftrightarrow> is_loopback a \<or> is_private a \<or> is_link_local_unicast a \<or> is_link_local_multicast a"

section \<open>The web_fetch tool (web_fetch.go)\<close>

record parsed_url =
  puScheme :: string
  puHost :: string
  puHostname :: string
  puPath :: string
  puEscapedPath :: string

text \<open>
  What the tool calls: the URL parser, the address parser, the resolver, a GET (status and body, both
  may fail, the body at most as long as the limit), and the article extractor.
\<close>

record 'w web_lib =
  wlParse :: "string \<Rightarrow> parsed_url option"
  wlAddr :: "string \<Rightarrow> ip_addr option"
  wlLookup :: "string \<Rightarrow> 'w \<Rightarrow> 'w \<times> (go_error + ip_addr list)"
  wlGet :: "string \<Rightarrow> nat \<Rightarrow> 'w \<Rightarrow> 'w \<times> (go_error + (int \<times> (go_error + string)))"
  wlArticle :: "string \<Rightarrow> string \<Rightarrow> go_error + (string \<times> (go_error + string))"

definition rejectPrivateTarget :: "'w web_lib \<Rightarrow> string \<Rightarrow> 'w \<Rightarrow> 'w \<times> go_error option" where
  "rejectPrivateTarget wl host w =
     (let refuse = Errorf ''refusing private or loopback target''
      in case wlAddr wl host of
           Some addr \<Rightarrow> (w, if isPrivateIP addr then Some refuse else None)
         | None \<Rightarrow>
             (case wlLookup wl host w of
                (w', Inl err) \<Rightarrow> (w', Some err)
              | (w', Inr addrs) \<Rightarrow> (w', if list_ex isPrivateIP addrs then Some refuse else None)))"

text \<open>The rules of all the groups of the file count, whatever the agent they are for.\<close>

definition robots_blocks :: "string \<Rightarrow> string \<Rightarrow> bool" where
  "robots_blocks path line0 =
     (let line = TrimSpace line0
      in HasPrefix (ascii_lower line) ''disallow:'' \<and>
         (let rule = TrimSpace (drop 9 line) in rule \<noteq> [] \<and> HasPrefix path rule))"

definition disallowedByRobots :: "'w web_lib \<Rightarrow> parsed_url \<Rightarrow> 'w \<Rightarrow> 'w \<times> (go_error + bool)" where
  "disallowedByRobots wl u w =
     (case wlGet wl (puScheme u @ ''://'' @ puHost u @ ''/robots.txt'') (256 * 1024) w of
        (w', Inl err) \<Rightarrow> (w', Inr False)
      | (w', Inr (status, body)) \<Rightarrow>
          if 400 \<le> status then (w', Inr False)
          else (case body of
                  Inl err \<Rightarrow> (w', Inl err)
                | Inr text0 \<Rightarrow>
                    (let path = (if puEscapedPath u = [] then ''/'' else puEscapedPath u)
                     in (w', Inr (list_ex (robots_blocks path) (Split text0 NL))))))"

record fetch_req =
  fqURL :: string
  fqMaxChars :: int

definition fetch_put :: "string \<Rightarrow> json \<Rightarrow> fetch_req \<Rightarrow> fetch_req option" where
  "fetch_put f v r =
     (if f = ''url'' then put_string v (\<lambda>x. r\<lparr>fqURL := x\<rparr>) r
      else if f = ''max_chars'' then put_int v (\<lambda>x. r\<lparr>fqMaxChars := x\<rparr>) r
      else Some r)"

definition cut_content :: "string \<Rightarrow> nat \<Rightarrow> string" where
  "cut_content s n =
     (if n < length s then take n s @ NL @ ''[truncated '' @ dec_nat (length s - n) @ '' chars]'' else s)"

definition fetch_article :: "'w web_lib \<Rightarrow> fetch_req \<Rightarrow> 'w \<Rightarrow> 'w \<times> tool_outcome" where
  "fetch_article wl req w =
     (case wlGet wl (fqURL req) (5 * 1024 * 1024) w of
        (w', Inl err) \<Rightarrow> (w', ToolErr err)
      | (w', Inr (status, body)) \<Rightarrow>
          if 400 \<le> status then (w', ToolErr (Errorf (''fetch status '' @ dec_int status)))
          else (case body of
                  Inl err \<Rightarrow> (w', ToolErr err)
                | Inr page \<Rightarrow>
                    (case wlArticle wl page (fqURL req) of
                       Inl err \<Rightarrow> (w', ToolErr err)
                     | Inr (title, Inl err) \<Rightarrow> (w', ToolErr err)
                     | Inr (title, Inr text0) \<Rightarrow>
                         (w', ToolOk (''Title: '' @ title @ NL @ NL @
                            cut_content (TrimSpace text0) (nat (fqMaxChars req)))))))"

definition web_fetch_Call :: "'w web_lib \<Rightarrow> int \<Rightarrow> string \<Rightarrow> 'w \<Rightarrow> 'w \<times> tool_outcome" where
  "web_fetch_Call wl cfgMax args w =
     (case decode_args fetch_put \<lparr>fqURL = [], fqMaxChars = 0\<rparr> args of
        None \<Rightarrow> (w, ToolErr (SimpleUserError ''invalid arguments''))
      | Some req0 \<Rightarrow>
          if fqURL req0 = [] then (w, ToolErr (SimpleUserError ([CHR 0x22] @ ''url'' @ [CHR 0x22]
              @ '' is required'')))
          else let req = (if fqMaxChars req0 \<le> 0 then req0\<lparr>fqMaxChars := cfgMax\<rparr> else req0)
               in case wlParse wl (fqURL req) of
                    None \<Rightarrow> (w, ToolErr (SimpleUserError ''invalid url''))
                  | Some u \<Rightarrow>
                      if puScheme u \<noteq> ''http'' \<and> puScheme u \<noteq> ''https''
                      then (w, ToolErr (SimpleUserError ''unsupported URL scheme''))
                      else if puHostname u = [] then (w, ToolErr (SimpleUserError ''invalid url''))
                      else (case rejectPrivateTarget wl (puHostname u) w of
                              (w1, Some err) \<Rightarrow> (w1, ToolErr (SimpleUserError (Error err)))
                            | (w1, None) \<Rightarrow>
                                (case disallowedByRobots wl u w1 of
                                   (w2, Inl err) \<Rightarrow> (w2, ToolErr err)
                                 | (w2, Inr True) \<Rightarrow> (w2, ToolErr (SimpleUserError ''blocked by robots.txt''))
                                 | (w2, Inr False) \<Rightarrow> fetch_article wl req w2)))"

definition webFetchSchema :: string where
  "webFetchSchema =
     ''{'' @ NL @ ''  '' @ [DQ] @ ''type'' @ [DQ] @ '': '' @ [DQ] @ ''object'' @ [DQ] @ '','' @ NL @ ''  ''
         @ [DQ] @ ''properties'' @ [DQ] @ '': {'' @ NL @ ''    '' @ [DQ] @ ''url'' @ [DQ] @ '':       {''
         @ [DQ] @ ''type'' @ [DQ] @ '': '' @ [DQ] @ ''string'' @ [DQ] @ '', '' @ [DQ] @ ''format'' @ [DQ]
         @ '': '' @ [DQ] @ ''uri'' @ [DQ] @ '', '' @ [DQ] @ ''maxLength'' @ [DQ] @ '': 2048},'' @ NL
         @ ''    '' @ [DQ] @ ''max_chars'' @ [DQ] @ '': {'' @ [DQ] @ ''type'' @ [DQ] @ '': '' @ [DQ]
         @ ''integer'' @ [DQ] @ '', '' @ [DQ] @ ''minimum'' @ [DQ] @ '': 500, '' @ [DQ] @ ''maximum'' @ [DQ]
         @ '': 50000, '' @ [DQ] @ ''default'' @ [DQ] @ '': 20000}'' @ NL @ ''  },'' @ NL @ ''  '' @ [DQ]
         @ ''required'' @ [DQ] @ '': ['' @ [DQ] @ ''url'' @ [DQ] @ ''],'' @ NL @ ''  '' @ [DQ]
         @ ''additionalProperties'' @ [DQ] @ '': false'' @ NL @ ''}''"

definition NewWebFetch :: "'w web_lib \<Rightarrow> int \<Rightarrow> 'w tool" where
  "NewWebFetch wl maxChars =
     \<lparr>tName = ''web_fetch'',
      tDescription = (''Fetch a URL and return its main article content converted to Markdown. Use after web_search or when the user provides a URL.''),
      tInputSchema = webFetchSchema, tSource = SourceBuiltin, tAvailable = (\<lambda>w. True),
      tCall = (\<lambda>caller args w. web_fetch_Call wl (if maxChars \<le> 0 then 20000 else maxChars) args w)\<rparr>"

section \<open>The web_search tool (web_search.go)\<close>

record search_config =
  scProvider :: string
  scAPIKeyEnv :: string
  scMaxResults :: int
  scEndpoint :: string

definition search_defaults :: "search_config \<Rightarrow> search_config" where
  "search_defaults c =
     (let c1 = (if scProvider c = [] then c\<lparr>scProvider := ''tavily''\<rparr> else c);
          c2 = (if scMaxResults c1 \<le> 0 then c1\<lparr>scMaxResults := 5\<rparr> else c1)
      in if scEndpoint c2 = [] then c2\<lparr>scEndpoint := ''https://api.tavily.com/search''\<rparr> else c2)"

record search_req =
  sqQuery :: string
  sqMaxResults :: int

definition search_put :: "string \<Rightarrow> json \<Rightarrow> search_req \<Rightarrow> search_req option" where
  "search_put f v r =
     (if f = ''query'' then put_string v (\<lambda>x. r\<lparr>sqQuery := x\<rparr>) r
      else if f = ''max_results'' then put_int v (\<lambda>x. r\<lparr>sqMaxResults := x\<rparr>) r
      else Some r)"

record search_hit =
  shTitle :: string
  shURL :: string
  shContent :: string

definition hit_zero :: search_hit where
  "hit_zero = \<lparr>shTitle = [], shURL = [], shContent = []\<rparr>"

definition hit_put :: "string \<Rightarrow> json \<Rightarrow> search_hit \<Rightarrow> search_hit option" where
  "hit_put f v r =
     (if f = ''title'' then put_string v (\<lambda>x. r\<lparr>shTitle := x\<rparr>) r
      else if f = ''url'' then put_string v (\<lambda>x. r\<lparr>shURL := x\<rparr>) r
      else if f = ''content'' then put_string v (\<lambda>x. r\<lparr>shContent := x\<rparr>) r
      else Some r)"

definition results_put :: "string \<Rightarrow> json \<Rightarrow> search_hit list \<Rightarrow> search_hit list option" where
  "results_put f v r =
     (if f = ''results'' then put_list (decode_struct hit_put hit_zero) v (\<lambda>x. x) else Some r)"

definition truncateSpace :: "string \<Rightarrow> nat \<Rightarrow> string" where
  "truncateSpace s0 n =
     (let s = Join (Fields s0) '' '' in if length s \<le> n then s else take n s @ utf8 [0x2026])"

definition hit_lines :: "nat \<Rightarrow> search_hit \<Rightarrow> string" where
  "hit_lines i item =
     (let title0 = TrimSpace (shTitle item);
          title = (if title0 = [] then shURL item else title0);
          snippet = truncateSpace (shContent item) 300
      in dec_nat (i + 1) @ ''. **'' @ title @ (''** '' @ utf8 [0x2014] @ '' '') @ shURL item @ NL @
         (if snippet \<noteq> [] then ''   '' @ snippet @ NL else []))"

definition search_text :: "search_hit list \<Rightarrow> string" where
  "search_text hits =
     TrimSpace (concat (map (\<lambda>(i, h). hit_lines i h) (zip [0..<length hits] hits)) @
       (if hits = [] then ''No results found.'' else []))"

definition search_body :: "string \<Rightarrow> search_req \<Rightarrow> string" where
  "search_body apiKey req =
     print_json (go_map [(''api_key'', jstr apiKey), (''query'', jstr (sqQuery req)),
       (''max_results'', jint (sqMaxResults req)), (''search_depth'', jstr ''basic''),
       (''include_answer'', JBool False)])"

text \<open>\<open>getenv\<close> reads the environment; the response is read up to its limit, its read error ignored.\<close>

definition web_search_Call ::
  "(string \<Rightarrow> go_error) \<Rightarrow> (string \<Rightarrow> string) \<Rightarrow> 'w http_post \<Rightarrow> search_config \<Rightarrow> string \<Rightarrow> 'w \<Rightarrow> 'w \<times> tool_outcome" where
  "web_search_Call jerr getenv post cfg args w =
     (case decode_args search_put \<lparr>sqQuery = [], sqMaxResults = 0\<rparr> args of
        None \<Rightarrow> (w, ToolErr (SimpleUserError ''invalid arguments''))
      | Some req0 \<Rightarrow>
          if TrimSpace (sqQuery req0) = [] then (w, ToolErr (SimpleUserError ([CHR 0x22] @ ''query''
              @ [CHR 0x22] @ '' is required'')))
          else let req1 = (if sqMaxResults req0 \<le> 0 then req0\<lparr>sqMaxResults := scMaxResults cfg\<rparr> else req0);
                   req = (if 10 < sqMaxResults req1 then req1\<lparr>sqMaxResults := 10\<rparr> else req1);
                   apiKey = getenv (scAPIKeyEnv cfg)
               in if apiKey = [] then (w, ToolErr (SimpleUserError ''Search provider is not configured.''))
                  else case post (scEndpoint cfg) (search_body apiKey req) w of
                      (w', Inl err) \<Rightarrow> (w', ToolErr err)
                    | (w', Inr (status, body0)) \<Rightarrow>
                        (let body = take (1024 * 1024) body0
                         in if status = 429 then (w', ToolErr (SimpleUserError ''Search rate-limited, try again in a moment.''))
                            else if 400 \<le> status then (w', ToolErr (Errorf (''search provider status ''
                                @ dec_int status)))
                            else case decode_args results_put [] body of
                                None \<Rightarrow> (w', ToolErr (jerr body))
                              | Some hits \<Rightarrow> (w', ToolOk (search_text hits))))"

definition webSearchSchema :: string where
  "webSearchSchema =
     ''{'' @ NL @ ''  '' @ [DQ] @ ''$schema'' @ [DQ] @ '': '' @ [DQ]
         @ ''http://json-schema.org/draft-07/schema#'' @ [DQ] @ '','' @ NL @ ''  '' @ [DQ] @ ''type'' @ [DQ]
         @ '': '' @ [DQ] @ ''object'' @ [DQ] @ '','' @ NL @ ''  '' @ [DQ] @ ''properties'' @ [DQ] @ '': {''
         @ NL @ ''    '' @ [DQ] @ ''query'' @ [DQ] @ '':       {'' @ [DQ] @ ''type'' @ [DQ] @ '': '' @ [DQ]
         @ ''string'' @ [DQ] @ '', '' @ [DQ] @ ''minLength'' @ [DQ] @ '': 1, '' @ [DQ] @ ''maxLength'' @ [DQ]
         @ '': 200},'' @ NL @ ''    '' @ [DQ] @ ''max_results'' @ [DQ] @ '': {'' @ [DQ] @ ''type'' @ [DQ]
         @ '': '' @ [DQ] @ ''integer'' @ [DQ] @ '', '' @ [DQ] @ ''minimum'' @ [DQ] @ '': 1, '' @ [DQ]
         @ ''maximum'' @ [DQ] @ '': 10, '' @ [DQ] @ ''default'' @ [DQ] @ '': 5}'' @ NL @ ''  },'' @ NL
         @ ''  '' @ [DQ] @ ''required'' @ [DQ] @ '': ['' @ [DQ] @ ''query'' @ [DQ] @ ''],'' @ NL @ ''  ''
         @ [DQ] @ ''additionalProperties'' @ [DQ] @ '': false'' @ NL @ ''}''"

definition NewWebSearch ::
  "(string \<Rightarrow> go_error) \<Rightarrow> (string \<Rightarrow> string) \<Rightarrow> 'w http_post \<Rightarrow> search_config \<Rightarrow> 'w tool" where
  "NewWebSearch jerr getenv post cfg0 =
     (let cfg = search_defaults cfg0
      in \<lparr>tName = ''web_search'',
          tDescription = (''Search the public web. Returns up to max_results hits with title, URL, and a short snippet. Use this for current-events or open-web questions the model cannot answer from training data.''),
          tInputSchema = webSearchSchema, tSource = SourceBuiltin,
          tAvailable = (\<lambda>w. getenv (scAPIKeyEnv cfg) \<noteq> []),
          tCall = (\<lambda>caller args w. web_search_Call jerr getenv post cfg args w)\<rparr>)"

section \<open>The document tools (feishu_doc.go)\<close>

text \<open>
  The document API of the client library, each call with the user's access token: the raw text of a
  docx document, its title, the Markdown of an old document, and the search. A response has its
  \<open>Success\<close>, its code and the field the code reads.
\<close>

record 'a doc_resp =
  drOK :: bool
  drCode :: int
  drData :: 'a

record 'w doc_api =
  daRawContent :: "string \<Rightarrow> string \<Rightarrow> 'w \<Rightarrow> 'w \<times> (go_error + string option doc_resp)"
  daTitle :: "string \<Rightarrow> string \<Rightarrow> 'w \<Rightarrow> 'w \<times> (go_error + string option)"
  daContent :: "string \<Rightarrow> string \<Rightarrow> 'w \<Rightarrow> 'w \<times> (go_error + string option doc_resp)"
  daSearch :: "string \<Rightarrow> string \<Rightarrow> 'w \<Rightarrow> 'w \<times> (go_error + (string option \<times> string option) option list doc_resp)"

text \<open>\<open>fcTimeout\<close> tells the errors whose \<open>Timeout\<close> method returns true, \<open>fcPath\<close> is the path of a parsed URL.\<close>

record 'w feishu_config =
  fcStore :: "'w cred_store option"
  fcRefresher :: "'w refresher option"
  fcStartURL :: "(string \<Rightarrow> 'w \<Rightarrow> go_error + string) option"
  fcClient :: "'w doc_api option"
  fcTimeout :: "go_error \<Rightarrow> bool"
  fcPath :: "string \<Rightarrow> string option"
  fcClock :: "'w \<Rightarrow> time"
  fcWords :: words

definition no_access :: go_error where
  "no_access = SimpleUserError (utf8 [0x65E0, 0x6743, 0x8BBF, 0x95EE, 0x8BE5, 0x6587, 0x6863, 0xFF0C, 0x8BF7, 0x786E, 0x8BA4, 0x6587, 0x6863, 0x5DF2, 0x5206, 0x4EAB, 0x7ED9, 0x4F60, 0x6216, 0x6388, 0x6743] @ '' scope '' @ utf8 [0x8DB3, 0x591F, 0x3002])"

definition no_document :: go_error where
  "no_document = SimpleUserError (utf8 [0x6587, 0x6863, 0x4E0D, 0x5B58, 0x5728, 0x6216, 0x5DF2, 0x5220, 0x9664, 0x3002])"

definition mapFeishuCode :: "int \<Rightarrow> go_error" where
  "mapFeishuCode code =
     (if code = 403 \<or> code = 99991663 then no_access
      else if code = 404 \<or> code = 99991661 then no_document
      else Errorf (''feishu api code='' @ dec_int code))"

definition mapFeishuErr :: "(go_error \<Rightarrow> bool) \<Rightarrow> go_error \<Rightarrow> go_error" where
  "mapFeishuErr timeout err =
     (if Contains (Error err) ''403'' then no_access
      else if Contains (Error err) ''404'' then no_document
      else if timeout err then SimpleUserError (utf8 [0x98DE, 0x4E66, 0x6587, 0x6863, 0x670D, 0x52A1, 0x8D85, 0x65F6, 0xFF0C, 0x8BF7, 0x7A0D, 0x540E, 0x91CD, 0x8BD5, 0x3002])
      else err)"

definition oauthStartError :: "'w feishu_config \<Rightarrow> string \<Rightarrow> 'w \<Rightarrow> go_error" where
  "oauthStartError cfg openID w =
     (case fcStartURL cfg of
        None \<Rightarrow> SimpleUserError (utf8 [0x8BF7, 0x5148, 0x5B8C, 0x6210, 0x98DE, 0x4E66, 0x6388, 0x6743, 0x3002])
      | Some start \<Rightarrow>
          (case start openID w of Inl err \<Rightarrow> err | Inr u \<Rightarrow> SimpleUserError ((utf8 [0x8BF7, 0x5148, 0x5B8C, 0x6210, 0x98DE, 0x4E66, 0x6388, 0x6743, 0xFF1A]) @ u)))"

text \<open>Without a store the call dereferences a nil pointer: the panic that the agent recovers from.\<close>

datatype 'a cred_result = CredOk 'a | CredErr go_error | CredPanic

definition nil_panic :: string where
  "nil_panic = ''runtime error: invalid memory address or nil pointer dereference''"

definition requireCredential :: "'w feishu_config \<Rightarrow> string \<Rightarrow> 'w \<Rightarrow> 'w \<times> credential cred_result" where
  "requireCredential cfg openID w =
     (if openID = [] then (w, CredErr (SimpleUserError ''missing caller identity''))
      else case fcStore cfg of None \<Rightarrow> (w, CredPanic)
        | Some st \<Rightarrow>
            (case cred_Get (wdJson (fcWords cfg)) st openID w of
               (w1, Inl err) \<Rightarrow> (w1, CredErr err)
             | (w1, Inr None) \<Rightarrow> (w1, CredErr (oauthStartError cfg openID w1))
             | (w1, Inr (Some cred)) \<Rightarrow>
                 (case (case fcRefresher cfg of None \<Rightarrow> (w1, Inr (Some cred))
                        | Some rf \<Rightarrow> RefreshIfNeeded (wdJson (fcWords cfg) []) (fcClock cfg) rf (Some cred) w1) of
                    (w2, Inl err) \<Rightarrow>
                      (w2, CredErr (case err of
                          ReauthorizeError u \<Rightarrow> SimpleUserError ((utf8 [0x8BF7, 0x5148, 0x5B8C, 0x6210, 0x98DE, 0x4E66, 0x6388, 0x6743, 0xFF1A]) @ u) | _ \<Rightarrow> err))
                  | (w2, Inr None) \<Rightarrow> (w2, CredPanic)
                  | (w2, Inr (Some c)) \<Rightarrow>
                      (let c' = c\<lparr>crLastUsedAt := fcClock cfg w2\<rparr>
                       in (fst (cred_Save (wdJson (fcWords cfg) []) st (Some c') w2), CredOk c')))))"

definition parseDocToken :: "(string \<Rightarrow> string option) \<Rightarrow> string \<Rightarrow> string" where
  "parseDocToken path raw =
     (if raw = [] then []
      else case path raw of None \<Rightarrow> []
        | Some p \<Rightarrow> last (Split (Trim p ''/'') ''/''))"

definition isDocxToken :: "string \<Rightarrow> string \<Rightarrow> bool" where
  "isDocxToken token rawURL \<longleftrightarrow>
     HasPrefix token ''dox'' \<or> HasPrefix token ''doccn'' \<or> Contains rawURL ''/docx/''"

definition client_missing :: go_error where
  "client_missing = Errorf ''feishu client not configured''"

text \<open>The content and the title.\<close>

definition fetchFeishuDocContent ::
  "'w feishu_config \<Rightarrow> credential \<Rightarrow> string \<Rightarrow> string \<Rightarrow> 'w \<Rightarrow> 'w \<times> (go_error + (string \<times> string))" where
  "fetchFeishuDocContent cfg cred token rawURL w =
     (case fcClient cfg of None \<Rightarrow> (w, Inl client_missing)
      | Some api \<Rightarrow>
          if isDocxToken token rawURL then
            (case daRawContent api (crAccessToken cred) token w of
               (w1, Inl err) \<Rightarrow> (w1, Inl (mapFeishuErr (fcTimeout cfg) err))
             | (w1, Inr resp) \<Rightarrow>
                 if \<not> drOK resp then (w1, Inl (mapFeishuCode (drCode resp)))
                 else (case daTitle api (crAccessToken cred) token w1 of
                         (w2, Inl err) \<Rightarrow> (w2, Inl (mapFeishuErr (fcTimeout cfg) err))
                       | (w2, Inr info) \<Rightarrow>
                           (w2, Inr (case drData resp of None \<Rightarrow> [] | Some c \<Rightarrow> c,
                                     case info of None \<Rightarrow> token | Some t \<Rightarrow> if t \<noteq> [] then t else token))))
          else
            (case daContent api (crAccessToken cred) token w of
               (w1, Inl err) \<Rightarrow> (w1, Inl (mapFeishuErr (fcTimeout cfg) err))
             | (w1, Inr resp) \<Rightarrow>
                 if \<not> drOK resp then (w1, Inl (mapFeishuCode (drCode resp)))
                 else (w1, Inr (case drData resp of None \<Rightarrow> token | Some c \<Rightarrow> c, token))))"

definition search_item :: "(string option \<times> string option) option \<Rightarrow> (string \<times> string) list" where
  "search_item item =
     (case item of None \<Rightarrow> []
      | Some (t, u) \<Rightarrow>
          (let title = (case t of Some x \<Rightarrow> x | None \<Rightarrow> []); url = (case u of Some x \<Rightarrow> x | None \<Rightarrow> [])
           in if title = [] \<and> url = [] then [] else [(title, url)]))"

definition searchFeishuDocs ::
  "'w feishu_config \<Rightarrow> credential \<Rightarrow> string \<Rightarrow> 'w \<Rightarrow> 'w \<times> (go_error + (string \<times> string) list)" where
  "searchFeishuDocs cfg cred query w =
     (case fcClient cfg of None \<Rightarrow> (w, Inl client_missing)
      | Some api \<Rightarrow>
          (case daSearch api (crAccessToken cred) query w of
             (w1, Inl err) \<Rightarrow> (w1, Inl (mapFeishuErr (fcTimeout cfg) err))
           | (w1, Inr resp) \<Rightarrow>
               if \<not> drOK resp then (w1, Inl (mapFeishuCode (drCode resp)))
               else (w1, Inr (concat (map search_item (drData resp))))))"

definition truncateDoc :: "string \<Rightarrow> nat \<Rightarrow> string" where
  "truncateDoc s n = cut_content (TrimSpace s) n"

record read_req =
  rqURL :: string
  rqDocToken :: string

definition read_put :: "string \<Rightarrow> json \<Rightarrow> read_req \<Rightarrow> read_req option" where
  "read_put f v r =
     (if f = ''url'' then put_string v (\<lambda>x. r\<lparr>rqURL := x\<rparr>) r
      else if f = ''doc_token'' then put_string v (\<lambda>x. r\<lparr>rqDocToken := x\<rparr>) r
      else Some r)"

definition doc_read_Call :: "'w feishu_config \<Rightarrow> string \<Rightarrow> string \<Rightarrow> 'w \<Rightarrow> 'w \<times> tool_outcome" where
  "doc_read_Call cfg caller args w =
     (case decode_args read_put \<lparr>rqURL = [], rqDocToken = []\<rparr> args of
        None \<Rightarrow> (w, ToolErr (SimpleUserError ''invalid arguments''))
      | Some req \<Rightarrow>
          (case requireCredential cfg caller w of
             (w1, CredPanic) \<Rightarrow> (w1, ToolPanic nil_panic)
           | (w1, CredErr err) \<Rightarrow> (w1, ToolErr err)
           | (w1, CredOk cred) \<Rightarrow>
               (let token = (if rqDocToken req = [] then parseDocToken (fcPath cfg) (rqURL req) else rqDocToken req)
                in if token = [] then (w1, ToolErr (SimpleUserError ''missing doc_token or unreadable Feishu doc URL''))
                   else case fetchFeishuDocContent cfg cred token (rqURL req) w1 of
                       (w2, Inl err) \<Rightarrow> (w2, ToolErr err)
                     | (w2, Inr (content, title)) \<Rightarrow>
                         (w2, ToolOk (''Title: '' @ title @ NL @ NL @ truncateDoc content 20000)))))"

record docsearch_req =
  dsQuery :: string
  dsCount :: int

definition docsearch_put :: "string \<Rightarrow> json \<Rightarrow> docsearch_req \<Rightarrow> docsearch_req option" where
  "docsearch_put f v r =
     (if f = ''query'' then put_string v (\<lambda>x. r\<lparr>dsQuery := x\<rparr>) r
      else if f = ''count'' then put_int v (\<lambda>x. r\<lparr>dsCount := x\<rparr>) r
      else Some r)"

definition docsearch_text :: "(string \<times> string) list \<Rightarrow> string" where
  "docsearch_text items =
     (if items = [] then ''Found 0 documents:''
      else TrimSpace (''Found '' @ dec_nat (length items) @ '' documents:'' @ NL @
        concat (map (\<lambda>(i, (t, u)). dec_nat (i + 1) @ ''. **'' @ t @ (''** '' @ utf8 [0x2014] @ '' '')
            @ u @ NL)
                    (zip [0..<length items] items))))"

definition doc_search_Call :: "'w feishu_config \<Rightarrow> string \<Rightarrow> string \<Rightarrow> 'w \<Rightarrow> 'w \<times> tool_outcome" where
  "doc_search_Call cfg caller args w =
     (case decode_args docsearch_put \<lparr>dsQuery = [], dsCount = 0\<rparr> args of
        None \<Rightarrow> (w, ToolErr (SimpleUserError ''invalid arguments''))
      | Some req \<Rightarrow>
          if TrimSpace (dsQuery req) = [] then (w, ToolErr (SimpleUserError ([CHR 0x22] @ ''query''
              @ [CHR 0x22] @ '' is required'')))
          else (case requireCredential cfg caller w of
                  (w1, CredPanic) \<Rightarrow> (w1, ToolPanic nil_panic)
                | (w1, CredErr err) \<Rightarrow> (w1, ToolErr err)
                | (w1, CredOk cred) \<Rightarrow>
                    (case searchFeishuDocs cfg cred (dsQuery req) w1 of
                       (w2, Inl err) \<Rightarrow> (w2, ToolErr err)
                     | (w2, Inr items) \<Rightarrow> (w2, ToolOk (docsearch_text items)))))"

definition feishu_available :: "'w feishu_config \<Rightarrow> bool" where
  "feishu_available cfg \<longleftrightarrow> fcStore cfg \<noteq> None \<and> fcStartURL cfg \<noteq> None"

definition feishuDocReadSchema :: string where
  "feishuDocReadSchema =
     ''{'' @ NL @ ''  '' @ [DQ] @ ''type'' @ [DQ] @ '': '' @ [DQ] @ ''object'' @ [DQ] @ '','' @ NL @ ''  ''
         @ [DQ] @ ''description'' @ [DQ] @ '': '' @ [DQ] @ ''Provide either a Feishu document URL or a document token.'' @ [DQ] @ '','' @ NL @ ''  '' @ [DQ] @ ''properties'' @ [DQ] @ '': {'' @ NL @ ''    '' @ [DQ] @ ''url'' @ [DQ] @ '': {'' @ NL @ ''      '' @ [DQ] @ ''type'' @ [DQ] @ '': '' @ [DQ] @ ''string'' @ [DQ] @ '','' @ NL @ ''      '' @ [DQ] @ ''format'' @ [DQ] @ '': '' @ [DQ] @ ''uri'' @ [DQ] @ '','' @ NL @ ''      '' @ [DQ] @ ''minLength'' @ [DQ] @ '': 1,'' @ NL @ ''      '' @ [DQ] @ ''description'' @ [DQ] @ '': '' @ [DQ] @ ''Full Feishu doc/docx URL pasted by the user.'' @ [DQ] @ NL @ ''    },'' @ NL @ ''    '' @ [DQ] @ ''doc_token'' @ [DQ] @ '': {'' @ NL @ ''      '' @ [DQ] @ ''type'' @ [DQ] @ '': '' @ [DQ] @ ''string'' @ [DQ] @ '','' @ NL @ ''      '' @ [DQ] @ ''minLength'' @ [DQ] @ '': 1,'' @ NL @ ''      '' @ [DQ] @ ''description'' @ [DQ] @ '': '' @ [DQ] @ ''Document token such as doxcn... or doccn....'' @ [DQ] @ NL @ ''    }'' @ NL @ ''  },'' @ NL @ ''  '' @ [DQ] @ ''additionalProperties'' @ [DQ] @ '': false'' @ NL @ ''}''"

definition NewFeishuDocRead :: "'w feishu_config \<Rightarrow> 'w tool" where
  "NewFeishuDocRead cfg =
     \<lparr>tName = ''feishu_doc_read'',
      tDescription = (''Read a Feishu cloud document (docx / new docs) and return its content as Markdown. Requires the user to have authorized this bot via OAuth.''),
      tInputSchema = feishuDocReadSchema, tSource = SourceBuiltin, tAvailable = (\<lambda>w. feishu_available cfg),
      tCall = doc_read_Call cfg\<rparr>"

definition feishuDocSearchSchema :: string where
  "feishuDocSearchSchema =
     ''{'' @ NL @ ''  '' @ [DQ] @ ''type'' @ [DQ] @ '': '' @ [DQ] @ ''object'' @ [DQ] @ '','' @ NL @ ''  ''
         @ [DQ] @ ''properties'' @ [DQ] @ '': {'' @ NL @ ''    '' @ [DQ] @ ''query'' @ [DQ] @ '': {'' @ [DQ]
         @ ''type'' @ [DQ] @ '': '' @ [DQ] @ ''string'' @ [DQ] @ '', '' @ [DQ] @ ''minLength'' @ [DQ]
         @ '': 1, '' @ [DQ] @ ''maxLength'' @ [DQ] @ '': 200},'' @ NL @ ''    '' @ [DQ] @ ''count'' @ [DQ]
         @ '': {'' @ [DQ] @ ''type'' @ [DQ] @ '': '' @ [DQ] @ ''integer'' @ [DQ] @ '', '' @ [DQ]
         @ ''minimum'' @ [DQ] @ '': 1, '' @ [DQ] @ ''maximum'' @ [DQ] @ '': 20, '' @ [DQ] @ ''default''
         @ [DQ] @ '': 10}'' @ NL @ ''  },'' @ NL @ ''  '' @ [DQ] @ ''required'' @ [DQ] @ '': ['' @ [DQ]
         @ ''query'' @ [DQ] @ ''],'' @ NL @ ''  '' @ [DQ] @ ''additionalProperties'' @ [DQ] @ '': false''
         @ NL @ ''}''"

definition NewFeishuDocSearch :: "'w feishu_config \<Rightarrow> 'w tool" where
  "NewFeishuDocSearch cfg =
     \<lparr>tName = ''feishu_doc_search'',
      tDescription = (''Search the caller'' @ [CHR 0x27] @ ''s accessible Feishu cloud documents by keyword. Returns title, owner, and open URL.''),
      tInputSchema = feishuDocSearchSchema, tSource = SourceBuiltin, tAvailable = (\<lambda>w. feishu_available cfg),
      tCall = doc_search_Call cfg\<rparr>"

section \<open>What web_fetch refuses\<close>

lemma v4_byte_div: "v4_byte w i = unat w div 2 ^ (24 - 8 * i) mod 256"
  by (simp only: v4_byte_def unat_drop_bit_eq) (simp only: drop_bit_eq_div)

lemma unat_v4: "unat (w :: 32 word) < 4294967296"
  using unsigned_less [of w] by simp

lemma v4_bytes: "v4_byte w 0 = unat w div 16777216" "v4_byte w 1 = unat w div 65536 mod 256"
  "v4_byte w 2 = unat w div 256 mod 256"
  using unat_v4 [of w] by (simp_all add: v4_byte_div)

lemma byte_split: "(q div 256 = x \<and> q mod 256 = y) = (y < 256 \<and> q = 256 * x + y)" for q x y :: nat
  using mult_div_mod_eq [of 256 q] mod_less_divisor [of 256 q] by auto

lemma nibble: "(q div 256 = 172 \<and> 16 \<le> q mod 256 \<and> q mod 256 \<le> 31) = (q div 16 = 2753)" for q :: nat
proof
  assume h: "q div 256 = 172 \<and> 16 \<le> q mod 256 \<and> q mod 256 \<le> 31"
  have "q = 256 * (q div 256) + q mod 256" by simp
  with h have "44048 \<le> q \<and> q < 44064" by linarith
  then show "q div 16 = 2753" by (simp add: div_nat_eqI)
next
  assume "q div 16 = 2753"
  then have b: "44048 \<le> q \<and> q < 44064" using mult_div_mod_eq [of 16 q] mod_less_divisor [of 16 q] by linarith
  then have "q div 256 = 172" by (simp add: div_nat_eqI)
  with b show "q div 256 = 172 \<and> 16 \<le> q mod 256 \<and> q mod 256 \<le> 31"
    using mult_div_mod_eq [of 256 q] by linarith
qed

lemma blocks_of_bytes:
  fixes u :: nat
  shows "(u div 16777216 = 172 \<and> 16 \<le> u div 65536 mod 256 \<and> u div 65536 mod 256 \<le> 31) = (u div 1048576 = 2753)"
    and "(u div 16777216 = x \<and> u div 65536 mod 256 = y) = (y < 256 \<and> u div 65536 = 256 * x + y)"
    and "(u div 16777216 = x \<and> u div 65536 mod 256 = y \<and> u div 256 mod 256 = z) =
      (y < 256 \<and> z < 256 \<and> u div 256 = 65536 * x + 256 * y + z)"
proof -
  define p where "p = u div 256"
  define q where "q = p div 256"
  have d: "u div 16777216 = q div 256" "u div 65536 = q" "u div 256 = p" "u div 1048576 = q div 16"
    by (simp_all add: p_def q_def div_mult2_eq [symmetric])
  show "(u div 16777216 = 172 \<and> 16 \<le> u div 65536 mod 256 \<and> u div 65536 mod 256 \<le> 31) = (u div 1048576 = 2753)"
    unfolding d by (rule nibble)
  show "(u div 16777216 = x \<and> u div 65536 mod 256 = y) = (y < 256 \<and> u div 65536 = 256 * x + y)"
    unfolding d by (rule byte_split)
  show "(u div 16777216 = x \<and> u div 65536 mod 256 = y \<and> u div 256 mod 256 = z) =
      (y < 256 \<and> z < 256 \<and> u div 256 = 65536 * x + 256 * y + z)"
    unfolding d q_def conj_assoc [symmetric] byte_split by (auto simp: byte_split [of p "256 * x + y" z] dest: byte_split [of p "256 * x + y" z, THEN iffD1])
qed

text \<open>The refused IPv4 addresses are exactly the blocks 10/8, 127/8, 169.254/16, 172.16/12, 192.168/16 and
  224.0.0/24; so the address 0.0.0.0, which reaches the local host, is not refused.\<close>
theorem private_v4:
  "isPrivateIP (V4 w) = (unat w div 16777216 = 10 \<or> unat w div 16777216 = 127 \<or> unat w div 65536 = 43518 \<or>
     unat w div 1048576 = 2753 \<or> unat w div 65536 = 49320 \<or> unat w div 256 = 14680064) \<and>
   \<not> isPrivateIP (V4 0)"
proof -
  have *: "isPrivateIP (V4 w) = (unat w div 16777216 = 127 \<or> (unat w div 16777216 = 10 \<or>
      (unat w div 16777216 = 172 \<and> 16 \<le> unat w div 65536 mod 256 \<and> unat w div 65536 mod 256 \<le> 31) \<or>
      (unat w div 16777216 = 192 \<and> unat w div 65536 mod 256 = 168)) \<or>
      (unat w div 16777216 = 169 \<and> unat w div 65536 mod 256 = 254) \<or>
      (unat w div 16777216 = 224 \<and> unat w div 65536 mod 256 = 0 \<and> unat w div 256 mod 256 = 0))" for w :: "32 word"
    by (simp only: isPrivateIP_def is_loopback_def is_private_def is_link_local_unicast_def is_link_local_multicast_def
        unmap_def ip_addr.case v4_bytes disj_assoc)
  show ?thesis by (auto simp: * blocks_of_bytes)
qed

text \<open>C23 The tool returns a page only for an HTTP or HTTPS URL whose host is an address that is not refused or a
  name all of whose addresses are not refused, and only when robots.txt does not block the path.\<close>
theorem fetch_only_public:
  assumes "web_fetch_Call wl m args w = (w', ToolOk c)"
  shows "\<exists>req u w1 w2. decode_args fetch_put \<lparr>fqURL = [], fqMaxChars = 0\<rparr> args = Some req \<and>
    wlParse wl (fqURL req) = Some u \<and> (puScheme u = ''http'' \<or> puScheme u = ''https'') \<and>
    (case wlAddr wl (puHostname u) of
       Some a \<Rightarrow> \<not> isPrivateIP a \<and> w1 = w
     | None \<Rightarrow> \<exists>addrs. wlLookup wl (puHostname u) w = (w1, Inr addrs) \<and> \<not> list_ex isPrivateIP addrs) \<and>
    disallowedByRobots wl u w1 = (w2, Inr False)"
proof -
  from assms obtain req u w1 w2 where d: "decode_args fetch_put \<lparr>fqURL = [], fqMaxChars = 0\<rparr> args = Some req"
    "wlParse wl (fqURL req) = Some u" "puScheme u = ''http'' \<or> puScheme u = ''https''"
    and r: "rejectPrivateTarget wl (puHostname u) w = (w1, None)" "disallowedByRobots wl u w1 = (w2, Inr False)"
    unfolding web_fetch_Call_def Let_def
    by (auto split: option.splits if_splits prod.splits sum.splits bool.splits)
  have "case wlAddr wl (puHostname u) of
       Some a \<Rightarrow> \<not> isPrivateIP a \<and> w1 = w
     | None \<Rightarrow> \<exists>addrs. wlLookup wl (puHostname u) w = (w1, Inr addrs) \<and> \<not> list_ex isPrivateIP addrs"
    using r(1) by (auto simp: rejectPrivateTarget_def Let_def split: option.splits prod.splits sum.splits if_splits)
  with d r(2) show ?thesis by blast
qed

definition demo_web :: "nat web_lib" where
  "demo_web = \<lparr>wlParse = (\<lambda>_. Some \<lparr>puScheme = ''http'', puHost = ''a'', puHostname = ''a'', puPath = [],
       puEscapedPath = []\<rparr>), wlAddr = (\<lambda>_. None), wlLookup = (\<lambda>_ w. (w + 1, Inr [V4 0x08080808])),
     wlGet = (\<lambda>_ _ w. (w + 1, Inr (200, Inr []))), wlArticle = (\<lambda>_ _. Inr (''t'', Inr ''x''))\<rparr>"

definition demo_fetch_args :: string where
  "demo_fetch_args = ''{'' @ [DQ] @ ''url'' @ [DQ] @ '':'' @ [DQ] @ ''http://a'' @ [DQ] @ ''}''"

theorem fetch_only_public_witness:
  "\<exists>req u w1 w2. decode_args fetch_put \<lparr>fqURL = [], fqMaxChars = 0\<rparr> demo_fetch_args = Some req \<and>
    wlParse demo_web (fqURL req) = Some u \<and> (puScheme u = ''http'' \<or> puScheme u = ''https'') \<and>
    (case wlAddr demo_web (puHostname u) of
       Some a \<Rightarrow> \<not> isPrivateIP a \<and> w1 = 0
     | None \<Rightarrow> \<exists>addrs. wlLookup demo_web (puHostname u) 0 = (w1, Inr addrs) \<and> \<not> list_ex isPrivateIP addrs) \<and>
    disallowedByRobots demo_web u w1 = (w2, Inr False)"
proof -
  have d: "decode_args fetch_put \<lparr>fqURL = [], fqMaxChars = 0\<rparr> demo_fetch_args = Some \<lparr>fqURL = ''http://a'', fqMaxChars = 0\<rparr>"
    by code_simp
  have p: "\<not> isPrivateIP (V4 0x08080808)" by code_simp
  have t: "TrimSpace ''x'' = ''x''" by code_simp
  have e: "Split [] NL = [[]]" "TrimSpace [] = []" "\<not> HasPrefix (ascii_lower []) ''disallow:''" by code_simp+
  have "disallowedByRobots demo_web u w = (w + 1, Inr False)" for u w
    by (simp add: disallowedByRobots_def demo_web_def robots_blocks_def e)
  moreover have "rejectPrivateTarget demo_web ''a'' 0 = (1, None)"
    using p by (simp add: rejectPrivateTarget_def demo_web_def)
  moreover have "fetch_article demo_web \<lparr>fqURL = ''http://a'', fqMaxChars = 100\<rparr> 2 = (3, ToolOk (''Title: t'' @ NL @ NL @ ''x''))"
    by (simp add: fetch_article_def demo_web_def t cut_content_def)
  moreover have "wlParse demo_web ''http://a'' = Some \<lparr>puScheme = ''http'', puHost = ''a'', puHostname = ''a'', puPath = [],
      puEscapedPath = []\<rparr>" by (simp add: demo_web_def)
  ultimately have "web_fetch_Call demo_web 100 demo_fetch_args 0 = (3, ToolOk (''Title: t'' @ NL @ NL @ ''x''))"
    by (simp add: web_fetch_Call_def d numeral_2_eq_2)
  then show ?thesis by (rule fetch_only_public)
qed

end
