(* ===== verification/Mcp.thy ===== *)
theory Mcp
  imports Config Tools
begin

text \<open>
  internal/mcp: the manager that connects to the configured MCP servers and the adapter that offers
  their tools to the agent. The client library is a parameter: its three factories, and a client as
  the record of its methods on an external world. A context is the time that a load may take; the
  library returns a result whenever it returns no error.
\<close>

section \<open>Clients and servers (client.go, manager.go)\<close>

record mcp_server_config =
  msName :: string
  msEnabled :: bool
  msTransport :: string
  msCommand :: string
  msArgs :: "string list"
  msEnv :: "string gomap"
  msURL :: string
  msHeaders :: "string gomap"
  msInitializeTimeout :: time

record server_status =
  ssName :: string
  ssConnected :: bool
  ssLastError :: string
  ssTools :: "string list"

text \<open>A tool a server lists: \<open>mtSchema\<close> is the JSON of its schema, \<open>mtRaw\<close> the raw schema where it has one.\<close>

record mcp_tool =
  mtName :: string
  mtDescription :: string
  mtSchema :: string
  mtRaw :: string

text \<open>The content of a result: text, or anything else with its JSON.\<close>

datatype mcp_content = TextContent string | OtherContent string

record call_result =
  crContent :: "mcp_content list"
  crIsError :: bool

record 'w mcp_client =
  mcInitialize :: "time \<Rightarrow> string \<Rightarrow> 'w \<Rightarrow> 'w \<times> go_error option"
  mcListTools :: "time \<Rightarrow> 'w \<Rightarrow> 'w \<times> (go_error + mcp_tool list)"
  mcCallTool :: "string \<Rightarrow> go_any gomap option \<Rightarrow> 'w \<Rightarrow> 'w \<times> (go_error + call_result)"
  mcClose :: "'w \<Rightarrow> 'w"

text \<open>The factories of the library: command, environment and arguments; URL, headers and timeout.\<close>

record 'w mcp_lib =
  mlStdio :: "string \<Rightarrow> string list \<Rightarrow> string list \<Rightarrow> 'w \<Rightarrow> 'w \<times> (go_error + 'w mcp_client)"
  mlHTTP :: "string \<Rightarrow> string gomap \<Rightarrow> time \<Rightarrow> 'w \<Rightarrow> 'w \<times> (go_error + 'w mcp_client)"
  mlSSE :: "string \<Rightarrow> string gomap \<Rightarrow> time \<Rightarrow> 'w \<Rightarrow> 'w \<times> (go_error + 'w mcp_client)"

definition timeoutOrDefault :: "time \<Rightarrow> time" where
  "timeoutOrDefault d = (if d \<le> 0 then 10 * sec else d)"

definition envMapToList :: "string gomap \<Rightarrow> string list" where
  "envMapToList m = map (\<lambda>(k, v). k @ ''='' @ v) m"

definition initializeClient ::
  "(string \<Rightarrow> string) \<Rightarrow> time \<Rightarrow> 'w mcp_client \<Rightarrow> string \<Rightarrow> 'w \<Rightarrow> 'w \<times> go_error option" where
  "initializeClient quote ctx c name w =
     (case mcInitialize c ctx (''ssh-bot-mcp-client-'' @ name) w of
        (w', Some err) \<Rightarrow> (w', Some (Wrapf (''initialize mcp client '' @ quote name) err))
      | (w', None) \<Rightarrow> (w', None))"

definition newStdioClient :: "'w mcp_lib \<Rightarrow> mcp_server_config \<Rightarrow> 'w \<Rightarrow> 'w \<times> (go_error + 'w mcp_client)" where
  "newStdioClient lib cfg = mlStdio lib (msCommand cfg) (envMapToList (msEnv cfg)) (msArgs cfg)"

definition newHTTPClient :: "'w mcp_lib \<Rightarrow> mcp_server_config \<Rightarrow> 'w \<Rightarrow> 'w \<times> (go_error + 'w mcp_client)" where
  "newHTTPClient lib cfg = mlHTTP lib (msURL cfg) (msHeaders cfg) (timeoutOrDefault (msInitializeTimeout cfg))"

definition newSSEClient :: "'w mcp_lib \<Rightarrow> mcp_server_config \<Rightarrow> 'w \<Rightarrow> 'w \<times> (go_error + 'w mcp_client)" where
  "newSSEClient lib cfg = mlSSE lib (msURL cfg) (msHeaders cfg) (timeoutOrDefault (msInitializeTimeout cfg))"

definition unsupportedTransportError :: "(string \<Rightarrow> string) \<Rightarrow> string \<Rightarrow> go_error" where
  "unsupportedTransportError quote transport = Errorf (''unsupported mcp transport '' @ quote transport)"

definition newClient ::
  "(string \<Rightarrow> string) \<Rightarrow> 'w mcp_lib \<Rightarrow> mcp_server_config \<Rightarrow> 'w \<Rightarrow> 'w \<times> (go_error + 'w mcp_client)" where
  "newClient quote lib cfg w =
     (if msTransport cfg = ''stdio'' then newStdioClient lib cfg w
      else if msTransport cfg = ''http'' then newHTTPClient lib cfg w
      else if msTransport cfg = ''sse'' then newSSEClient lib cfg w
      else (w, Inl (unsupportedTransportError quote (msTransport cfg))))"

section \<open>Adapted tools (adapter.go)\<close>

definition prefixedToolName :: "string \<Rightarrow> string \<Rightarrow> string" where
  "prefixedToolName serverName toolName = MCPNamePrefix @ serverName @ ''__'' @ toolName"

text \<open>
  Arguments are decoded into a value of type \<open>any\<close>: of equal keys the last value stays. \<open>num\<close> is the
  parser of a number into a float, which fails out of range.
\<close>

fun any_of :: "(string \<Rightarrow> (int \<times> int) option) \<Rightarrow> json \<Rightarrow> go_any option"
  and any_list :: "(string \<Rightarrow> (int \<times> int) option) \<Rightarrow> json list \<Rightarrow> go_any list option"
  and any_map :: "(string \<Rightarrow> (int \<times> int) option) \<Rightarrow> (string \<times> json) list \<Rightarrow> go_any gomap \<Rightarrow> go_any gomap option"
where
  "any_of num JNull = Some AnyNil"
| "any_of num (JBool b) = Some (AnyBool b)"
| "any_of num (JNum s) = map_option (\<lambda>(m, e). AnyFloat m e) (num s)"
| "any_of num (JStr s) = Some (AnyString (unescape s))"
| "any_of num (JArr vs) = map_option AnyList (any_list num vs)"
| "any_of num (JObj ms) = map_option AnyMap (any_map num ms [])"
| "any_list num [] = Some []"
| "any_list num (v # vs) =
     (case any_of num v of None \<Rightarrow> None | Some x \<Rightarrow> map_option (\<lambda>xs. x # xs) (any_list num vs))"
| "any_map num [] m = Some m"
| "any_map num ((k, v) # ms) m =
     (case any_of num v of None \<Rightarrow> None | Some x \<Rightarrow> any_map num ms (AList.update (unescape k) x m))"

text \<open>\<open>None\<close>: not JSON, or not an object or null. The map is nil for null and for no arguments at all.\<close>

definition decode_map :: "(string \<Rightarrow> (int \<times> int) option) \<Rightarrow> string \<Rightarrow> go_any gomap option option" where
  "decode_map num args =
     (if args = [] then Some None
      else case read_json args of
          Some JNull \<Rightarrow> Some None
        | Some (JObj ms) \<Rightarrow> map_option Some (any_map num ms [])
        | _ \<Rightarrow> None)"

definition content_text :: "mcp_content \<Rightarrow> string" where
  "content_text c = (case c of TextContent t \<Rightarrow> t | OtherContent raw \<Rightarrow> raw)"

definition callToolResultText :: "call_result \<Rightarrow> string" where
  "callToolResultText resp =
     (if crContent resp = [] then [] else TrimSpace (Join (map content_text (crContent resp)) NL))"

definition adapted_Call ::
  "(string \<Rightarrow> (int \<times> int) option) \<Rightarrow> mcp_tool \<Rightarrow> 'w mcp_client \<Rightarrow> string \<Rightarrow> 'w \<Rightarrow> 'w \<times> tool_outcome" where
  "adapted_Call num d c args w =
     (case decode_map num args of
        None \<Rightarrow> (w, ToolErr (SimpleUserError ''invalid arguments''))
      | Some parsed \<Rightarrow>
          (case mcCallTool c (mtName d) parsed w of
             (w', Inl err) \<Rightarrow> (w', ToolErr err)
           | (w', Inr resp) \<Rightarrow>
               (let t = callToolResultText resp
                in (w', if crIsError resp then ToolErr (SimpleUserError t) else ToolOk t))))"

text \<open>The status a tool asks for is that of its server, which does not change once the server is loaded.\<close>

definition adapted_tool ::
  "(string \<Rightarrow> (int \<times> int) option) \<Rightarrow> string \<Rightarrow> 'w mcp_client \<Rightarrow> server_status \<Rightarrow> mcp_tool \<Rightarrow> 'w tool" where
  "adapted_tool num serverName c status d =
     \<lparr>tName = prefixedToolName serverName (mtName d), tDescription = mtDescription d,
      tInputSchema = (if mtRaw d \<noteq> [] then mtRaw d else mtSchema d), tSource = SourceMCP,
      tAvailable = (\<lambda>w. ssConnected status), tCall = (\<lambda>caller args w. adapted_Call num d c args w)\<rparr>"

definition adaptTools ::
  "(string \<Rightarrow> (int \<times> int) option) \<Rightarrow> string \<Rightarrow> 'w mcp_client \<Rightarrow> mcp_tool list \<Rightarrow> server_status \<Rightarrow> 'w tool list" where
  "adaptTools num serverName c defs status = map (adapted_tool num serverName c status) defs"

definition toServerStatus :: "string \<Rightarrow> bool \<Rightarrow> string \<Rightarrow> mcp_tool list \<Rightarrow> server_status" where
  "toServerStatus name connected lastErr defs =
     \<lparr>ssName = name, ssConnected = connected, ssLastError = lastErr,
      ssTools = map (\<lambda>d. prefixedToolName name (mtName d)) defs\<rparr>"

section \<open>The manager (manager.go)\<close>

record 'w managed_server =
  mgConfig :: mcp_server_config
  mgClient :: "'w mcp_client option"
  mgStatus :: server_status
  mgAdapted :: "'w tool list"

text \<open>The manager is the map of its servers.\<close>

type_synonym 'w manager = "'w managed_server gomap"

definition failed_status :: "string \<Rightarrow> string \<Rightarrow> server_status" where
  "failed_status name err = \<lparr>ssName = name, ssConnected = False, ssLastError = err, ssTools = []\<rparr>"

definition failed_server :: "mcp_server_config \<Rightarrow> string \<Rightarrow> 'w managed_server" where
  "failed_server cfg err =
     \<lparr>mgConfig = cfg, mgClient = None, mgStatus = failed_status (msName cfg) err, mgAdapted = []\<rparr>"

text \<open>What the manager is wired with: the quoting, the number parser and the client library.\<close>

record 'w mcp_env =
  meQuote :: "string \<Rightarrow> string"
  meNum :: "string \<Rightarrow> (int \<times> int) option"
  meLib :: "'w mcp_lib"

definition loadOne :: "'w mcp_env \<Rightarrow> time \<Rightarrow> mcp_server_config \<Rightarrow> 'w \<Rightarrow> 'w \<times> 'w managed_server" where
  "loadOne e ctx cfg w =
     (case newClient (meQuote e) (meLib e) cfg w of
        (w1, Inl err) \<Rightarrow> (w1, failed_server cfg (Error err))
      | (w1, Inr client) \<Rightarrow>
          (case initializeClient (meQuote e) ctx client (msName cfg) w1 of
             (w2, Some err) \<Rightarrow> (mcClose client w2, failed_server cfg (Error err))
           | (w2, None) \<Rightarrow>
               (case mcListTools client ctx w2 of
                  (w3, Inl err) \<Rightarrow> (mcClose client w3, failed_server cfg (Error err))
                | (w3, Inr defs) \<Rightarrow>
                    (let status = toServerStatus (msName cfg) True [] defs
                     in (w3, \<lparr>mgConfig = cfg, mgClient = Some client, mgStatus = status,
                              mgAdapted = adaptTools (meNum e) (msName cfg) client defs status\<rparr>)))))"

definition setServer :: "'w managed_server \<Rightarrow> 'w manager \<Rightarrow> 'w manager" where
  "setServer s m = AList.update (msName (mgConfig s)) s m"

fun load_configs :: "'w mcp_env \<Rightarrow> mcp_server_config list \<Rightarrow> 'w manager \<Rightarrow> 'w \<Rightarrow> 'w \<times> 'w manager" where
  "load_configs e [] m w = (w, m)"
| "load_configs e (c # cs) m w =
     (if \<not> msEnabled c then load_configs e cs (setServer (failed_server c ''disabled'') m) w
      else case loadOne e (timeoutOrDefault (msInitializeTimeout c)) c w of
          (w', s) \<Rightarrow> load_configs e cs (setServer s m) w')"

text \<open>The error that is returned is always nil. The servers of before are forgotten, not closed.\<close>

definition LoadAll :: "'w mcp_env \<Rightarrow> mcp_server_config list \<Rightarrow> 'w manager \<Rightarrow> 'w \<Rightarrow> ('w \<times> 'w manager) \<times> go_error option" where
  "LoadAll e configs m w = (load_configs e configs [] w, None)"

text \<open>
  \<open>Tools\<close>, \<open>Status\<close> and \<open>Close\<close> go through the map in an order the runtime chooses: \<open>order\<close> lists
  its keys.
\<close>

definition servers_in :: "string list \<Rightarrow> 'w manager \<Rightarrow> 'w managed_server list" where
  "servers_in order m = List.map_filter (map_of m) order"

definition mgr_Tools :: "string list \<Rightarrow> 'w manager \<Rightarrow> 'w tool list" where
  "mgr_Tools order m =
     concat (map (\<lambda>s. if ssConnected (mgStatus s) then mgAdapted s else []) (servers_in order m))"

definition mgr_Status :: "string list \<Rightarrow> 'w manager \<Rightarrow> server_status list" where
  "mgr_Status order m = map mgStatus (servers_in order m)"

definition mgr_Close :: "string list \<Rightarrow> 'w manager \<Rightarrow> 'w \<Rightarrow> 'w" where
  "mgr_Close order m w =
     fold (\<lambda>s w. case mgClient s of Some c \<Rightarrow> mcClose c w | None \<Rightarrow> w) (servers_in order m) w"

section \<open>Every connected server has its client, and only those\<close>

definition server_ok :: "'w managed_server \<Rightarrow> bool" where
  "server_ok s \<longleftrightarrow> (ssConnected (mgStatus s) \<longleftrightarrow> mgClient s \<noteq> None) \<and>
     ssName (mgStatus s) = msName (mgConfig s) \<and>
     map tName (mgAdapted s) = ssTools (mgStatus s) \<and>
     (\<forall>t \<in> set (mgAdapted s). tSource t = SourceMCP \<and> HasPrefix (tName t) (MCPNamePrefix
         @ msName (mgConfig s) @ ''__''))"

lemma failed_server_sel [simp]:
  "mgClient (failed_server c err) = None" "mgConfig (failed_server c err) = c"
  "mgStatus (failed_server c err) = failed_status (msName c) err" "mgAdapted (failed_server c err) = []"
  "\<not> ssConnected (failed_status n err)" "ssName (failed_status n err) = n" "ssTools (failed_status n err) = []"
  by (simp_all add: failed_server_def failed_status_def)

lemma failed_server_ok [simp]: "server_ok (failed_server c err)"
  by (simp add: server_ok_def)

lemma adapted_tool_name [simp]:
  "tName (adapted_tool num n c st d) = prefixedToolName n (mtName d)" "tSource (adapted_tool num n c st d) = SourceMCP"
  by (simp_all add: adapted_tool_def)

lemma prefixed_HasPrefix: "HasPrefix (prefixedToolName n t) (MCPNamePrefix @ n @ ''__'')"
  unfolding HasPrefix_iff prefixedToolName_def by (rule exI [of _ t]) simp

lemma loadOne_ok: "server_ok (snd (loadOne e ctx c w)) \<and> mgConfig (snd (loadOne e ctx c w)) = c"
  by (auto simp: loadOne_def Let_def server_ok_def toServerStatus_def adaptTools_def prefixed_HasPrefix
      split: prod.splits sum.splits option.splits)

text \<open>The map of servers: each under its own name.\<close>

definition manager_ok :: "'w manager \<Rightarrow> bool" where
  "manager_ok m \<longleftrightarrow> keys_ok m \<and> (\<forall>(n, s) \<in> set m. n = msName (mgConfig s) \<and> server_ok s)"

lemma manager_ok_setServer: "manager_ok m \<Longrightarrow> server_ok s \<Longrightarrow> manager_ok (setServer s m)"
  by (auto simp: manager_ok_def setServer_def dest!: set_update_cases)

lemma load_configs_ok: "manager_ok m \<Longrightarrow> manager_ok (snd (load_configs e cs m w))"
proof (induction cs arbitrary: m w)
  case (Cons c cs)
  have "server_ok s" if "loadOne e (timeoutOrDefault (msInitializeTimeout c)) c w = (w', s)" for w' s
    using loadOne_ok [of e "timeoutOrDefault (msInitializeTimeout c)" c w] that by simp
  then show ?case using Cons by (auto simp: manager_ok_setServer split: prod.splits)
qed simp

section \<open>Clients that are opened and closed\<close>

text \<open>
  \<open>live w\<close> counts the open clients of a world: a factory opens one when it succeeds, \<open>Close\<close> closes
  one, the calls of a client leave the number alone.
\<close>

definition client_counted :: "('w \<Rightarrow> int) \<Rightarrow> 'w mcp_client \<Rightarrow> bool" where
  "client_counted live c \<longleftrightarrow> (\<forall>ctx n w. live (fst (mcInitialize c ctx n w)) = live w) \<and>
     (\<forall>ctx w. live (fst (mcListTools c ctx w)) = live w) \<and> (\<forall>w. live (mcClose c w) = live w - 1)"

definition made_counted :: "('w \<Rightarrow> int) \<Rightarrow> 'w \<Rightarrow> 'w \<times> (go_error + 'w mcp_client) \<Rightarrow> bool" where
  "made_counted live w r \<longleftrightarrow>
     (case r of (w', Inl err) \<Rightarrow> live w' = live w | (w', Inr c) \<Rightarrow> live w' = live w + 1 \<and> client_counted live c)"

definition lib_counted :: "('w \<Rightarrow> int) \<Rightarrow> 'w mcp_lib \<Rightarrow> bool" where
  "lib_counted live lib \<longleftrightarrow> (\<forall>a b c w. made_counted live w (mlStdio lib a b c w)) \<and>
     (\<forall>a b c w. made_counted live w (mlHTTP lib a b c w)) \<and> (\<forall>a b c w. made_counted live w (mlSSE lib a b c w))"

definition has_client :: "'w managed_server \<Rightarrow> bool" where
  "has_client s \<longleftrightarrow> mgClient s \<noteq> None"

definition clients_counted :: "('w \<Rightarrow> int) \<Rightarrow> 'w managed_server \<Rightarrow> bool" where
  "clients_counted live s \<longleftrightarrow> (\<forall>c. mgClient s = Some c \<longrightarrow> client_counted live c)"

lemma clients_counted_failed [simp]: "clients_counted live (failed_server c err)" "\<not> has_client (failed_server c err)"
  by (simp_all add: clients_counted_def has_client_def)

lemma newClient_counted:
  "lib_counted live lib \<Longrightarrow> made_counted live w (newClient quote lib cfg w)"
  by (simp add: lib_counted_def newClient_def newStdioClient_def newHTTPClient_def newSSEClient_def made_counted_def)

lemma initializeClient_counted:
  assumes "client_counted live c" "initializeClient quote ctx c name w = (w', r)"
  shows "live w' = live w"
proof -
  have "fst (initializeClient quote ctx c name w) = fst (mcInitialize c ctx (''ssh-bot-mcp-client-'' @ name) w)"
    by (simp add: initializeClient_def split: prod.split option.split)
  with assms show ?thesis by (simp add: client_counted_def)
qed

lemma loadOne_counted:
  assumes "lib_counted live (meLib e)" "loadOne e ctx cfg w = (w', s)"
  shows "live w' = live w + (if has_client s then 1 else 0) \<and> clients_counted live s"
proof -
  obtain w1 r where n: "newClient (meQuote e) (meLib e) cfg w = (w1, r)" by (cases "newClient (meQuote e) (meLib e) cfg w")
  have made: "made_counted live w (w1, r)" using newClient_counted [OF assms(1), of w "meQuote e" cfg] n by simp
  show ?thesis
  proof (cases r)
    case (Inl err)
    then show ?thesis using assms(2) made n by (auto simp: loadOne_def made_counted_def)
  next
    case (Inr c)
    with made have c: "client_counted live c" and w1: "live w1 = live w + 1" by (auto simp: made_counted_def)
    obtain w2 i where i: "initializeClient (meQuote e) ctx c (msName cfg) w1 = (w2, i)" by fastforce
    have w2: "live w2 = live w + 1" using initializeClient_counted [OF c i] w1 by simp
    obtain w3 l where l: "mcListTools c ctx w2 = (w3, l)" by fastforce
    have w3: "live w3 = live w + 1" using c w2 l unfolding client_counted_def by (metis fst_conv)
    have close: "live (mcClose c v) = live v - 1" for v using c by (simp add: client_counted_def)
    show ?thesis
      using assms(2) n Inr i l w2 w3 close c
      by (cases i; cases l) (auto simp: loadOne_def Let_def has_client_def clients_counted_def)
  qed
qed

abbreviation held :: "'w manager \<Rightarrow> int" where
  "held m \<equiv> int (length (filter has_client (map snd m)))"

lemma update_new: "k \<notin> fst ` set m \<Longrightarrow> AList.update k v m = m @ [(k, v)]"
  by (induction m) auto

lemma load_configs_counted:
  assumes "lib_counted live (meLib e)" "load_configs e cs m w = (w', m')"
    "distinct (map msName cs)" "fst ` set m \<inter> msName ` set cs = {}" "list_all (clients_counted live) (map snd m)"
  shows "live w' - held m' = live w - held m \<and> list_all (clients_counted live) (map snd m')"
  using assms(2-)
proof (induction cs arbitrary: m w)
  case (Cons c cs)
  have new: "setServer s m = m @ [(msName c, s)]" if "mgConfig s = c" for s
    using Cons.prems(3) that by (auto simp: setServer_def intro: update_new)
  show ?case
  proof (cases "msEnabled c")
    case False
    with Cons.prems have "live w' - held m' = live w - held (setServer (failed_server c ''disabled'') m) \<and>
        list_all (clients_counted live) (map snd m')"
      by (intro Cons.IH) (auto simp: new)
    then show ?thesis by (simp add: new)
  next
    case True
    obtain w1 s where l: "loadOne e (timeoutOrDefault (msInitializeTimeout c)) c w = (w1, s)" by fastforce
    then have s: "mgConfig s = c" using loadOne_ok [of e "timeoutOrDefault (msInitializeTimeout c)" c w] by simp
    have cnt: "live w1 = live w + (if has_client s then 1 else 0)" "clients_counted live s"
      using loadOne_counted [OF assms(1) l] by auto
    with Cons.prems True l have "live w' - held m' = live w1 - held (setServer s m) \<and>
        list_all (clients_counted live) (map snd m')"
      by (intro Cons.IH) (auto simp: new [OF s])
    then show ?thesis by (simp add: new [OF s] cnt(1))
  qed
qed simp

lemma load_configs_keys:
  "distinct (map msName cs) \<Longrightarrow> fst ` set m \<inter> msName ` set cs = {} \<Longrightarrow>
   map fst (snd (load_configs e cs m w)) = map fst m @ map msName cs"
proof (induction cs arbitrary: m w)
  case (Cons c cs)
  have new: "setServer s m = m @ [(msName c, s)]" if "mgConfig s = c" for s
    using Cons.prems(2) that by (auto simp: setServer_def intro: update_new)
  have "mgConfig s = c" if "loadOne e (timeoutOrDefault (msInitializeTimeout c)) c w = (w', s)" for w' s
    using loadOne_ok [of e "timeoutOrDefault (msInitializeTimeout c)" c w] that by simp
  with Cons show ?case by (auto simp: new split: prod.splits)
qed simp

lemma mset_map_filter:
  "mset (List.map_filter f xs) = image_mset (\<lambda>x. the (f x)) (filter_mset (\<lambda>x. f x \<noteq> None) (mset xs))"
  by (induction xs) (auto simp: List.map_filter_def)

lemma map_filter_keys:
  "\<forall>p \<in> set xs. map_of m (fst p) = Some (snd p) \<Longrightarrow> List.map_filter (map_of m) (map fst xs) = map snd xs"
  by (induction xs) (auto simp: List.map_filter_def)

lemma servers_in_mset:
  assumes "keys_ok m" "mset order = mset (map fst m)"
  shows "mset (servers_in order m) = mset (map snd m)"
proof -
  have "List.map_filter (map_of m) (map fst m) = map snd m"
    using assms(1) by (intro map_filter_keys) (auto intro: map_of_is_SomeI)
  then show ?thesis
    using assms(2) by (metis mset_map_filter servers_in_def)
qed

lemma close_counted:
  "list_all (clients_counted live) ss \<Longrightarrow>
   live (fold (\<lambda>s w. case mgClient s of Some c \<Rightarrow> mcClose c w | None \<Rightarrow> w) ss w) =
   live w - int (length (filter has_client ss))"
  by (induction ss arbitrary: w) (auto simp: has_client_def clients_counted_def client_counted_def split: option.splits)


text \<open>A library whose clients count themselves in the world and where the server \<open>b\<close> does not initialize.\<close>

definition demo_client :: "int mcp_client" where
  "demo_client = \<lparr>mcInitialize = (\<lambda>ctx n w. (w, if n = ''ssh-bot-mcp-client-b'' then Some DeadlineExceeded else None)),
     mcListTools = (\<lambda>ctx w. (w, Inr [\<lparr>mtName = ''t'', mtDescription = [], mtSchema = ''{}'', mtRaw = []\<rparr>])),
     mcCallTool = (\<lambda>n a w. (w, Inr \<lparr>crContent = [], crIsError = False\<rparr>)), mcClose = (\<lambda>w. w - 1)\<rparr>"

definition demo_mcp :: "int mcp_env" where
  "demo_mcp = \<lparr>meQuote = (\<lambda>s. s), meNum = (\<lambda>_. None),
     meLib = \<lparr>mlStdio = (\<lambda>_ _ _ w. (w + 1, Inr demo_client)), mlHTTP = (\<lambda>_ _ _ w. (w + 1, Inr demo_client)),
       mlSSE = (\<lambda>_ _ _ w. (w, Inl DeadlineExceeded))\<rparr>\<rparr>"

definition demo_server :: "string \<Rightarrow> bool \<Rightarrow> string \<Rightarrow> mcp_server_config" where
  "demo_server n en t = \<lparr>msName = n, msEnabled = en, msTransport = t, msCommand = [], msArgs = [], msEnv = [],
     msURL = [], msHeaders = [], msInitializeTimeout = 0\<rparr>"

definition demo_configs :: "mcp_server_config list" where
  "demo_configs = [demo_server ''a'' True ''http'', demo_server ''b'' True ''stdio'', demo_server ''c'' False ''sse'',
     demo_server ''d'' True ''tcp'']"

definition demo_loaded :: "int \<times> int manager" where
  "demo_loaded = fst (LoadAll demo_mcp demo_configs [] 0)"

lemma demo_lib_counted: "lib_counted (\<lambda>w. w) (meLib demo_mcp)"
  by (simp add: lib_counted_def made_counted_def client_counted_def demo_mcp_def demo_client_def)

lemma demo_distinct: "distinct (map msName demo_configs)"
  by (simp add: demo_configs_def demo_server_def)

lemma demo_loaded_keys: "map fst (snd demo_loaded) = [''a'', ''b'', ''c'', ''d'']"
  using load_configs_keys [OF demo_distinct, of "[]" demo_mcp 0]
  by (simp add: demo_loaded_def LoadAll_def) (simp add: demo_configs_def demo_server_def)

lemma demo_order: "mset [''d'', ''b'', ''a'', ''c''] = mset (map fst (snd demo_loaded))"
  unfolding demo_loaded_keys by simp


section \<open>One server's failure is its own\<close>

definition loads_as :: "'w mcp_env \<Rightarrow> mcp_server_config \<Rightarrow> 'w managed_server option \<Rightarrow> bool" where
  "loads_as e c r \<longleftrightarrow>
     (if msEnabled c then \<exists>w. r = Some (snd (loadOne e (timeoutOrDefault (msInitializeTimeout c)) c w))
      else r = Some (failed_server c ''disabled''))"

lemma load_configs_other:
  "n \<notin> msName ` set cs \<Longrightarrow> map_of (snd (load_configs e cs m w)) n = map_of m n"
proof (induction cs arbitrary: m w)
  case (Cons c cs)
  have "mgConfig s = c" if "loadOne e (timeoutOrDefault (msInitializeTimeout c)) c w = (w', s)" for w' s
    using loadOne_ok [of e "timeoutOrDefault (msInitializeTimeout c)" c w] that by simp
  with Cons show ?case by (auto simp: setServer_def update_conv' split: prod.splits)
qed simp

lemma load_configs_each:
  "distinct (map msName cs) \<Longrightarrow> c \<in> set cs \<Longrightarrow> loads_as e c (map_of (snd (load_configs e cs m w)) (msName c))"
proof (induction cs arbitrary: m w)
  case (Cons d cs)
  show ?case
  proof (cases "c = d")
    case False
    then show ?thesis using Cons by (auto split: prod.splits)
  next
    case True
    then have n: "msName c \<notin> msName ` set cs" using Cons.prems(1) by simp
    obtain w1 s where l: "loadOne e (timeoutOrDefault (msInitializeTimeout c)) c w = (w1, s)" by fastforce
    then have s: "mgConfig s = c" "s = snd (loadOne e (timeoutOrDefault (msInitializeTimeout c)) c w)"
      using loadOne_ok [of e "timeoutOrDefault (msInitializeTimeout c)" c w] by simp_all
    show ?thesis
    proof (cases "msEnabled c")
      case en: True
      have "map_of (snd (load_configs e (d # cs) m w)) (msName c) = Some s"
        using True en l s(1) load_configs_other [OF n, of e] by (simp add: setServer_def update_conv')
      then show ?thesis using en s(2) by (auto simp: loads_as_def)
    next
      case False
      then show ?thesis
        using True load_configs_other [OF n, of e] by (simp add: loads_as_def setServer_def update_conv')
    qed
  qed
qed simp

text \<open>C28 A server that fails keeps no other from loading, and the load reports no error: with distinct names each
  configured server ends with the entry that its own load gave, or as disabled.\<close>
theorem each_server_loaded:
  assumes "distinct (map msName configs)" "c \<in> set configs" "LoadAll e configs m0 w = ((w1, m), err)"
  shows "err = None \<and> loads_as e c (map_of m (msName c))"
  using load_configs_each [OF assms(1,2), of e "[]" w] assms(3) by (auto simp: LoadAll_def)

theorem each_server_loaded_witness:
  "loads_as demo_mcp (demo_server ''d'' True ''tcp'') (map_of (snd demo_loaded) ''d'')"
proof -
  have "LoadAll demo_mcp demo_configs [] 0 = ((fst demo_loaded, snd demo_loaded), None)"
    by (simp add: demo_loaded_def) (simp add: LoadAll_def)
  from each_server_loaded [OF demo_distinct _ this, of "demo_server ''d'' True ''tcp''"]
  show ?thesis by (simp add: demo_configs_def) (simp add: demo_server_def)
qed

section \<open>What a call of an adapted tool gives\<close>

text \<open>The result reaches the model exactly when the arguments are an object, null or empty and the server answers
  without an error; the text of a server's error is shown to the model too.\<close>
lemma adapted_Call_ok:
  "snd (adapted_Call num d c args w) = ToolOk t \<longleftrightarrow>
   (\<exists>m r. decode_map num args = Some m \<and> snd (mcCallTool c (mtName d) m w) = Inr r \<and> \<not> crIsError r \<and>
     t = callToolResultText r)"
  by (auto simp: adapted_Call_def Let_def split: option.splits prod.splits sum.splits)

end
