(* ===== verification/Providers.thy ===== *)
theory Providers
  imports Agent
begin

text \<open>
  internal/llm/providers: the two factories (claude.go, openai.go) that turn a profile of the configuration
  into a provider, and \<open>WrapEino\<close> of internal/llm/provider.go. The clients of the models are a library,
  \<open>model_lib\<close>: a constructor for each, the decoder of tool schemas, and the order in which the
  runtime goes through the map of open tool calls.
\<close>

section \<open>The library\<close>

type_synonym ('w, 'js) chat_model =
  "eino_message list \<Rightarrow> 'js model_options \<Rightarrow> 'w \<Rightarrow> 'w \<times> (go_error + (chunk option list \<times> recv_end))"

record thinking_config =
  thEnable :: bool
  thBudgetTokens :: int

record claude_config =
  kcAPIKey :: string
  kcModel :: string
  kcMaxTokens :: int
  kcTemperature :: "32 word option"
  kcBaseURL :: "string option"
  kcThinking :: "thinking_config option"

record openai_config =
  acAPIKey :: string
  acModel :: string
  acTemperature :: "32 word option"
  acMaxTokens :: "int option"
  acBaseURL :: string

record ('w, 'js) model_lib =
  elClaude :: "claude_config \<Rightarrow> go_error + ('w, 'js) chat_model"
  elOpenAI :: "openai_config \<Rightarrow> go_error + ('w, 'js) chat_model"
  elSchema :: "string \<Rightarrow> go_error + 'js"
  elEnds :: "(int \<times> partial_tc) list \<Rightarrow> (int \<times> partial_tc) list"

section \<open>The factories\<close>

text \<open>The adapter also stores whether thinking is enabled; its stream does not read it.\<close>

definition WrapEino ::
  "(string \<Rightarrow> string) \<Rightarrow> ('w, 'js) model_lib \<Rightarrow> string \<Rightarrow> ('w, 'js) chat_model \<Rightarrow> bool \<Rightarrow> 'w provider" where
  "WrapEino quote lib name cm enableThinking =
     \<lparr>provName = name, provStream = adapter_Stream quote (elSchema lib) cm (elEnds lib)\<rparr>"

definition NewClaude ::
  "(string \<Rightarrow> string) \<Rightarrow> (string \<Rightarrow> string) \<Rightarrow> ('w, 'js) model_lib \<Rightarrow> model_profile \<Rightarrow> go_error + 'w provider" where
  "NewClaude quote getenv lib p =
     (let key = getenv (mpAPIKeyEnv p)
      in if key = [] then Inl (Errorf (''claude api key env '' @ quote (mpAPIKeyEnv p) @ '' not set''))
         else let cfg = \<lparr>kcAPIKey = key, kcModel = mpModel p, kcMaxTokens = mpMaxTokens p,
                    kcTemperature = mpTemperature p,
                    kcBaseURL = (if mpBaseURL p \<noteq> [] then Some (mpBaseURL p) else None),
                    kcThinking = (if mpEnableThinking p then Some \<lparr>thEnable = True, thBudgetTokens = 4096\<rparr> else None)\<rparr>
              in case elClaude lib cfg of
                   Inl err \<Rightarrow> Inl (Wrapf ''create claude model'' err)
                 | Inr cm \<Rightarrow> Inr (WrapEino quote lib (mpAlias p) cm (mpEnableThinking p)))"

definition NewOpenAI ::
  "(string \<Rightarrow> string) \<Rightarrow> (string \<Rightarrow> string) \<Rightarrow> ('w, 'js) model_lib \<Rightarrow> model_profile \<Rightarrow> go_error + 'w provider" where
  "NewOpenAI quote getenv lib p =
     (let key = getenv (mpAPIKeyEnv p)
      in if key = [] then Inl (Errorf (''openai api key env '' @ quote (mpAPIKeyEnv p) @ '' not set''))
         else let cfg = \<lparr>acAPIKey = key, acModel = mpModel p, acTemperature = mpTemperature p,
                    acMaxTokens = (if mpMaxTokens p > 0 then Some (mpMaxTokens p) else None),
                    acBaseURL = mpBaseURL p\<rparr>
              in case elOpenAI lib cfg of
                   Inl err \<Rightarrow> Inl (Wrapf ''create openai model'' err)
                 | Inr cm \<Rightarrow> Inr (WrapEino quote lib (mpAlias p) cm (mpEnableThinking p)))"

section \<open>What the factories promise\<close>

lemma translate_ends_once: "ends_once (translateStream ends cks fin)"
  using translate_loop_terminator [of ends translate_init cks fin]
  by (auto simp: translateStream_def ends_once_def filter_empty_conv)

lemma adapter_ends_once:
  "adapter_Stream quote parse cm ends req w = (w', Inr evs) \<Longrightarrow> ends_once evs"
  by (auto simp: adapter_Stream_def Let_def translate_ends_once split: sum.splits prod.splits if_splits)

interpretation eino: terminated_provider "WrapEino quote lib name cm thinking" for quote lib name cm thinking
  by unfold_locales (auto simp: WrapEino_def intro: adapter_ends_once)

lemma NewClaude_Inr:
  assumes "NewClaude quote getenv lib p = Inr prov"
  shows "getenv (mpAPIKeyEnv p) \<noteq> [] \<and> (\<exists>cm. prov = WrapEino quote lib (mpAlias p) cm (mpEnableThinking p))"
  using assms by (auto simp: NewClaude_def Let_def split: if_splits sum.splits)

lemma NewOpenAI_Inr:
  assumes "NewOpenAI quote getenv lib p = Inr prov"
  shows "getenv (mpAPIKeyEnv p) \<noteq> [] \<and> (\<exists>cm. prov = WrapEino quote lib (mpAlias p) cm (mpEnableThinking p))"
  using assms by (auto simp: NewOpenAI_def Let_def split: if_splits sum.splits)

text \<open>
  The registry lets a profile without a key variable through, but no factory accepts it: the variable with the
  empty name is never set, so such a profile gives no provider.
\<close>

lemma keyless_profile:
  assumes "getenv [] = []" "mpAPIKeyEnv p = []"
  shows "profile_enabled getenv p" "\<exists>e. NewClaude quote getenv lib p = Inl e" "\<exists>e. NewOpenAI quote getenv lib p = Inl e"
  using assms by (simp_all add: profile_enabled_def NewClaude_def NewOpenAI_def)

end
