(* ===== verification/Wiring.thy ===== *)
theory Wiring
  imports Lark Builtin Mcp Providers
begin

text \<open>
  cmd/bot/main.go: what the program builds when it starts, and the entry for each message that
  arrives. Everything outside the program (files, environment, Redis, the libraries of Feishu, of
  the models and of MCP, the clock, random bytes) is a field of \<open>deps\<close>. Log lines are left out.
\<close>

section \<open>What the program depends on\<close>

text \<open>
  The Feishu client acts on the world of the messages, and, for the notice after an authorization,
  on the world of the OAuth server; \<open>dpOrder\<close> is the order in which the runtime goes through the map
  of the MCP servers.
\<close>

record ('w, 'f, 'js) deps =
  dpQuote :: "string \<Rightarrow> string"
  dpFs :: "string \<Rightarrow> file_info"
  dpViper :: viper_lib
  dpRedis :: "cfg_redis \<Rightarrow> 'w redis"
  dpPing :: "cfg_redis \<Rightarrow> 'w \<Rightarrow> 'w \<times> go_error option"
  dpExpireAt :: "cfg_redis \<Rightarrow> string \<Rightarrow> time \<Rightarrow> 'w \<Rightarrow> 'w \<times> go_error option"
  dpB64Error :: "string \<Rightarrow> string"
  dpGCM :: "string \<Rightarrow> go_error + aead"
  dpMac :: mac_fn
  dpStateNonce :: "'w \<Rightarrow> go_error + string"
  dpSealNonce :: "'w \<Rightarrow> go_error + string"
  dpLockBytes :: "'w \<Rightarrow> go_error + string"
  dpLark :: "cfg_lark \<Rightarrow> 'f lark_client"
  dpLarkNotice :: "cfg_lark \<Rightarrow> 'w lark_client"
  dpDocs :: "cfg_lark \<Rightarrow> 'w doc_api"
  dpMd :: md_lib
  dpPost :: "'w http_post"
  dpWeb :: "'w web_lib"
  dpTz :: time_lib
  dpClock :: "'w \<Rightarrow> time"
  dpWords :: words
  dpMarshalError :: go_error
  dpTimeout :: "go_error \<Rightarrow> bool"
  dpURLPath :: "string \<Rightarrow> string option"
  dpModels :: "('w, 'js) model_lib"
  dpMcp :: "'w mcp_env"
  dpOrder :: "'w manager \<Rightarrow> string list"
  dpStopHTTP :: "'w \<Rightarrow> 'w \<times> go_error option"
  dpCloseRedis :: "cfg_redis \<Rightarrow> 'w \<Rightarrow> 'w \<times> go_error option"

section \<open>The parts\<close>

definition NotifyUser :: "'w lark_client \<Rightarrow> md_lib \<Rightarrow> string \<Rightarrow> string \<Rightarrow> 'w \<Rightarrow> 'w \<times> go_error option" where
  "NotifyUser sender lib openID message = lark_SendPlainCardByOpenID sender lib openID message"

text \<open>The OAuth server; without a valid key the program does not start.\<close>

definition oauth_setup :: "('w, 'f, 'js) deps \<Rightarrow> config \<Rightarrow> (string \<Rightarrow> string) \<Rightarrow> go_error + 'w oauth_server" where
  "oauth_setup d cfg getenv =
     (case NewEncryptor (dpB64Error d) (dpGCM d) (getenv (coEncryptionKeyEnv (cfOAuth cfg))) of
        Inl err \<Rightarrow> Inl (Wrapf ''oauth encryption'' err)
      | Inr enc \<Rightarrow>
          (case NewStateSigner (dpB64Error d) (getenv (coStateKeyEnv (cfOAuth cfg))) of
             Inl err \<Rightarrow> Inl (Wrapf ''oauth state signer'' err)
           | Inr key \<Rightarrow>
               Inr \<lparr>osCfg = \<lparr>ocPublicBaseURL = csPublicBaseURL (cfServer cfg), ocAppID = clAppID (cfLark cfg),
                      ocAppSecret = clAppSecret (cfLark cfg), ocScopes = coScopes (cfOAuth cfg)\<rparr>,
                    osMac = dpMac d, osKey = key, osNonce = dpStateNonce d,
                    osStore = \<lparr>csRdb = dpRedis d (cfRedis cfg), csExpireAt = dpExpireAt d (cfRedis cfg),
                      csEnc = enc, csNonce = dpSealNonce d\<rparr>,
                    osNotify = Some (NotifyUser (dpLarkNotice d (cfLark cfg)) (dpMd d)),
                    osPost = dpPost d, osOverride = []\<rparr>))"

definition llm_factory ::
  "('w, 'f, 'js) deps \<Rightarrow> (string \<Rightarrow> string) \<Rightarrow> model_profile \<Rightarrow> go_error + 'w provider" where
  "llm_factory d getenv p =
     (if mpType p = ''claude'' then NewClaude (dpQuote d) getenv (dpModels d) p
      else if mpType p = ''openai'' \<or> mpType p = ''openai_compatible'' then NewOpenAI (dpQuote d) getenv (dpModels d) p
      else Inl (Errorf (''unsupported provider type '' @ dpQuote d (mpType p))))"

definition llm_profile :: "string \<times> cfg_profile \<Rightarrow> model_profile" where
  "llm_profile ap =
     (case ap of (alias0, pc) \<Rightarrow>
       \<lparr>mpAlias = alias0, mpType = cpType pc, mpModel = cpModel pc, mpAPIKeyEnv = cpAPIKeyEnv pc,
        mpBaseURL = cpBaseURL pc, mpEnableThinking = cpEnableThinking pc, mpMaxTokens = cpMaxTokens pc,
        mpTemperature = cpTemperature pc\<rparr>)"

definition buildLLMRegistry :: "('w, 'f, 'js) deps \<Rightarrow> config \<Rightarrow> (string \<Rightarrow> string) \<Rightarrow> go_error + 'w llm_registry" where
  "buildLLMRegistry d cfg getenv =
     llm_NewRegistry (dpQuote d) getenv (cmDefaultProvider (cfLLM cfg))
       (map llm_profile (cmProviders (cfLLM cfg))) (llm_factory d getenv)"

definition builtin_tools :: "('w, 'f, 'js) deps \<Rightarrow> config \<Rightarrow> (string \<Rightarrow> string) \<Rightarrow> 'w oauth_server \<Rightarrow> 'w tool list" where
  "builtin_tools d cfg getenv srv =
     (let searchCfg = LookupToolMap (cfTools cfg) ''web_search'';
          fetchCfg = LookupToolMap (cfTools cfg) ''web_fetch'';
          refresher = \<lparr>rfAppID = clAppID (cfLark cfg), rfAppSecret = clAppSecret (cfLark cfg),
            rfStore = Some (osStore srv), rfStartURL = Some (StartURL srv), rfPost = dpPost d\<rparr>;
          docCfg = \<lparr>fcStore = Some (osStore srv), fcRefresher = Some refresher, fcStartURL = Some (StartURL srv),
            fcClient = Some (dpDocs d (cfLark cfg)), fcTimeout = dpTimeout d, fcPath = dpURLPath d,
            fcClock = dpClock d, fcWords = dpWords d\<rparr>
      in [NewDatetime (dpWords d) (dpTz d) (dpClock d),
          NewWebSearch (wdJson (dpWords d)) getenv (dpPost d)
            \<lparr>scProvider = StringValue searchCfg ''provider'' ''tavily'',
             scAPIKeyEnv = StringValue searchCfg ''api_key_env'' ''TAVILY_API_KEY'',
             scMaxResults = IntValue searchCfg ''max_results'' 5, scEndpoint = []\<rparr>,
          NewWebFetch (dpWeb d) (IntValue fetchCfg ''max_chars'' 20000),
          NewFeishuDocRead docCfg, NewFeishuDocSearch docCfg])"

fun register_builtins ::
  "(string \<Rightarrow> string) \<Rightarrow> 'w tool list \<Rightarrow> 'w tool_registry \<Rightarrow> go_error + 'w tool_registry" where
  "register_builtins quote [] r = Inr r"
| "register_builtins quote (t # ts) r =
     (case tool_Register quote t r of
        Inl err \<Rightarrow> Inl (Wrapf (''register '' @ tName t) err)
      | Inr r' \<Rightarrow> register_builtins quote ts r')"

definition mcp_config :: "cfg_mcp \<Rightarrow> mcp_server_config" where
  "mcp_config c =
     \<lparr>msName = ccName c, msEnabled = ccEnabled c, msTransport = ccTransport c, msCommand = ccCommand c,
      msArgs = ccArgs c, msEnv = ccEnv c, msURL = ccURL c, msHeaders = ccHeaders c,
      msInitializeTimeout = ccInitializeTimeout c\<rparr>"

text \<open>A tool that cannot be registered is logged and left out.\<close>

fun register_mcp :: "(string \<Rightarrow> string) \<Rightarrow> 'w tool list \<Rightarrow> 'w tool_registry \<Rightarrow> 'w tool_registry" where
  "register_mcp quote [] r = r"
| "register_mcp quote (t # ts) r =
     register_mcp quote ts (case tool_Register quote t r of Inl err \<Rightarrow> r | Inr r' \<Rightarrow> r')"

text \<open>\<open>NewHandler\<close> on the store, the lock and the sender that \<open>run\<close> makes.\<close>

definition new_handler ::
  "('w, 'f, 'js) deps \<Rightarrow> config \<Rightarrow> 'w tool_registry \<Rightarrow> 'w llm_registry \<Rightarrow> ('w, 'f) handler" where
  "new_handler d cfg reg llms =
     (let rdb = dpRedis d (cfRedis cfg); st = NewRedisStore rdb (crSessionTTL (cfRedis cfg))
      in \<lparr>hdGet = RedisStore_Get (wdJson (dpWords d)) st,
          hdSave = (\<lambda>k s w. RedisStore_Save (dpMarshalError d) st (dpClock d w) k (Some s) w),
          hdDelete = RedisStore_Delete st,
          hdTryAcquire = (\<lambda>key ttl w. RedisLocker_TryAcquire rdb key ttl (dpLockBytes d w) w),
          hdRelease = RedisLocker_Release rdb,
          hdSender = lark_sender (dpLark d (cfLark cfg)) (dpMd d),
          hdRegistry = reg, hdLLMs = llms, hdDefaultMdl = cmDefaultProvider (cfLLM cfg)\<rparr>)"

section \<open>Start-up and messages\<close>

record ('w, 'f) app =
  apEnv :: "string gomap"
  apConfig :: config
  apLevel :: log_level
  apServer :: "'w oauth_server"
  apHandler :: "('w, 'f) handler"
  apManager :: "'w manager"

text \<open>From the loaded configuration on: keys, models, tools, MCP servers.\<close>

definition build_app ::
  "('w, 'f, 'js) deps \<Rightarrow> config \<Rightarrow> string gomap \<Rightarrow> 'w \<Rightarrow> 'w \<times> (go_error + ('w, 'f) app)" where
  "build_app d cfg env w =
     (case oauth_setup d cfg (Getenv env) of
        Inl err \<Rightarrow> (w, Inl err)
      | Inr srv \<Rightarrow>
          (case buildLLMRegistry d cfg (Getenv env) of
             Inl err \<Rightarrow> (w, Inl (Wrapf ''llm registry'' err))
           | Inr llms \<Rightarrow>
               (case register_builtins (dpQuote d) (builtin_tools d cfg (Getenv env) srv) [] of
                  Inl err \<Rightarrow> (w, Inl err)
                | Inr reg \<Rightarrow>
                    (case LoadAll (dpMcp d) (map mcp_config (cfMCPServers cfg)) [] w of
                       ((w', mgr), _) \<Rightarrow>
                         (w', Inr \<lparr>apEnv = env, apConfig = cfg, apLevel = ParseLevel (csLogLevel (cfServer cfg)),
                            apServer = srv,
                            apHandler = new_handler d cfg
                              (register_mcp (dpQuote d) (mgr_Tools (dpOrder d mgr) mgr) reg) llms,
                            apManager = mgr\<rparr>)))))"

definition startup ::
  "('w, 'f, 'js) deps \<Rightarrow> string \<Rightarrow> string gomap \<Rightarrow> 'w \<Rightarrow> 'w \<times> (go_error + ('w, 'f) app)" where
  "startup d cfgPath env w =
     (case LoadDotenvIfExists (dpQuote d) (dpFs d) (DotenvCandidatePaths cfgPath) env of
        (env1, Inl err) \<Rightarrow> (w, Inl (Wrapf ''dotenv load'' err))
      | (env1, Inr loaded) \<Rightarrow>
          (case Load (dpQuote d) (dpViper d) env1 cfgPath of
             Inl err \<Rightarrow> (w, Inl (Wrapf ''config load'' err))
           | Inr cfg \<Rightarrow>
               (case dpPing d (cfRedis cfg) w of
                  (w1, Some err) \<Rightarrow> (w1, Inl (Wrapf ''redis ping'' err))
                | (w1, None) \<Rightarrow> build_app d cfg env1 w1)))"

text \<open>A message: what cannot be parsed is dropped, the error of the handler is only logged. \<open>None\<close>: the turn never ends.\<close>

definition on_message ::
  "('w, 'f) app \<Rightarrow> handle_env \<Rightarrow> raw_event option option \<Rightarrow> 'w \<Rightarrow> 'f \<Rightarrow> ('w \<times> 'f) option" where
  "on_message a henv raw w f =
     (case Parse raw (clBotOpenID (cfLark (apConfig a))) of
        None \<Rightarrow> Some (w, f)
      | Some ev \<Rightarrow> map_option fst (Handle (apHandler a) henv (Some ev) w f))"

text \<open>The end of \<open>run\<close>: an error of one step is logged, and the next step runs all the same.\<close>

definition shutdown :: "('w, 'f, 'js) deps \<Rightarrow> ('w, 'f) app \<Rightarrow> 'w \<Rightarrow> 'w" where
  "shutdown d a w =
     (let w1 = fst (dpStopHTTP d w);
          w2 = mgr_Close (dpOrder d (apManager a)) (apManager a) w1
      in fst (dpCloseRedis d (cfRedis (apConfig a)) w2))"

text \<open>
  What ends the wait of \<open>run\<close>: a signal, or the end of one of its two servers. \<open>alive\<close> stands for what the
  program does meanwhile.
\<close>

datatype stop_reason =
    Signalled string
  | OAuthExited "go_error option"
  | LarkExited "go_error option"

definition run ::
  "('w, 'f, 'js) deps \<Rightarrow> (('w, 'f) app \<Rightarrow> 'w \<Rightarrow> 'w \<times> stop_reason) \<Rightarrow> string \<Rightarrow> string gomap \<Rightarrow> 'w \<Rightarrow> 'w \<times> go_error option" where
  "run d alive cfgPath env w =
     (case startup d cfgPath env w of
        (w1, Inl err) \<Rightarrow> (w1, Some err)
      | (w1, Inr a) \<Rightarrow>
          (case alive a w1 of
             (w2, reason) \<Rightarrow> (shutdown d a w2, None)))"

text \<open>The flag \<open>-config\<close> if it is given, and the exit status with what is written to stderr.\<close>

definition main ::
  "('w, 'f, 'js) deps \<Rightarrow> (('w, 'f) app \<Rightarrow> 'w \<Rightarrow> 'w \<times> stop_reason) \<Rightarrow> string option \<Rightarrow> string gomap \<Rightarrow> 'w \<Rightarrow>
   'w \<times> string \<times> int" where
  "main d alive cfgFlag env w =
     (let cfgPath = (case cfgFlag of None \<Rightarrow> ''configs/config.yaml'' | Some p \<Rightarrow> p)
      in case run d alive cfgPath env w of
           (w', Some err) \<Rightarrow> (w', ''bot startup failed: '' @ Error err @ NL, 1)
         | (w', None) \<Rightarrow> (w', [], 0))"

text \<open>The exit status tells whether the program started; that a server of a started program failed does not show in it.\<close>

lemma main_status:
  "snd (snd (main d alive cfgFlag env w)) = 0 \<longleftrightarrow>
   (\<exists>a. snd (startup d (case cfgFlag of None \<Rightarrow> ''configs/config.yaml'' | Some p \<Rightarrow> p) env w) = Inr a)"
  by (auto simp: main_def run_def Let_def split: prod.splits sum.splits)

section \<open>The registry after start-up\<close>

lemma builtin_tools_shape:
  "map tName (builtin_tools d cfg getenv srv) =
     [''datetime'', ''web_search'', ''web_fetch'', ''feishu_doc_read'', ''feishu_doc_search''] \<and>
   (\<forall>t \<in> set (builtin_tools d cfg getenv srv). tSource t = SourceBuiltin)"
  by (simp add: builtin_tools_def Let_def NewDatetime_def NewWebSearch_def NewWebFetch_def NewFeishuDocRead_def
      NewFeishuDocSearch_def)

lemma register_builtins_ok:
  "registry_ok r \<Longrightarrow> register_builtins quote ts r = Inr r' \<Longrightarrow>
   registry_ok r' \<and> (\<forall>n t. tool_Get r n = Some t \<longrightarrow> tool_Get r' n = Some t) \<and>
   (\<forall>t \<in> set ts. tool_Get r' (tName t) = Some t)"
proof (induction ts arbitrary: r)
  case (Cons t ts)
  then obtain r1 where r1: "tool_Register quote t r = Inr r1" "register_builtins quote ts r1 = Inr r'"
    by (auto split: sum.splits)
  have ok: "registry_ok r1" by (rule tool_Register_ok [OF Cons.prems(1) r1(1)])
  note IH = Cons.IH [OF ok r1(2)]
  have get: "tool_Get r1 n = (if n = tName t then Some t else tool_Get r n)" for n
    by (rule tool_Get_Register [OF r1(1)])
  moreover have "tool_Get r (tName t) = None" using r1(1) by (simp add: tool_Register_Inr tool_Get_def)
  ultimately show ?case using IH by (metis list.set_cases option.distinct(1) set_ConsD)
qed simp

lemma register_mcp_ok:
  "registry_ok r \<Longrightarrow> registry_ok (register_mcp quote ts r) \<and>
   (\<forall>n t. tool_Get r n = Some t \<longrightarrow> tool_Get (register_mcp quote ts r) n = Some t)"
proof (induction ts arbitrary: r)
  case (Cons t ts)
  show ?case
  proof (cases "tool_Register quote t r")
    case (Inr r1)
    have ok: "registry_ok r1" by (rule tool_Register_ok [OF Cons.prems Inr])
    have get: "tool_Get r1 n = (if n = tName t then Some t else tool_Get r n)" for n
      by (rule tool_Get_Register [OF Inr])
    have "tool_Get r (tName t) = None" using Inr by (simp add: tool_Register_Inr tool_Get_def)
    then have "tool_Get r1 n = Some x" if "tool_Get r n = Some x" for n x using that get by auto
    then show ?thesis using Cons.IH [OF ok] Inr by simp
  qed (use Cons in simp)
qed simp

lemma register_distinct:
  assumes "distinct (map tName ts)" "\<forall>t \<in> set ts. tName t \<noteq> [] \<and> tSource t = SourceBuiltin \<and> \<not> HasPrefix (tName t) MCPNamePrefix"
    "\<forall>t \<in> set ts. map_of r (tName t) = None"
  shows "\<exists>r'. register_builtins quote ts r = Inr r'"
  using assms
proof (induction ts arbitrary: r)
  case (Cons t ts)
  then have "tool_Register quote t r = Inr (AList.update (tName t) t r)" by (simp add: tool_Register_Inr)
  moreover have "\<forall>x \<in> set ts. map_of (AList.update (tName t) t r) (tName x) = None"
    using Cons.prems by (auto simp: update_conv') (metis imageI)
  ultimately show ?case using Cons.IH Cons.prems by simp
qed simp

text \<open>The five tools never collide, so their registration does not fail.\<close>

lemma builtins_register: "\<exists>r. register_builtins quote (builtin_tools d cfg getenv srv) [] = Inr r"
proof (rule register_distinct)
  show "distinct (map tName (builtin_tools d cfg getenv srv))" using builtin_tools_shape [of d cfg getenv srv] by simp
  have "set (map tName (builtin_tools d cfg getenv srv)) =
      {''datetime'', ''web_search'', ''web_fetch'', ''feishu_doc_read'', ''feishu_doc_search''}"
    using builtin_tools_shape [of d cfg getenv srv] by simp
  then have "tName t \<in> {''datetime'', ''web_search'', ''web_fetch'', ''feishu_doc_read'', ''feishu_doc_search''}"
    if "t \<in> set (builtin_tools d cfg getenv srv)" for t using that by auto
  then show "\<forall>t \<in> set (builtin_tools d cfg getenv srv).
      tName t \<noteq> [] \<and> tSource t = SourceBuiltin \<and> \<not> HasPrefix (tName t) MCPNamePrefix"
    using builtin_tools_shape [of d cfg getenv srv] by (fastforce simp: MCPNamePrefix_def)
qed simp

end
