(* ===== verification/History.thy ===== *)
theory History
  imports Capped Wiring
begin

text \<open>
  Many messages, one after the other, through a program that has started: what the sessions in Redis look like
  at any time, whatever failed before. A turn can be cut off between the save of an assistant message and the
  save of its results, and the next turn then goes on after it, so the stored sessions are windows of a list in
  which the calls of an assistant message have all their results or none.
\<close>

section \<open>Sound sessions\<close>

function loose :: "message list \<Rightarrow> bool" where
  "loose [] \<longleftrightarrow> True"
| "loose (m # ms) \<longleftrightarrow>
     (if msgRole m = RoleAssistant
      then list_all2 is_result_of (msgToolCalls m) (take (length (msgToolCalls m)) ms)
             \<and> loose (drop (length (msgToolCalls m)) ms) \<or> loose ms
      else msgRole m \<noteq> RoleTool \<and> loose ms)"
  by pat_completeness auto
termination by (relation "measure length") auto

lemma loose_append: "loose xs \<Longrightarrow> loose ys \<Longrightarrow> loose (xs @ ys)"
proof (induction xs rule: loose.induct)
  case (2 m ms)
  let ?c = "length (msgToolCalls m)"
  show ?case
  proof (cases "msgRole m = RoleAssistant")
    case True
    consider "list_all2 is_result_of (msgToolCalls m) (take ?c ms)" "loose (drop ?c ms)" | "loose ms"
      using 2(4) True by auto
    then show ?thesis
    proof cases
      case 1
      then have "?c \<le> length ms" by (auto dest: list_all2_lengthD)
      with 2(1) [OF True 1(2) 2(5)] 1(1) True show ?thesis by simp
    qed (use 2(2) [OF True _ 2(5)] True in simp)
  qed (use 2 in simp)
qed simp

lemma loose_starts: "loose (m # ms) \<Longrightarrow> msgRole m \<noteq> RoleTool"
  by (auto simp: RoleTool_def RoleAssistant_def split: if_splits)

lemma loose_window: "loose ms \<Longrightarrow> windowed loose ms"
  unfolding windowed_def by (cases ms) (auto dest: loose_starts simp del: loose.simps(2))

lemma loose_drop: "loose ms \<Longrightarrow> windowed loose (drop n ms)"
proof (induction ms arbitrary: n rule: loose.induct)
  case (2 m ms)
  show ?case
  proof (cases n)
    case 0
    with 2(4) show ?thesis by (simp add: loose_window del: loose.simps)
  next
    case (Suc k)
    let ?c = "length (msgToolCalls m)"
    show ?thesis
    proof (cases "msgRole m = RoleAssistant \<and> \<not> loose ms")
      case True
      then have l: "list_all2 is_result_of (msgToolCalls m) (take ?c ms)" "loose (drop ?c ms)"
        using 2(4) by auto
      show ?thesis
      proof (cases "?c \<le> k")
        case True
        then have "drop k ms = drop (k - ?c) (drop ?c ms)" by simp
        with 2(1) [OF _ l(2)] \<open>msgRole m = RoleAssistant \<and> \<not> loose ms\<close> Suc show ?thesis by simp
      next
        case False
        then show ?thesis
          using batch_drop [OF l(1), of k] windowed_prefix loose_window [OF l(2)] Suc by simp
      qed
    qed (use 2(2,3,4) Suc in \<open>auto split: if_splits\<close>)
  qed
qed (simp add: windowed_def)

lemma loose_trim_content: "loose ms \<Longrightarrow> loose (map trim_content ms)"
proof (induction ms rule: loose.induct)
  case (2 m ms)
  then show ?case by (auto simp: take_map drop_map list_all2_conv_all_nth split: if_splits)
qed simp

interpretation partial: message_shape loose
proof
  show "loose (m # ms) \<Longrightarrow> msgRole m \<noteq> RoleTool" for m ms by (rule loose_starts)
qed (simp_all add: loose_append loose_drop loose_trim_content del: loose.simps(2))

definition sound_messages :: "message list \<Rightarrow> bool" where
  "sound_messages ms \<longleftrightarrow> windowed loose ms \<and> msgRole ` set ms \<subseteq> {RoleUser, RoleAssistant, RoleTool}"

lemma sound_Nil: "sound_messages []"
  by (simp add: sound_messages_def windowed_def)

lemma roles_trim: "msgRole ` set (TrimMessages ms) \<subseteq> msgRole ` set ms"
proof -
  have "set (TrimMessages ms) \<subseteq> trim_content ` set ms" by (auto simp: TrimMessages_drop dest: in_set_dropD)
  then show ?thesis by fastforce
qed

lemma sound_trim:
  assumes "sound_messages ms"
  shows "sound_messages (TrimMessages ms)"
  using assms subset_trans [OF roles_trim] partial.window_TrimMessages unfolding sound_messages_def by blast

lemma sound_append:
  assumes "sound_messages ms" "loose ys" "msgRole ` set ys \<subseteq> {RoleUser, RoleAssistant, RoleTool}"
  shows "sound_messages (ms @ ys)"
  using assms partial.window_append unfolding sound_messages_def set_append image_Un by blast

lemma sound_snoc:
  assumes "sound_messages ms" "msgRole m \<in> {RoleUser, RoleAssistant}"
  shows "sound_messages (TrimMessages (ms @ [m]))"
proof (rule sound_trim [OF sound_append [OF assms(1)]])
  show "loose [m]" using assms(2) by (auto simp: RoleUser_def RoleTool_def RoleAssistant_def)
qed (use assms(2) in auto)

lemma sound_batch:
  assumes "sound_messages ms" "msgRole m = RoleAssistant" "list_all2 is_result_of (msgToolCalls m) rs"
  shows "sound_messages (TrimMessages (TrimMessages (ms @ [m]) @ rs))"
proof -
  have l: "loose (trim_content m # rs)" using assms(2,3) list_all2_lengthD [OF assms(3)] by simp
  have rs: "\<forall>r \<in> set rs. msgRole r = RoleTool"
    using assms(3) by (auto simp: list_all2_conv_all_nth is_result_of_def in_set_conv_nth)
  have roles: "msgRole ` set (TrimMessages (TrimMessages (ms @ [m]) @ rs)) \<subseteq> msgRole ` set ms \<union> {RoleAssistant, RoleTool}"
  proof (rule subset_trans [OF roles_trim])
    have "msgRole ` set rs \<subseteq> {RoleTool}" using rs by blast
    moreover have "msgRole ` set (TrimMessages (ms @ [m])) \<subseteq> insert RoleAssistant (msgRole ` set ms)"
      by (rule subset_trans [OF roles_trim]) (simp add: assms(2))
    ultimately show "msgRole ` set (TrimMessages (ms @ [m]) @ rs) \<subseteq> msgRole ` set ms \<union> {RoleAssistant, RoleTool}"
      unfolding set_append image_Un by blast
  qed
  have "windowed loose (TrimMessages (TrimMessages (ms @ [m]) @ rs))"
    using assms(1) l by (intro partial.window_batch) (simp_all add: sound_messages_def)
  moreover have "msgRole ` set ms \<union> {RoleAssistant, RoleTool} \<subseteq> {RoleUser, RoleAssistant, RoleTool}"
    using assms(1) by (simp add: sound_messages_def)
  ultimately show ?thesis using subset_trans [OF roles] by (simp only: sound_messages_def)
qed

text \<open>What a stored session is read back as.\<close>

lemma sanitize_role: "r \<in> {RoleUser, RoleAssistant, RoleTool} \<Longrightarrow> sanitize r = r"
proof -
  have "list_all (\<lambda>c. byte c < 128) RoleUser" "list_all (\<lambda>c. byte c < 128) RoleAssistant" "list_all (\<lambda>c. byte c < 128) RoleTool"
    unfolding RoleUser_def RoleAssistant_def RoleTool_def by simp_all
  then show "r \<in> {RoleUser, RoleAssistant, RoleTool} \<Longrightarrow> sanitize r = r"
    by (blast intro: sanitize_valid utf8_valid_ascii)
qed

lemma norm_role:
  "msgRole m \<in> {RoleUser, RoleAssistant, RoleTool} \<Longrightarrow> msgRole (norm_message m) = msgRole m"
  by (simp add: norm_message_def sanitize_role)

lemma norm_result:
  "is_result_of c m \<Longrightarrow> is_result_of (norm_tool_call c) (norm_message m)"
  using sanitize_role [of RoleTool] by (simp add: is_result_of_def norm_message_def norm_tool_call_def)

lemma norm_calls: "msgToolCalls (norm_message m) = map norm_tool_call (msgToolCalls m)"
  by (simp add: norm_message_def)

lemma loose_norm:
  "loose ms \<Longrightarrow> \<forall>m \<in> set ms. msgRole m \<in> {RoleUser, RoleAssistant, RoleTool} \<Longrightarrow> loose (map norm_message ms)"
proof (induction ms rule: loose.induct)
  case (2 m ms)
  let ?c = "length (msgToolCalls m)"
  have role: "msgRole (norm_message m) = msgRole m" by (rule norm_role) (use 2(5) in simp)
  show ?case
  proof (cases "msgRole m = RoleAssistant")
    case True
    consider "list_all2 is_result_of (msgToolCalls m) (take ?c ms)" "loose (drop ?c ms)" | "loose ms"
      using 2(4) True by auto
    then show ?thesis
    proof cases
      case 1
      have "list_all2 is_result_of (msgToolCalls (norm_message m)) (take ?c (map norm_message ms))"
        unfolding norm_calls take_map list_all2_map1 list_all2_map2
        using 1(1) by (rule list_all2_mono) (rule norm_result)
      moreover have "loose (map norm_message (drop ?c ms))"
        using 2(1) [OF True 1(2)] 2(5) by (auto dest: in_set_dropD)
      ultimately show ?thesis using True role by (simp add: norm_calls drop_map)
    qed (use 2(2) [OF True] 2(5) True role in simp)
  qed (use 2 role in simp)
qed simp

lemma sound_norm:
  assumes "sound_messages ms"
  shows "sound_messages (map norm_message ms)"
proof -
  have roles: "\<forall>m \<in> set ms. msgRole m \<in> {RoleUser, RoleAssistant, RoleTool}"
    using assms unfolding sound_messages_def image_subset_iff by blast
  from assms obtain os rs where o: "ms = os @ rs" "\<forall>m \<in> set os. msgRole m = RoleTool" "loose rs"
    unfolding sound_messages_def by (blast elim: windowedE)
  have "windowed loose (map norm_message os @ map norm_message rs)"
  proof (rule partial.windowI)
    show "\<forall>m \<in> set (map norm_message os). msgRole m = RoleTool" using o(2) norm_role by auto
    show "loose (map norm_message rs)" using loose_norm [OF o(3)] roles o(1) by simp
  qed
  moreover have "\<forall>m \<in> set (map norm_message ms). msgRole m \<in> {RoleUser, RoleAssistant, RoleTool}"
    using roles norm_role by (metis imageE list.set_map)
  ultimately show ?thesis using o(1) unfolding sound_messages_def image_subset_iff by (simp only: map_append)
qed

section \<open>The world through a turn\<close>

definition sessions_sound :: "('w \<Rightarrow> keyspace) \<Rightarrow> 'w \<Rightarrow> bool" where
  "sessions_sound view w \<longleftrightarrow> (\<forall>k s. redis_held view w k = Some s \<longrightarrow>
     sound_messages (sessMessages s) \<and> length (sessMessages s) \<le> MaxMessages)"

lemma sessions_sound_same: "redis_held view w' = redis_held view w \<Longrightarrow> sessions_sound view w' = sessions_sound view w"
  by (simp add: sessions_sound_def)

lemma sessions_sound_upd:
  "redis_held view w' = (redis_held view w)(k \<mapsto> s) \<Longrightarrow> sessions_sound view w \<Longrightarrow> sound_messages (sessMessages s) \<Longrightarrow>
   length (sessMessages s) \<le> MaxMessages \<Longrightarrow> sessions_sound view w'"
  by (simp add: sessions_sound_def)

lemma RedisStore_Save_sound:
  assumes "redis_laws (rsRdb rst) view" "RedisStore_Save merr rst now k (Some s) w = (w', so, e)"
    "sessions_sound view w" "sound_messages (TrimMessages (sessMessages s))"
  shows "sessions_sound view w'"
proof -
  note c = RedisStore_contract [OF assms(1), of undefined merr "\<lambda>_. now"]
  have so: "so = Some (stamp_session now s)"
    using assms(2) by (auto simp: RedisStore_Save_def Let_def split: option.splits prod.splits)
  have "sound_messages (sessMessages (norm_session (stamp_session now s)))"
    "length (sessMessages (norm_session (stamp_session now s))) \<le> MaxMessages"
    using sound_norm [OF assms(4)] by (simp_all add: norm_session_def TrimMessages_length)
  moreover have "redis_held view w' = redis_held view w \<or>
      redis_held view w' = (redis_held view w)(k \<mapsto> norm_session (stamp_session now s))"
    using session_store.save_ok [OF c, of k s w w' so] session_store.save_err [OF c, of k s w w' so] assms(2) so
    by (cases e) auto
  ultimately show ?thesis using assms(3) sessions_sound_same sessions_sound_upd by metis
qed

text \<open>The models and the tools may let sessions expire, but write none.\<close>

definition leaves_sessions :: "('w \<Rightarrow> keyspace) \<Rightarrow> 'w \<Rightarrow> 'w \<Rightarrow> bool" where
  "leaves_sessions view w w' \<longleftrightarrow>
     (\<forall>k. view w' (sessionRedisKey k) = view w (sessionRedisKey k) \<or> view w' (sessionRedisKey k) = None)"

lemma leaves_sound: "leaves_sessions view w w' \<Longrightarrow> sessions_sound view w \<Longrightarrow> sessions_sound view w'"
  unfolding leaves_sessions_def sessions_sound_def redis_held_def by (metis bind.simps(1) option.distinct(1))

definition turn_leaves :: "('w \<Rightarrow> keyspace) \<Rightarrow> 'w agent \<Rightarrow> bool" where
  "turn_leaves view a \<longleftrightarrow>
     (\<forall>req w. leaves_sessions view w (fst (provStream (agProvider a) req w))) \<and>
     (\<forall>n t caller args w. tool_Get (agRegistry a) n = Some t \<longrightarrow> leaves_sessions view w (fst (tCall t caller args w)))"

definition redis_turn :: "go_error \<Rightarrow> 'w redis_store \<Rightarrow> ('w \<Rightarrow> time) \<Rightarrow> ('w \<Rightarrow> keyspace) \<Rightarrow> 'w agent \<Rightarrow> bool" where
  "redis_turn merr rst clk view a \<longleftrightarrow>
     saves_to_redis merr rst clk a \<and> redis_laws (rsRdb rst) view \<and> turn_leaves view a"

definition sound_state :: "('w \<Rightarrow> keyspace) \<Rightarrow> 'w run_state \<Rightarrow> bool" where
  "sound_state view st \<longleftrightarrow> sessions_sound view (rsWorld st) \<and> sound_messages (msgs st)"

lemma saveSession_sound:
  assumes "redis_turn merr rst clk view a" "saveSession a st = (st', e)"
    "sessions_sound view (rsWorld st)" "sound_messages (TrimMessages (msgs st))"
  shows "sound_state view st' \<and> msgs st' = TrimMessages (msgs st)"
proof -
  from assms(1) have s: "saves_to_redis merr rst clk a" "redis_laws (rsRdb rst) view" by (simp_all add: redis_turn_def)
  obtain w' so e' where r: "RedisStore_Save merr rst (clk (rsWorld st)) (sessKey (rsSess st)) (Some (rsSess st)) (rsWorld st)
      = (w', so, e')" by (metis prod_cases3)
  with assms(2) s(1) have "rsWorld st' = w'" by (auto simp: saveSession_def saves_to_redis_def)
  with RedisStore_Save_sound [OF s(2) r assms(3,4)] saves_asD [OF redis_saves [OF s(1)] assms(2)] assms(4)
  show ?thesis by (simp add: sound_state_def)
qed

lemma execOne_sound:
  assumes "redis_turn merr rst clk view a" "execOne a env c w = (w', r)" "sessions_sound view w"
  shows "sessions_sound view w'"
proof (cases "tool_Get (agRegistry a) (tcName c)")
  case None
  with assms(2,3) show ?thesis by (simp add: execOne_def)
next
  case (Some t)
  obtain w1 q where q: "tCall t (reCaller env) (tcArguments c) w = (w1, q)" by fastforce
  have "leaves_sessions view w (fst (tCall t (reCaller env) (tcArguments c) w))"
    using assms(1) Some unfolding redis_turn_def turn_leaves_def by blast
  then have "sessions_sound view w1" using leaves_sound assms(3) q by (metis fst_conv)
  with assms(2,3) Some q show ?thesis
    by (cases q) (auto simp: execOne_def Let_def split: if_splits)
qed

lemma exec_steps_sound:
  "exec_steps a env calls ss (w, out) = ((w', out'), evs) \<Longrightarrow> redis_turn merr rst clk view a \<Longrightarrow>
   sessions_sound view w \<Longrightarrow> sessions_sound view w'"
proof (induction ss arbitrary: w out evs)
  case (Cons s ss)
  show ?case
  proof (cases s)
    case (RunTool j)
    obtain w1 r where r: "execOne a env (calls ! j) w = (w1, r)" by fastforce
    with Cons RunTool execOne_sound [OF Cons.prems(2) r] show ?thesis by auto
  next
    case (EmitEnd j ms)
    with Cons show ?thesis by (auto split: prod.splits)
  qed
qed simp

lemma execTools_sound:
  "execTools a env s cs w = (w', rs, evs) \<Longrightarrow> redis_turn merr rst clk view a \<Longrightarrow> sessions_sound view w \<Longrightarrow>
   sessions_sound view w'"
  using exec_steps_sound by (auto simp: execTools_def split: prod.splits)

lemma message_end_sound:
  assumes "on_message_end a env ev st tn = (st', tn', r)" "redis_turn merr rst clk view a" "valid_env env"
    "sound_state view st" "msgRole (tnAsst tn) = RoleAssistant"
  shows "sound_state view st'"
proof -
  let ?m = "final_message tn"
  note d = assms(1) [unfolded on_message_end_def Let_def, folded final_message_def]
  have snd_st: "sessions_sound view (rsWorld st)" "sound_messages (msgs st)" using assms(4) by (simp_all add: sound_state_def)
  obtain st1 e1 where s1: "saveSession a (append_messages [?m] st) = (st1, e1)" by fastforce
  have "sound_messages (TrimMessages (msgs st @ [?m]))" by (rule sound_snoc [OF snd_st(2)]) (simp add: assms(5))
  with saveSession_sound [OF assms(2) s1] snd_st(1)
  have g1: "sound_state view st1" "msgs st1 = TrimMessages (msgs st @ [?m])" by simp_all
  show ?thesis
  proof (cases "(msgToolCalls ?m = [] \<and> TrimSpace (msgContent ?m) = []) \<or> e1 \<noteq> None \<or> msgToolCalls ?m = []")
    case True
    with d s1 g1 assms(4) show ?thesis by (cases e1) (auto simp: sound_state_def split: if_splits)
  next
    case False
    let ?st3 = "(emit ev st1)\<lparr>rsOut := rsOut (emit ev st1) @ map start_event (msgToolCalls ?m)\<rparr>"
    obtain w' rs evs where x: "execTools a env (reSched env (rsBatch ?st3) (length (msgToolCalls ?m)))
        (msgToolCalls ?m) (rsWorld ?st3) = (w', rs, evs)" by (metis prod_cases3)
    have k: "list_all2 is_result_of (msgToolCalls ?m) (map tool_message rs)"
      using execTools_spec [OF x] assms(3) by (auto simp: valid_env_def intro: results_match)
    let ?st4 = "?st3\<lparr>rsWorld := w', rsOut := rsOut ?st3 @ evs, rsBatch := rsBatch ?st3 + 1\<rparr>"
    obtain st5 e5 where s5: "saveSession a (append_messages (map tool_message rs) ?st4) = (st5, e5)" by fastforce
    have "sessions_sound view w'" using execTools_sound [OF x assms(2)] g1(1) by (simp add: sound_state_def)
    moreover have "sound_messages (TrimMessages (TrimMessages (msgs st @ [?m]) @ map tool_message rs))"
      by (rule sound_batch [OF snd_st(2) _ k]) (simp add: assms(5))
    ultimately have "sound_state view st5" using saveSession_sound [OF assms(2) s5] g1(2) by simp
    moreover have "st' = st5" using d False s1 x s5 by (auto split: option.splits)
    ultimately show ?thesis by simp
  qed
qed

lemma events_sound:
  "on_events a env evs st tn = (st', tn', r) \<Longrightarrow> redis_turn merr rst clk view a \<Longrightarrow> valid_env env \<Longrightarrow>
   sound_state view st \<Longrightarrow> msgRole (tnAsst tn) = RoleAssistant \<Longrightarrow> sound_state view st'"
proof (induction evs arbitrary: st tn)
  case (Cons ev evs)
  obtain st1 tn1 r1 where e: "on_event a env ev st tn = (st1, tn1, r1)" by (metis prod_cases3)
  have "sound_state view st1"
  proof (cases "evType ev = EventMessageEnd")
    case True
    with e message_end_sound [OF _ Cons.prems(2-5)] show ?thesis by (simp add: on_event_def)
  next
    case False
    with e have "rsWorld st1 = rsWorld st \<and> msgs st1 = msgs st"
      by (auto simp: on_event_def Let_def split: stream_event_type.splits option.splits if_splits prod.splits)
    with Cons.prems(4) show ?thesis by (simp add: sound_state_def)
  qed
  moreover have "msgRole (tnAsst tn1) = RoleAssistant" using on_event_role [OF e] Cons.prems(5) by simp
  ultimately show ?case using Cons e by (cases r1) auto
qed simp

lemma step_sound:
  assumes "run_step a env st = (st', r)" "redis_turn merr rst clk view a" "valid_env env" "sound_state view st"
  shows "sound_state view st'"
proof -
  let ?req = "buildRequest (rsSess st) (agRegistry a) (agPreamble a) (agThinking a) (rsWorld st)"
  obtain w1 q where p: "provStream (agProvider a) ?req (rsWorld st) = (w1, q)" by fastforce
  have "leaves_sessions view (rsWorld st) (fst (provStream (agProvider a) ?req (rsWorld st)))"
    using assms(2) unfolding redis_turn_def turn_leaves_def by blast
  then have "sessions_sound view w1" using leaves_sound assms(4) p unfolding sound_state_def by (metis fst_conv)
  then have s1: "sound_state view (st\<lparr>rsWorld := w1\<rparr>)" using assms(4) by (simp add: sound_state_def)
  show ?thesis
  proof (cases q)
    case (Inl e)
    with assms(1) p s1 show ?thesis by (auto simp: run_step_def Let_def)
  next
    case (Inr evs)
    obtain st1 tn1 r1 where e: "on_events a env evs (st\<lparr>rsWorld := w1\<rparr>) turn_init = (st1, tn1, r1)"
      by (metis prod_cases3)
    with assms(1) p Inr have "st' = st1" by (auto simp: run_step_def Let_def split: option.splits if_splits)
    with events_sound [OF e assms(2,3) s1] show ?thesis by (simp add: turn_init_def)
  qed
qed

lemma steps_sound:
  "run_steps a env n st = (st', r) \<Longrightarrow> redis_turn merr rst clk view a \<Longrightarrow> valid_env env \<Longrightarrow>
   sound_state view st \<Longrightarrow> sound_state view st'"
proof (induction n arbitrary: st)
  case (Suc n)
  obtain st1 r1 where s: "run_step a env st = (st1, r1)" by fastforce
  from step_sound [OF s Suc.prems(2-4)] Suc.IH [of st1] Suc.prems s show ?case by (cases r1) auto
qed simp

lemma Run_sound:
  assumes "Run a env sess input w = (st, r)" "redis_turn merr rst clk view a" "valid_env env"
    "sessions_sound view w" "sound_messages (sessMessages sess)"
  shows "sound_state view st"
proof -
  let ?st0 = "\<lparr>rsWorld = w, rsSess = sess, rsOut = [], rsBatch = 0\<rparr>"
  obtain st1 e where s: "saveSession a (append_messages [user_message input] ?st0) = (st1, e)" by fastforce
  have "sound_messages (TrimMessages (sessMessages sess @ [user_message input]))"
    by (rule sound_snoc [OF assms(5)]) (simp add: user_message_def)
  then have "sound_state view st1" using saveSession_sound [OF assms(2) s] assms(4) by simp
  then show ?thesis
    using assms(1) s steps_sound [OF _ assms(2,3), of "max_steps a" st1] by (cases e) (auto simp: Run_def)
qed

section \<open>The handler\<close>

text \<open>A handler as \<open>run\<close> wires it, whose models and tools write no session.\<close>

definition handler_on_redis ::
  "go_error \<Rightarrow> (string \<Rightarrow> go_error) \<Rightarrow> 'w redis_store \<Rightarrow> ('w \<Rightarrow> time) \<Rightarrow> ('w \<Rightarrow> go_error + string) \<Rightarrow> ('w \<Rightarrow> keyspace) \<Rightarrow>
   ('w, 'f) handler \<Rightarrow> bool" where
  "handler_on_redis merr jerr rst clk rnd view h \<longleftrightarrow>
     redis_laws (rsRdb rst) view \<and>
     hdGet h = RedisStore_Get jerr rst \<and>
     hdSave h = (\<lambda>k s w. RedisStore_Save merr rst (clk w) k (Some s) w) \<and>
     hdDelete h = RedisStore_Delete rst \<and>
     hdTryAcquire h = (\<lambda>key ttl w. RedisLocker_TryAcquire (rsRdb rst) key ttl (rnd w) w) \<and>
     hdRelease h = RedisLocker_Release (rsRdb rst)"

definition parts_leave_sessions :: "('w \<Rightarrow> keyspace) \<Rightarrow> ('w, 'f) handler \<Rightarrow> bool" where
  "parts_leave_sessions view h \<longleftrightarrow>
     (\<forall>x prov req w. llm_Resolve (hdLLMs h) x = Some prov \<longrightarrow> leaves_sessions view w (fst (provStream prov req w))) \<and>
     (\<forall>n t caller args w. tool_Get (hdRegistry h) n = Some t \<longrightarrow> leaves_sessions view w (fst (tCall t caller args w)))"

lemma held_lock:
  "view w' = (view w)(lockRedisKey k := v) \<Longrightarrow> redis_held view w' = redis_held view w"
  by (auto simp: redis_held_def fun_eq_iff)

lemma TryAcquire_held:
  assumes "redis_laws rc view" "RedisLocker_TryAcquire rc key ttl rnd w = (w', r)"
  shows "redis_held view w' = redis_held view w"
proof (cases "randomToken rnd")
  case (Inl e)
  with assms(2) show ?thesis by (auto simp: RedisLocker_TryAcquire_def)
next
  case (Inr t)
  define ttl' where "ttl' = (if ttl \<le> 0 then 60 * sec else ttl)"
  obtain w1 q where s: "rcSetNX rc (lockRedisKey key) t ttl' w = (w1, q)" by fastforce
  have "w' = w1" using assms(2) Inr s
    by (auto simp: RedisLocker_TryAcquire_def Let_def ttl'_def split: sum.splits if_splits)
  with redis_setnx [OF assms(1) s] show ?thesis
    by (auto split: sum.splits bool.splits intro: held_lock redis_held_same)
qed

lemma Release_held:
  assumes "redis_laws rc view"
  shows "redis_held view (fst (RedisLocker_Release rc key token w)) = redis_held view w"
proof -
  obtain w1 q where e: "rcEval rc (releaseScript (lockRedisKey key) token) w = (w1, q)" by fastforce
  have "fst (releaseScript (lockRedisKey key) token (view w)) = view w \<or>
      fst (releaseScript (lockRedisKey key) token (view w)) = (view w)(lockRedisKey key := None)"
    by (simp add: releaseScript_def)
  then have "view w1 = view w \<or> view w1 = (view w)(lockRedisKey key := None)"
    using redis_eval [OF assms e] by (auto split: sum.splits dest: arg_cong [of _ _ fst])
  with e held_lock [of view w1 w key None] redis_held_same [of view w1 w] show ?thesis
    by (auto simp: RedisLocker_Release_def split: sum.splits)
qed

lemma Get_sound:
  assumes "redis_laws (rsRdb rst) view" "RedisStore_Get jerr rst k w = (w', r)" "sessions_sound view w"
  shows "sessions_sound view w' \<and> (\<forall>s. r = Inr (Some s) \<longrightarrow> sound_messages (sessMessages s) \<and> length (sessMessages s) \<le> MaxMessages)"
proof -
  note c = RedisStore_contract [OF assms(1), of jerr undefined "\<lambda>_. undefined"]
  have "redis_held view w' = redis_held view w" by (rule session_store.get_held [OF c assms(2)])
  moreover have "redis_held view w k = Some s" if "r = Inr (Some s)" for s
    using session_store.get_ok [OF c] assms(2) that by metis
  ultimately show ?thesis using assms(3) unfolding sessions_sound_def by auto
qed

lemma Delete_sound:
  assumes "redis_laws (rsRdb rst) view" "RedisStore_Delete rst k w = (w', r)" "sessions_sound view w"
  shows "sessions_sound view w'"
proof -
  note c = RedisStore_contract [OF assms(1), of undefined undefined "\<lambda>_. undefined"]
  have "redis_held view w' = redis_held view w \<or> redis_held view w' = (redis_held view w)(k := None)"
    using session_store.del_ok [OF c] session_store.del_err [OF c] assms(2) by (cases r) blast+
  with assms(3) show ?thesis by (auto simp: sessions_sound_def split: if_splits)
qed

lemma new_session_sound: "sound_messages (sessMessages (new_session ev now))"
  by (simp add: new_session_def session_zero_def sound_Nil)

lemma model_command_sound:
  assumes "handler_on_redis merr jerr rst clk rnd view h" "model_command h now ev arg w = (w', t)" "sessions_sound view w"
  shows "sessions_sound view w'"
proof -
  note h = assms(1) [unfolded handler_on_redis_def]
  obtain w1 r where g: "hdGet h (SessionKey ev) w = (w1, r)" by fastforce
  note gs = Get_sound [OF conjunct1 [OF h], of jerr "SessionKey ev" w w1 r]
  have w1: "sessions_sound view w1" using gs g h assms(3) by auto
  show ?thesis
  proof (cases "arg = [] \<or> llm_Get (hdLLMs h) arg = None \<or> (\<exists>e. r = Inl e)")
    case True
    with assms(2,3) g w1 show ?thesis by (auto simp: model_command_def split: if_splits)
  next
    case False
    then obtain so where so: "r = Inr so" by (cases r) auto
    define s where "s = (case so of Some s \<Rightarrow> s | None \<Rightarrow> new_session ev now)\<lparr>sessProvider := arg\<rparr>"
    have "sound_messages (sessMessages s)"
      using gs g h assms(3) so new_session_sound by (auto simp: s_def split: option.splits)
    moreover obtain w2 so' e where sv: "hdSave h (sessKey s) s w1 = (w2, so', e)" by (metis prod_cases3)
    ultimately have "sessions_sound view w2"
      using RedisStore_Save_sound [OF conjunct1 [OF h], of merr "clk w1" "sessKey s" s w1 w2 so' e] h w1 sound_trim by auto
    moreover have "w' = w2"
      using assms(2) False g so sv by (auto simp: model_command_def Let_def s_def split: option.splits)
    ultimately show ?thesis by simp
  qed
qed

lemma dispatch_sound:
  assumes "handler_on_redis merr jerr rst clk rnd view h" "dispatchCommand h now ev w = (w', r)" "sessions_sound view w"
  shows "sessions_sound view w'"
proof -
  note h = assms(1) [unfolded handler_on_redis_def]
  obtain w1 e where d: "hdDelete h (SessionKey ev) w = (w1, e)" by fastforce
  have d1: "sessions_sound view w1"
    using Delete_sound [OF conjunct1 [OF h], of "SessionKey ev" w w1 e] d h assms(3) by auto
  obtain w2 t where m: "model_command h now ev (TrimSpace (TrimPrefix (TrimSpace (evTextOf ev)) ''/model'')) w = (w2, t)"
    by fastforce
  have "w' = w \<or> w' = w1 \<or> w' = w2"
    using assms(2) d m by (auto simp: dispatchCommand_def Let_def split: if_splits option.splits)
  with assms(3) d1 model_command_sound [OF assms(1) m assms(3)] show ?thesis by blast
qed

lemma locked_turn_sound:
  assumes "handler_on_redis merr jerr rst clk rnd view h" "parts_leave_sessions view h" "valid_env (heRun env)"
    "locked_turn h env ev w f = Some ((w', f'), e)" "sessions_sound view w"
  shows "sessions_sound view w'"
proof -
  note h = assms(1) [unfolded handler_on_redis_def]
  obtain w1 r where g: "hdGet h (SessionKey ev) w = (w1, r)" by fastforce
  note gs = Get_sound [OF conjunct1 [OF h], of jerr "SessionKey ev" w w1 r]
  have w1: "sessions_sound view w1" using gs g h assms(5) by auto
  show ?thesis
  proof (cases r)
    case (Inl err)
    with assms(4) g w1 show ?thesis by (simp add: locked_turn_def)
  next
    case (Inr so)
    define sess where "sess = (case so of Some s \<Rightarrow> s
      | None \<Rightarrow> (new_session ev (heNow env))\<lparr>sessProvider := hdDefaultMdl h\<rparr>)\<lparr>sessTraceID := heTrace env\<rparr>"
    have sess: "sound_messages (sessMessages sess)"
      using gs g h assms(5) Inr new_session_sound by (auto simp: sess_def split: option.splits)
    have turn: "locked_turn h env ev w f =
        (case llm_Resolve (hdLLMs h) (sessProvider sess) of
           None \<Rightarrow> Some ((w1, fst (msSendMessage (hdSender h) (evChatID ev) no_model_text f)), Some (Errorf ''no provider available''))
         | Some prov \<Rightarrow> (case msSendInitialCard (hdSender h) (evChatID ev) f of
             (f1, Inl err) \<Rightarrow> Some ((w1, f1), Some err)
           | (f1, Inr mid) \<Rightarrow> run_turn h env ev sess prov mid w1 f1))"
      unfolding locked_turn_def g Inr Let_def sess_def by simp
    show ?thesis
    proof (cases "\<exists>prov f1 mid. llm_Resolve (hdLLMs h) (sessProvider sess) = Some prov \<and>
        msSendInitialCard (hdSender h) (evChatID ev) f = (f1, Inr mid)")
      case False
      with assms(4) w1 show ?thesis unfolding turn by (auto split: option.splits prod.splits sum.splits)
    next
      case True
      then obtain prov f1 mid where p: "llm_Resolve (hdLLMs h) (sessProvider sess) = Some prov"
        "msSendInitialCard (hdSender h) (evChatID ev) f = (f1, Inr mid)" by blast
      let ?ag = "(NewAgent prov (hdRegistry h) (Some (hdSave h)))\<lparr>agThinking := True\<rparr>"
      let ?re = "(heRun env)\<lparr>reCaller := evSenderOpenID ev\<rparr>"
      obtain st runErr where run: "Run ?ag ?re sess (evTextOf ev) w1 = (st, runErr)" by fastforce
      have rt: "redis_turn merr rst clk view ?ag"
        using h assms(2) p(1) unfolding redis_turn_def saves_to_redis_def turn_leaves_def parts_leave_sessions_def
        by (auto simp: NewAgent_def)
      have "valid_env ?re" using assms(3) by (simp add: valid_env_def)
      from Run_sound [OF run rt this w1 sess] have "sessions_sound view (rsWorld st)" by (simp add: sound_state_def)
      moreover have "run_turn h env ev sess prov mid w1 f1 = Some ((w', f'), e)"
        using assms(4) p unfolding turn by simp
      then have "w' = rsWorld st"
        using run by (auto simp: run_turn_def Let_def split: if_splits option.splits prod.splits feed_result.splits)
      ultimately show ?thesis by simp
    qed
  qed
qed

lemma Handle_sound:
  assumes "handler_on_redis merr jerr rst clk rnd view h" "parts_leave_sessions view h" "valid_env (heRun env)"
    "Handle h env evo w f = Some ((w', f'), e)" "sessions_sound view w"
  shows "sessions_sound view w'"
proof (cases "\<exists>ev. evo = Some ev \<and> \<not> (evChatType ev \<noteq> ''p2p'' \<and> \<not> evMentionedBot ev) \<and> evTextOf ev \<noteq> []")
  case False
  with assms(4,5) show ?thesis by (auto simp: Handle_def split: option.splits if_splits)
next
  case True
  then obtain ev where ev: "evo = Some ev" "\<not> (evChatType ev \<noteq> ''p2p'' \<and> \<not> evMentionedBot ev)" "evTextOf ev \<noteq> []" by blast
  note h = assms(1) [unfolded handler_on_redis_def]
  obtain w1 t where d: "dispatchCommand h (heNow env) ev w = (w1, t)" by fastforce
  have w1: "sessions_sound view w1" by (rule dispatch_sound [OF assms(1) d assms(5)])
  obtain w2 q where a: "hdTryAcquire h (SessionKey ev) LockTTL w1 = (w2, q)" by fastforce
  have w2: "sessions_sound view w2"
    using TryAcquire_held [of "rsRdb rst" view "SessionKey ev" LockTTL "rnd w1" w1 w2 q] h a w1 sessions_sound_same [of view w2 w1] by auto
  show ?thesis
  proof (cases "t = None \<and> (\<exists>token. q = Inr (Some token))")
    case False
    have "w' = w1 \<or> w' = w2"
      using assms(4) ev d a False
      by (auto simp: Handle_def Let_def split: option.splits if_splits prod.splits sum.splits)
    with w1 w2 show ?thesis by blast
  next
    case True
    then obtain token where token: "t = None" "q = Inr (Some token)" by blast
    with d a have da: "dispatchCommand h (heNow env) ev w = (w1, None)"
      "hdTryAcquire h (SessionKey ev) LockTTL w1 = (w2, Inr (Some token))" by simp_all
    obtain w3 f3 where l: "locked_turn h env ev w2 f = Some ((w3, f3), e)"
      "w' = fst (hdRelease h (SessionKey ev) token w3)"
      using locked_cases [OF _ _ ev(3) da] assms(4) ev(1,2) by metis
    have "sessions_sound view w3" by (rule locked_turn_sound [OF assms(1,2,3) l(1) w2])
    then show ?thesis
      using Release_held [OF conjunct1 [OF h], of "SessionKey ev" token w3] h l(2) sessions_sound_same by metis
  qed
qed

section \<open>The history of a program\<close>

text \<open>
  What happens to a program that has started: it handles messages, and between two of them time passes, keys
  expire and the other parts of the program, such as the OAuth server, write keys of their own.
\<close>

inductive history :: "('w \<Rightarrow> keyspace) \<Rightarrow> ('w, 'f) app \<Rightarrow> 'w \<times> 'f \<Rightarrow> 'w \<times> 'f \<Rightarrow> bool" for view a s where
  started: "history view a s s"
| message: "history view a s (w, f) \<Longrightarrow> valid_env (heRun henv) \<Longrightarrow> on_message a henv raw w f = Some (w', f') \<Longrightarrow>
    history view a s (w', f')"
| meanwhile: "history view a s (w, f) \<Longrightarrow> leaves_sessions view w w' \<Longrightarrow> history view a s (w', f')"

lemma history_sound:
  assumes "history view a s s'" "handler_on_redis merr jerr rst clk rnd view (apHandler a)"
    "parts_leave_sessions view (apHandler a)" "sessions_sound view (fst s)"
  shows "sessions_sound view (fst s')"
  using assms
proof (induction rule: history.induct)
  case (message w f henv raw w' f')
  then have "sessions_sound view w" by simp
  with message(2,3) show ?case
    by (auto simp: on_message_def split: option.splits intro: Handle_sound [OF message(5,6)])
next
  case (meanwhile w f w' f')
  then show ?case using leaves_sound by simp
qed simp

lemma new_handler_on_redis:
  assumes "redis_laws (dpRedis d (cfRedis cfg)) view"
  shows "handler_on_redis (dpMarshalError d) (wdJson (dpWords d))
     (NewRedisStore (dpRedis d (cfRedis cfg)) (crSessionTTL (cfRedis cfg))) (dpClock d) (dpLockBytes d) view
     (new_handler d cfg reg llms)"
  using assms by (simp add: handler_on_redis_def new_handler_def Let_def NewRedisStore_def)

section \<open>What the parts of a program leave alone\<close>

lemma leaves_refl [simp]: "leaves_sessions view w w"
  by (simp add: leaves_sessions_def)

lemma leaves_trans: "leaves_sessions view w1 w2 \<Longrightarrow> leaves_sessions view w2 w3 \<Longrightarrow> leaves_sessions view w1 w3"
  unfolding leaves_sessions_def by metis

lemma leaves_same: "view w' = view w \<Longrightarrow> leaves_sessions view w w'"
  by (simp add: leaves_sessions_def)

lemma session_cred_keys [simp]: "sessionRedisKey k \<noteq> credKey u"
  by (simp add: sessionRedisKey_def credKey_def)

lemma cred_Get_leaves:
  assumes "redis_laws (csRdb st) view"
  shows "leaves_sessions view w (fst (cred_Get jerr st u w))"
proof -
  obtain w1 r where g: "rcGet (csRdb st) (credKey u) w = (w1, r)" by fastforce
  have "view w1 = view w" using redis_get [OF assms g] by simp
  then have "leaves_sessions view w w1" by (rule leaves_same)
  with g show ?thesis by (auto simp: cred_Get_def split: get_reply.splits sum.splits option.splits)
qed

lemma cred_Delete_leaves: "redis_laws (csRdb st) view \<Longrightarrow> leaves_sessions view w (fst (cred_Delete st u w))"
  using cred_Delete_other [of st view _ u w] by (simp add: leaves_sessions_def)

lemma cred_Save_leaves:
  assumes "redis_laws (csRdb st) view" "expire_laws st view clock"
  shows "leaves_sessions view w (fst (cred_Save merr st (Some c) w))"
proof -
  obtain w1 r where s: "cred_Save merr st (Some c) w = (w1, r)" by fastforce
  with cred_Save_other [OF assms s] show ?thesis by (simp add: leaves_sessions_def)
qed

lemma reauthorize_leaves:
  "redis_laws (csRdb st) view \<Longrightarrow> rfStore r = Some st \<Longrightarrow> leaves_sessions view w (fst (reauthorize r u w))"
  using reauthorize_other [of st view r _ u w] by (simp add: leaves_sessions_def)

lemma RefreshIfNeeded_leaves:
  assumes "redis_laws (csRdb st) view" "expire_laws st view clock'" "rfStore r = Some st"
    and post: "\<And>u b v. leaves_sessions view v (fst (rfPost r u b v))"
  shows "leaves_sessions view w (fst (RefreshIfNeeded merr clock r (Some cred) w))"
proof -
  obtain w1 ans where p: "rfPost r FeishuTokenEndpoint (refresh_body r cred) w = (w1, ans)" by fastforce
  have l1: "leaves_sessions view w w1" using post [of w FeishuTokenEndpoint "refresh_body r cred"] p by simp
  let ?u = "crOpenID cred"
  let ?del = "fst (cred_Delete st ?u w1)"
  obtain w2 e2 where r2: "reauthorize r ?u w = (w2, e2)" by fastforce
  obtain w3 e3 where r3: "reauthorize r ?u (if ?u \<noteq> [] then ?del else w1) = (w3, e3)" by fastforce
  have l2: "leaves_sessions view w w2" using reauthorize_leaves [OF assms(1,3), of w ?u] r2 by simp
  have l3: "leaves_sessions view w w3"
  proof -
    have "leaves_sessions view w (if ?u \<noteq> [] then ?del else w1)"
      using leaves_trans [OF l1 cred_Delete_leaves [OF assms(1)]] l1 by simp
    with reauthorize_leaves [OF assms(1,3), of "if ?u \<noteq> [] then ?del else w1" ?u] r3 show ?thesis
      by (metis fst_conv leaves_trans)
  qed
  have l4: "leaves_sessions view w (fst (cred_Save merr st (Some c) w1))" for c
    by (rule leaves_trans [OF l1 cred_Save_leaves [OF assms(1,2)]])
  show ?thesis
  proof (cases "clock w + 60 * sec < crAccessExpiresAt cred \<or> crRefreshToken cred = []")
    case True
    with r2 l2 show ?thesis by (auto simp: RefreshIfNeeded_def)
  next
    case False
    show ?thesis
    proof (cases ans)
      case (Inl err)
      with False p l1 show ?thesis by (simp add: RefreshIfNeeded_def)
    next
      case (Inr sb)
      obtain status body where sb: "sb = (status, body)" by fastforce
      let ?tok = "token_decode_lenient body"
      show ?thesis
      proof (cases "400 \<le> status \<or> tkCode ?tok \<noteq> 0 \<or> tkError ?tok \<noteq> [] \<or> tkAccessToken ?tok = []")
        case True
        with False p Inr sb l1 r3 l3 assms(3) show ?thesis by (auto simp: RefreshIfNeeded_def Let_def)
      next
        case ok: False
        obtain w4 e4 where s: "cred_Save merr st (Some (updated_credential cred ?tok (clock w1))) w1 = (w4, e4)" by fastforce
        with l4 [of "updated_credential cred ?tok (clock w1)"] have "leaves_sessions view w w4" by simp
        with False ok p Inr sb s assms(3) show ?thesis
          by (auto simp: RefreshIfNeeded_def Let_def split: option.splits)
      qed
    qed
  qed
qed

lemma requireCredential_leaves:
  assumes "fcStore cfg = Some st" "redis_laws (csRdb st) view" "expire_laws st view clock"
    and "fcRefresher cfg = Some rf" "rfStore rf = Some st" "\<And>u b v. leaves_sessions view v (fst (rfPost rf u b v))"
  shows "leaves_sessions view w (fst (requireCredential cfg u w))"
proof -
  obtain w1 r where g: "cred_Get (wdJson (fcWords cfg)) st u w = (w1, r)" by fastforce
  have l1: "leaves_sessions view w w1" using cred_Get_leaves [OF assms(2), of w "wdJson (fcWords cfg)" u] g by simp
  show ?thesis
  proof (cases "u \<noteq> [] \<and> (\<exists>cred. r = Inr (Some cred))")
    case False
    with g l1 assms(1) show ?thesis by (auto simp: requireCredential_def split: sum.splits option.splits)
  next
    case True
    then obtain cred where cred: "u \<noteq> []" "r = Inr (Some cred)" by blast
    obtain w2 q where f: "RefreshIfNeeded (wdJson (fcWords cfg) []) (fcClock cfg) rf (Some cred) w1 = (w2, q)" by fastforce
    have "leaves_sessions view w1 w2"
      using RefreshIfNeeded_leaves [OF assms(2,3,5,6), of w1 "wdJson (fcWords cfg) []" "fcClock cfg" cred] f by simp
    then have l2: "leaves_sessions view w w2" by (rule leaves_trans [OF l1])
    have "leaves_sessions view w (fst (cred_Save (wdJson (fcWords cfg) []) st (Some c) w2))" for c
      by (rule leaves_trans [OF l2 cred_Save_leaves [OF assms(2,3)]])
    with g cred f l2 assms(1,4) show ?thesis
      by (auto simp: requireCredential_def Let_def split: sum.splits option.splits)
  qed
qed

text \<open>The libraries the tools and the models call write no session.\<close>

definition web_leaves :: "('w \<Rightarrow> keyspace) \<Rightarrow> 'w web_lib \<Rightarrow> bool" where
  "web_leaves view wl \<longleftrightarrow> (\<forall>h w. leaves_sessions view w (fst (wlLookup wl h w))) \<and>
     (\<forall>u n w. leaves_sessions view w (fst (wlGet wl u n w)))"

definition docs_leave :: "('w \<Rightarrow> keyspace) \<Rightarrow> 'w doc_api \<Rightarrow> bool" where
  "docs_leave view api \<longleftrightarrow> (\<forall>t d w. leaves_sessions view w (fst (daRawContent api t d w))) \<and>
     (\<forall>t d w. leaves_sessions view w (fst (daTitle api t d w))) \<and>
     (\<forall>t d w. leaves_sessions view w (fst (daContent api t d w))) \<and>
     (\<forall>t q w. leaves_sessions view w (fst (daSearch api t q w)))"

definition post_leaves :: "('w \<Rightarrow> keyspace) \<Rightarrow> 'w http_post \<Rightarrow> bool" where
  "post_leaves view post \<longleftrightarrow> (\<forall>u b w. leaves_sessions view w (fst (post u b w)))"

definition mcp_leaves :: "('w \<Rightarrow> keyspace) \<Rightarrow> 'w mcp_lib \<Rightarrow> bool" where
  "mcp_leaves view lib \<longleftrightarrow> (\<forall>c w w' a b e v n x.
     (mlStdio lib a b e v = (w', Inr c) \<or> (\<exists>s h t. mlHTTP lib s h t v = (w', Inr c)) \<or> (\<exists>s h t. mlSSE lib s h t v = (w', Inr c)))
     \<longrightarrow> leaves_sessions view w (fst (mcCallTool c n x w)))"

definition models_leave :: "('w \<Rightarrow> keyspace) \<Rightarrow> ('w, 'js) model_lib \<Rightarrow> bool" where
  "models_leave view lib \<longleftrightarrow>
     (\<forall>cfg cm ms os w. elClaude lib cfg = Inr cm \<longrightarrow> leaves_sessions view w (fst (cm ms os w))) \<and>
     (\<forall>cfg cm ms os w. elOpenAI lib cfg = Inr cm \<longrightarrow> leaves_sessions view w (fst (cm ms os w)))"

lemma web_fetch_leaves:
  assumes "web_leaves view wl"
  shows "leaves_sessions view w (fst (web_fetch_Call wl n args w))"
proof -
  have l: "leaves_sessions view v (fst (rejectPrivateTarget wl h v))" for h v
  proof -
    obtain v1 r where x: "wlLookup wl h v = (v1, r)" by fastforce
    have "leaves_sessions view v (fst (wlLookup wl h v))" using assms unfolding web_leaves_def by blast
    with x show ?thesis by (auto simp: rejectPrivateTarget_def Let_def split: option.splits sum.splits)
  qed
  have r: "leaves_sessions view v (fst (disallowedByRobots wl u v))" for u v
  proof -
    obtain v1 q where x: "wlGet wl (puScheme u @ ''://'' @ puHost u @ ''/robots.txt'') (256 * 1024) v = (v1, q)" by fastforce
    have "leaves_sessions view v (fst (wlGet wl (puScheme u @ ''://'' @ puHost u @ ''/robots.txt'') (256 * 1024) v))"
      using assms unfolding web_leaves_def by blast
    with x show ?thesis by (auto simp: disallowedByRobots_def Let_def split: sum.splits)
  qed
  have a: "leaves_sessions view v (fst (fetch_article wl req v))" for req v
  proof -
    obtain v1 q where x: "wlGet wl (fqURL req) (5 * 1024 * 1024) v = (v1, q)" by fastforce
    have "leaves_sessions view v (fst (wlGet wl (fqURL req) (5 * 1024 * 1024) v))"
      using assms unfolding web_leaves_def by blast
    with x show ?thesis by (auto simp: fetch_article_def split: sum.splits prod.splits)
  qed
  have chain: "leaves_sessions view w
      (fst (case rejectPrivateTarget wl h w of
              (w1, Some err) \<Rightarrow> (w1, ToolErr (SimpleUserError (Error err)))
            | (w1, None) \<Rightarrow>
                (case disallowedByRobots wl u w1 of
                   (w2, Inl err) \<Rightarrow> (w2, ToolErr err)
                 | (w2, Inr True) \<Rightarrow> (w2, ToolErr (SimpleUserError ''blocked by robots.txt''))
                 | (w2, Inr False) \<Rightarrow> fetch_article wl req w2)))" for h u req
  proof -
    obtain w1 e where x: "rejectPrivateTarget wl h w = (w1, e)" by fastforce
    obtain w2 b where y: "disallowedByRobots wl u w1 = (w2, b)" by fastforce
    have w1: "leaves_sessions view w w1" using l [of w h] x by simp
    have w2: "leaves_sessions view w w2" using leaves_trans [OF w1, of w2] r [of w1 u] y by simp
    have "leaves_sessions view w (fst (fetch_article wl req w2))" by (rule leaves_trans [OF w2 a])
    with x y w1 w2 show ?thesis by (auto split: option.split sum.split bool.split)
  qed
  show ?thesis
    using chain by (auto simp: web_fetch_Call_def Let_def split: option.split)
qed

lemma web_search_leaves:
  assumes "post_leaves view post"
  shows "leaves_sessions view w (fst (web_search_Call jerr getenv post cfg args w))"
proof -
  have chain: "leaves_sessions view w
      (fst (case post u b w of
              (w', Inl err) \<Rightarrow> (w', ToolErr err)
            | (w', Inr (status, body)) \<Rightarrow> (w', answer status body)))" for u b and answer :: "int \<Rightarrow> string \<Rightarrow> tool_outcome"
  proof -
    obtain w1 r where x: "post u b w = (w1, r)" by fastforce
    have "leaves_sessions view w (fst (post u b w))" using assms unfolding post_leaves_def by blast
    with x show ?thesis by (auto split: sum.split)
  qed
  have pull: "(if c then (v, x) else if c' then (v, x') else case o' of None \<Rightarrow> (v, y) | Some hits \<Rightarrow> (v, z hits)) =
      (v, if c then x else if c' then x' else case o' of None \<Rightarrow> y | Some hits \<Rightarrow> z hits)"
    for c c' v and x x' y :: tool_outcome and o' :: "search_hit list option" and z
    by (simp split: option.split)
  show ?thesis
  proof (cases "decode_args search_put \<lparr>sqQuery = [], sqMaxResults = 0\<rparr> args")
    case (Some req0)
    then show ?thesis unfolding web_search_Call_def Let_def pull by (simp add: chain)
  qed (simp add: web_search_Call_def)
qed

lemma fetch_doc_leaves:
  assumes "docs_leave view api" "fcClient cfg = Some api"
  shows "leaves_sessions view w (fst (fetchFeishuDocContent cfg cred token url w))"
proof -
  obtain w1 r where r: "daRawContent api (crAccessToken cred) token w = (w1, r)" by fastforce
  obtain w2 q where q: "daTitle api (crAccessToken cred) token w1 = (w2, q)" by fastforce
  obtain w3 c where c: "daContent api (crAccessToken cred) token w = (w3, c)" by fastforce
  have w1: "leaves_sessions view w w1" and w3: "leaves_sessions view w w3"
    using assms(1) r c unfolding docs_leave_def by (metis fst_conv)+
  have w2: "leaves_sessions view w w2"
    using assms(1) q unfolding docs_leave_def by (metis fst_conv leaves_trans [OF w1])
  show ?thesis using w1 w2 w3 r q c assms(2) by (auto simp: fetchFeishuDocContent_def split: sum.splits)
qed

lemma search_docs_leaves:
  assumes "docs_leave view api" "fcClient cfg = Some api"
  shows "leaves_sessions view w (fst (searchFeishuDocs cfg cred query w))"
proof -
  obtain w1 r where r: "daSearch api (crAccessToken cred) query w = (w1, r)" by fastforce
  have "leaves_sessions view w w1" using assms(1) r unfolding docs_leave_def by (metis fst_conv)
  with r assms(2) show ?thesis by (auto simp: searchFeishuDocs_def split: sum.splits)
qed

lemma doc_read_leaves:
  assumes cred: "\<And>u v. leaves_sessions view v (fst (requireCredential cfg u v))"
    and docs: "docs_leave view api" "fcClient cfg = Some api"
  shows "leaves_sessions view w (fst (doc_read_Call cfg caller args w))"
proof -
  obtain w1 r where r: "requireCredential cfg caller w = (w1, r)" by fastforce
  have w1: "leaves_sessions view w w1" using cred [of w caller] r by simp
  have "leaves_sessions view w (fst (fetchFeishuDocContent cfg c t u w1))" for c t u
    by (rule leaves_trans [OF w1 fetch_doc_leaves [OF docs]])
  with r w1 show ?thesis
    by (auto simp: doc_read_Call_def Let_def split: option.split cred_result.split sum.split prod.split) (metis fst_conv)+
qed

lemma doc_search_leaves:
  assumes cred: "\<And>u v. leaves_sessions view v (fst (requireCredential cfg u v))"
    and docs: "docs_leave view api" "fcClient cfg = Some api"
  shows "leaves_sessions view w (fst (doc_search_Call cfg caller args w))"
proof -
  obtain w1 r where r: "requireCredential cfg caller w = (w1, r)" by fastforce
  have w1: "leaves_sessions view w w1" using cred [of w caller] r by simp
  have "leaves_sessions view w (fst (searchFeishuDocs cfg c q w1))" for c q
    by (rule leaves_trans [OF w1 search_docs_leaves [OF docs]])
  with r w1 show ?thesis
    by (auto simp: doc_search_Call_def Let_def split: option.split cred_result.split sum.split prod.split) (metis fst_conv)+
qed

text \<open>A tool of an MCP server calls a client that the library made.\<close>

definition tool_leaves :: "('w \<Rightarrow> keyspace) \<Rightarrow> 'w tool \<Rightarrow> bool" where
  "tool_leaves view t \<longleftrightarrow> (\<forall>caller args w. leaves_sessions view w (fst (tCall t caller args w)))"

lemma newClient_leaves:
  assumes "mcp_leaves view lib" "newClient quote lib cfg w = (w', Inr c)"
  shows "leaves_sessions view v (fst (mcCallTool c n x v))"
  using assms(2) assms(1) unfolding mcp_leaves_def
  by (auto simp: newClient_def newStdioClient_def newHTTPClient_def newSSEClient_def split: if_splits) blast+

lemma adapted_leaves:
  assumes "\<And>n x v. leaves_sessions view v (fst (mcCallTool c n x v))"
  shows "tool_leaves view (adapted_tool num s c status d)"
proof -
  have "leaves_sessions view w (fst (adapted_Call num d c args w))" for args w
  proof (cases "decode_map num args")
    case (Some parsed)
    obtain w1 r where x: "mcCallTool c (mtName d) parsed w = (w1, r)" by fastforce
    with assms [of w "mtName d" parsed] Some show ?thesis
      by (auto simp: adapted_Call_def Let_def split: sum.splits)
  qed (simp add: adapted_Call_def)
  then show ?thesis by (simp add: tool_leaves_def adapted_tool_def)
qed

lemma loadOne_leaves:
  assumes "mcp_leaves view (meLib e)" "loadOne e ctx cfg w = (w', s)"
  shows "\<forall>t \<in> set (mgAdapted s). tool_leaves view t"
  using assms(2) newClient_leaves [OF assms(1)]
  by (auto simp: loadOne_def Let_def failed_server_def adaptTools_def intro!: adapted_leaves
      split: prod.splits sum.splits option.splits)

lemma load_configs_leaves:
  "mcp_leaves view (meLib e) \<Longrightarrow> \<forall>s \<in> snd ` set m. \<forall>t \<in> set (mgAdapted s). tool_leaves view t \<Longrightarrow>
   load_configs e cs m w = (w', m') \<Longrightarrow> \<forall>s \<in> snd ` set m'. \<forall>t \<in> set (mgAdapted s). tool_leaves view t"
proof (induction cs arbitrary: m w)
  case (Cons c cs)
  have set: "\<forall>s \<in> snd ` set (setServer s0 m). \<forall>t \<in> set (mgAdapted s). tool_leaves view t"
    if "\<forall>t \<in> set (mgAdapted s0). tool_leaves view t" for s0
    using Cons.prems(2) that by (auto simp: setServer_def dest!: set_update_cases)
  show ?case
  proof (cases "msEnabled c")
    case False
    have "\<forall>t \<in> set (mgAdapted (failed_server c ''disabled'')). tool_leaves view t" by (simp add: failed_server_def)
    from Cons.IH [OF Cons.prems(1) set [OF this]] Cons.prems(3) False show ?thesis by simp
  next
    case True
    obtain w1 s where l: "loadOne e (timeoutOrDefault (msInitializeTimeout c)) c w = (w1, s)" by fastforce
    from Cons.IH [OF Cons.prems(1) set [OF loadOne_leaves [OF Cons.prems(1) l]]] Cons.prems(3) True l
    show ?thesis by simp
  qed
qed simp

lemma mgr_Tools_leaves:
  assumes "\<forall>s \<in> snd ` set m. \<forall>t \<in> set (mgAdapted s). tool_leaves view t" "t \<in> set (mgr_Tools order m)"
  shows "tool_leaves view t"
proof -
  have "set (servers_in order m) \<subseteq> snd ` set m"
    by (auto simp: servers_in_def List.map_filter_def dest: map_of_SomeD) (metis image_eqI map_of_SomeD snd_conv)
  with assms show ?thesis by (auto simp: mgr_Tools_def split: if_splits)
qed

text \<open>What is registered is one of the tools offered.\<close>

lemma register_builtins_from:
  "register_builtins quote ts r = Inr r' \<Longrightarrow> tool_Get r' n = Some t \<Longrightarrow> t \<in> set ts \<or> tool_Get r n = Some t"
proof (induction ts arbitrary: r)
  case (Cons t0 ts)
  then obtain r1 where r1: "tool_Register quote t0 r = Inr r1" "register_builtins quote ts r1 = Inr r'"
    by (auto split: sum.splits)
  from Cons.IH [OF r1(2) Cons.prems(2)] tool_Get_Register [OF r1(1), of n] show ?case by (auto split: if_splits)
qed simp

lemma register_mcp_from:
  "tool_Get (register_mcp quote ts r) n = Some t \<Longrightarrow> t \<in> set ts \<or> tool_Get r n = Some t"
proof (induction ts arbitrary: r)
  case (Cons t0 ts)
  show ?case
  proof (cases "tool_Register quote t0 r")
    case (Inr r1)
    with Cons.IH [of r1] Cons.prems tool_Get_Register [OF Inr, of n] show ?thesis by (auto split: if_splits)
  qed (use Cons in simp)
qed simp

lemma stream_world:
  "fst (case x of (w', Inl e) \<Rightarrow> (w', Inl (Wrapf ''eino stream'' e))
      | (w', Inr (cks, fin)) \<Rightarrow> (w', Inr (translateStream ends cks fin))) = fst x"
  by (auto split: sum.split prod.split)

lemma adapter_leaves:
  assumes "\<And>ms os w. leaves_sessions view w (fst (cm ms os w))"
  shows "leaves_sessions view w (fst (provStream (WrapEino quote lib name cm thinking) req w))"
  using assms
  by (auto simp: WrapEino_def adapter_Stream_def Let_def stream_world leaves_refl split: sum.split)

lemma llm_factory_leaves:
  assumes "models_leave view (dpModels d)" "llm_factory d getenv p = Inr prov"
  shows "leaves_sessions view w (fst (provStream prov req w))"
proof -
  from assms(2) obtain cm where cm: "prov = WrapEino (dpQuote d) (dpModels d) (mpAlias p) cm (mpEnableThinking p)"
    "(\<exists>cfg. elClaude (dpModels d) cfg = Inr cm) \<or> (\<exists>cfg. elOpenAI (dpModels d) cfg = Inr cm)"
    by (auto simp: llm_factory_def NewClaude_def NewOpenAI_def Let_def split: if_splits sum.splits)
  have "leaves_sessions view v (fst (cm ms os v))" for ms os v
    using assms(1) cm(2) unfolding models_leave_def by blast
  with cm(1) show ?thesis by (simp add: adapter_leaves)
qed

text \<open>The libraries a program is given.\<close>

definition libraries_leave_sessions :: "('w \<Rightarrow> keyspace) \<Rightarrow> ('w, 'f, 'js) deps \<Rightarrow> bool" where
  "libraries_leave_sessions view d \<longleftrightarrow> post_leaves view (dpPost d) \<and> web_leaves view (dpWeb d) \<and>
     (\<forall>cfg. docs_leave view (dpDocs d cfg)) \<and> models_leave view (dpModels d) \<and> mcp_leaves view (meLib (dpMcp d))"

lemma builtin_tools_leave:
  assumes lib: "libraries_leave_sessions view d"
    and srv: "redis_laws (csRdb (osStore srv)) view" "expire_laws (osStore srv) view clock"
    and t: "t \<in> set (builtin_tools d cfg getenv srv)"
  shows "tool_leaves view t"
proof -
  have l: "post_leaves view (dpPost d)" "web_leaves view (dpWeb d)" "docs_leave view (dpDocs d (cfLark cfg))"
    using lib by (simp_all add: libraries_leave_sessions_def)
  let ?rf = "\<lparr>rfAppID = clAppID (cfLark cfg), rfAppSecret = clAppSecret (cfLark cfg),
            rfStore = Some (osStore srv), rfStartURL = Some (StartURL srv), rfPost = dpPost d\<rparr>"
  let ?fc = "\<lparr>fcStore = Some (osStore srv), fcRefresher = Some ?rf, fcStartURL = Some (StartURL srv),
            fcClient = Some (dpDocs d (cfLark cfg)), fcTimeout = dpTimeout d, fcPath = dpURLPath d,
            fcClock = dpClock d, fcWords = dpWords d\<rparr>"
  have cred: "leaves_sessions view v (fst (requireCredential ?fc u v))" for u v
    by (rule requireCredential_leaves [where st = "osStore srv" and rf = ?rf, OF _ srv]) (use l(1) in \<open>simp_all add: post_leaves_def\<close>)
  have fc: "fcClient ?fc = Some (dpDocs d (cfLark cfg))" by simp
  note docs = doc_read_leaves [OF cred l(3) fc] doc_search_leaves [OF cred l(3) fc]
  show ?thesis
    using t docs web_fetch_leaves [OF l(2)] web_search_leaves [OF l(1)]
    by (auto simp: tool_leaves_def builtin_tools_def Let_def NewDatetime_def NewWebSearch_def NewWebFetch_def
        NewFeishuDocRead_def NewFeishuDocSearch_def)
qed

end
