(* ===== verification/Spec2Isabelle.thy ===== *)
theory Spec2Isabelle
  imports Context History
begin

text \<open>
  A model of ssh-bot, a Feishu chat bot that answers with a language model and tools, and the theorems
  that make it correct. The Go source is under src/; each definition has the name of the function or
  type it models, with a prefix where a name of HOL or of another package is in the way.

  \<^bold>\<open>The program.\<close> A message arrives from Feishu and is parsed (internal/lark/parser.go). A command is
  answered at once (commands.go); any other message takes the lock of its user, loads the session
  (internal/session), and runs the agent (internal/agent): up to 12 steps of asking a model
  (internal/llm) and running the tools it calls (internal/tool, internal/mcp), whose events are drawn
  on a card that is patched while the run goes on (internal/render). Tools that read documents need a
  user token, which internal/oauth gets, seals and refreshes. cmd/bot/main.go puts the parts together
  from a configuration (internal/config).

  \<^bold>\<open>The theories.\<close>
  \<^item> Prelude: Go strings as byte lists with the functions of \<open>strings\<close> and \<open>unicode/utf8\<close>, decimal
    numbers, times in nanoseconds, errors as values, maps as association lists, and the collections
    \<open>go_str\<close> and \<open>go_len\<close> of rewrite rules.
  \<^item> Json, Json_Roundtrip: \<open>encoding/json\<close> as the program uses it, and that a printed value is read back.
    Gotime: RFC 3339 times and their round trip.
  \<^item> Llm: types.go, provider.go and eino_adapter.go of internal/llm; the stream of a model as a list of
    chunks and its translation into events.
  \<^item> Tools: the tool interface and registry; the locale \<open>named_registry\<close>. Sessions: session records, their
    stored form, the two stores, the user lock. The locale \<open>session_store\<close> and the laws of the Redis client
    say what a client of a store may rely on; the locale is interpreted on the in-memory store, and under
    the laws it holds of the Redis store.
  \<^item> Agent: context.go and loop.go of internal/agent. A tool batch runs under a schedule, a list of the
    atomic steps of its goroutines; the theorems hold for every valid schedule. The locale
    \<open>terminated_provider\<close> is what the loop may rely on of a provider; Providers (the factories of
    internal/llm/providers) interprets it on every provider that the factories make.
  \<^item> Turns, Capped: a run and its session. The locale \<open>saved_messages\<close> says what a store may do to the
    messages it saves and proves once what a run then leaves; it is interpreted on a store that keeps them
    all (Turns) and on the Redis store, which caps them (Capped). The locale \<open>message_shape\<close> has what a shape
    of message lists needs to survive the cap; it is interpreted on transcripts and on lists in which calls
    have all their results or none.
  \<^item> Markdown: markdown.go and markdown_ast.go. Render: state.go and renderer.go; the select loop reads a
    list of inputs, and the locale \<open>feed_invariant\<close> carries an invariant through it.
  \<^item> Lark: parser, commands, sender, cards and the handler of internal/lark. A turn is the agent's run
    and the renderer's loop over any inputs whose events are the emitted ones.
  \<^item> OAuth: state.go, tokens.go, store.go, server.go of internal/oauth, with base64, the sealed store,
    the refresh, the callback and its rate limiter.
  \<^item> Builtin: the five built-in tools. Mcp: client.go, adapter.go, manager.go of internal/mcp.
  \<^item> Config: config.go and dotenv.go of internal/config, and of internal/log the level and the trace
    identifier. Context: the rest of internal/log and internal/tool/context.go, the values a context carries.
  \<^item> Wiring: cmd/bot/main.go, every part built from the configuration, the shutdown and the exit status.
    History: the relation \<open>history\<close> of a program that handles one message after the other while keys expire
    and other parts write keys of their own. This theory: what holds of a program that has started.

  \<^bold>\<open>How state and effects are modelled.\<close> A struct is a record, an enumeration a datatype, an error a value
  of \<open>go_error\<close> on the left of a sum. What is outside the program is a parameter: a world of type
  \<open>'w\<close> (stores, models, tools) or \<open>'f\<close> (Feishu) passed through, and a library as a record of its calls
  on that world. Where a theorem needs more of a library than its type, the documented laws are a named
  hypothesis (\<open>redis_laws\<close>, \<open>aead_laws\<close>, \<open>expire_laws\<close>, \<open>lib_counted\<close>,
  \<open>libraries_leave_sessions\<close>), and an instance that obeys them,
  such as the in-memory Redis \<open>mr_client\<close>, is the witness. Clock readings, random bytes, the order in
  which Go goes through a map, and schedules are arguments, so a theorem holds for all of them. Integers
  that can wrap are kept at 64 bits (\<open>wrap64\<close>), IPv4 and IPv6 addresses are words.

  \<^bold>\<open>What the theorems show.\<close> Of a run: the session stays a transcript in which every call is answered,
  tool results go to their calls under every interleaving, the number of model and tool calls is
  bounded, and streams end as the loop expects. On the Redis store the session that a run saves is a window
  of a transcript, and over any history of messages and failures a session that is read back is one whose
  calls have all their results or none; the cap can drop a call and keep its results. Of a turn: it returns, releases the lock it took, and ends
  with a card and replies that hold the whole text. Of the stores: what is saved is read back, locks
  exclude each other. Of the card: the state machine's invariant, exactly when a card can be built, and
  that the last patch shows the last state. Of authorization: tokens are those that were signed, the
  limiter is a sliding window, credentials survive sealing, a refresh keeps the credential of its user or
  deletes it, and whatever requests a server gets, it stores only for users of verified tokens. Of the tools: the web tool fetches only what it may. Of configuration and start-up: set
  variables are never overwritten, .env files are read back as written, no MCP client is lost, no MCP
  server can stop the start or replace a built-in tool, and every model that can be resolved has a key that
  is set. Several theorems state what the code does where it
  differs from its contract: a card of many blocks is never built, an authorization without a refresh
  lifetime is not stored, a long duration wraps, and malformed tool arguments end the turn.

  \<^bold>\<open>Bounds and fuel.\<close> The JSON parser has fuel \<open>2 * length + 2\<close>: each call but the one into a first
  element consumes a byte. The quoted strings of a .env file have the length of the text as fuel, since a
  character takes a byte at least. \<open>BuildCardJSON\<close> is a partial function, since the code's recursion need
  not end; \<open>None\<close> there and in \<open>Handle\<close> is a call that never returns. All other recursion is structural or
  has a measure.

  \<^bold>\<open>Not modelled.\<close> Output only: the lines of the log. The type aliases of internal/agent/types.go and the
  indirection of internal/lark/json.go have no content of their own, and stdio.go and http.go of internal/mcp
  are empty. Inside libraries and so parameters: the clients of the models, the HTTP server, the Markdown
  parser, the HTTP client and its redirects, the resolver, the article extractor, the time zone database,
  YAML, AES-GCM and HMAC, Redis, the MCP transports, the Feishu clients. Cancellation of a context is an
  input of the renderer and otherwise an error of the call that it interrupts; data races inside one
  process are not modelled, the interleavings of a tool batch and of a turn with its renderer are.
\<close>

section \<open>Start-up\<close>

lemma build_app_Inr:
  assumes "build_app d cfg env w = (w', Inr a)"
  obtains srv llms reg where "oauth_setup d cfg (Getenv env) = Inr srv" "buildLLMRegistry d cfg (Getenv env) = Inr llms"
    "register_builtins (dpQuote d) (builtin_tools d cfg (Getenv env) srv) [] = Inr reg"
    "apHandler a = new_handler d cfg (register_mcp (dpQuote d) (mgr_Tools (dpOrder d (apManager a)) (apManager a)) reg) llms"
    "apServer a = srv" "apEnv a = env" "apConfig a = cfg"
    "LoadAll (dpMcp d) (map mcp_config (cfMCPServers cfg)) [] w = ((w', apManager a), None)"
proof -
  from assms obtain srv llms reg where p: "oauth_setup d cfg (Getenv env) = Inr srv" "buildLLMRegistry d cfg (Getenv env) = Inr llms"
    "register_builtins (dpQuote d) (builtin_tools d cfg (Getenv env) srv) [] = Inr reg"
    by (auto simp: build_app_def split: sum.splits)
  show ?thesis
    by (rule that [OF p]) (use assms p in \<open>auto simp: build_app_def LoadAll_def split: prod.splits\<close>)
qed

lemma startup_Inr:
  assumes "startup d cfgPath env w = (w', Inr a)"
  obtains cfg env1 w1 where "build_app d cfg env1 w1 = (w', Inr a)" "validate (dpQuote d) cfg = None"
    "fst (LoadDotenvIfExists (dpQuote d) (dpFs d) (DotenvCandidatePaths cfgPath) env) = env1"
  using assms by (auto simp: startup_def Load_def split: prod.splits sum.splits option.splits)

lemma oauth_setup_Inr:
  assumes "oauth_setup d cfg getenv = Inr srv"
  shows "(\<exists>k. Std_decode (getenv (coEncryptionKeyEnv (cfOAuth cfg))) = Some k \<and> length k = 32) \<and>
    Std_decode (getenv (coStateKeyEnv (cfOAuth cfg))) = Some (osKey srv) \<and> length (osKey srv) = 32"
  using assms by (auto simp: oauth_setup_def NewEncryptor_def NewStateSigner_def split: sum.splits if_splits option.splits)

lemma buildLLMRegistry_Inr:
  assumes "buildLLMRegistry d cfg getenv = Inr llms"
  shows "llm_Resolve llms x \<noteq> None" "llm_Get llms (cmDefaultProvider (cfLLM cfg)) \<noteq> None"
  using assms by (auto simp: buildLLMRegistry_def llm_NewRegistry_def Let_def llm_Resolve_def llm_Get_def
      llm_Default_def split: if_splits option.splits)

lemma new_handler_sel:
  "hdRegistry (new_handler d cfg reg llms) = reg" "hdLLMs (new_handler d cfg reg llms) = llms"
  by (simp_all add: new_handler_def Let_def)

definition builtin_names :: "string list" where
  "builtin_names = [''datetime'', ''web_search'', ''web_fetch'', ''feishu_doc_read'', ''feishu_doc_search'']"

lemma builtin_registered:
  assumes "register_builtins quote (builtin_tools d cfg getenv srv) [] = Inr reg" "n \<in> set builtin_names"
  shows "\<exists>t. tool_Get reg n = Some t \<and> tSource t = SourceBuiltin"
proof -
  have "n \<in> tName ` set (builtin_tools d cfg getenv srv)"
    using assms(2) builtin_tools_shape [of d cfg getenv srv] unfolding builtin_names_def by (metis set_map)
  then show ?thesis
    using register_builtins_ok [OF registry_ok_empty assms(1)] builtin_tools_shape [of d cfg getenv srv] by auto
qed

text \<open>C24 A program that starts has checked its configuration, holds two keys of 32 bytes, resolves every model
  alias to a provider, and has a registry that keeps its invariant and holds the five built-in tools, which no
  MCP server can replace.\<close>
theorem startup_sound:
  assumes "startup d cfgPath env w = (w', Inr a)"
  shows "validate (dpQuote d) (apConfig a) = None \<and>
    (\<exists>k. Std_decode (Getenv (apEnv a) (coEncryptionKeyEnv (cfOAuth (apConfig a)))) = Some k \<and> length k = 32) \<and>
    Std_decode (Getenv (apEnv a) (coStateKeyEnv (cfOAuth (apConfig a)))) = Some (osKey (apServer a)) \<and>
    length (osKey (apServer a)) = 32 \<and>
    (\<forall>x. llm_Resolve (hdLLMs (apHandler a)) x \<noteq> None) \<and>
    registry_ok (hdRegistry (apHandler a)) \<and>
    (\<forall>n \<in> set builtin_names. \<exists>t. tool_Get (hdRegistry (apHandler a)) n = Some t \<and> tSource t = SourceBuiltin)"
proof -
  from assms obtain cfg env1 w1 where b: "build_app d cfg env1 w1 = (w', Inr a)" and v: "validate (dpQuote d) cfg = None"
    by (rule startup_Inr)
  from b obtain srv llms reg where p: "oauth_setup d cfg (Getenv env1) = Inr srv" "buildLLMRegistry d cfg (Getenv env1) = Inr llms"
    and r: "register_builtins (dpQuote d) (builtin_tools d cfg (Getenv env1) srv) [] = Inr reg"
    and h: "apHandler a = new_handler d cfg (register_mcp (dpQuote d) (mgr_Tools (dpOrder d (apManager a)) (apManager a)) reg) llms"
    and a: "apServer a = srv" "apEnv a = env1" "apConfig a = cfg"
    by (rule build_app_Inr)
  have reg: "registry_ok reg" using register_builtins_ok [OF registry_ok_empty r] by simp
  show ?thesis
    using v oauth_setup_Inr [OF p(1)] buildLLMRegistry_Inr [OF p(2)] register_mcp_ok [OF reg]
      builtin_registered [OF r] by (simp add: a h new_handler_sel) blast
qed

text \<open>A program with one model, no MCP server and the in-memory Redis, whose libraries answer as simply as they can.\<close>

definition demo_key :: string where
  "demo_key = replicate 43 (CHR ''A'') @ ''=''"

definition demo_config :: config where
  "demo_config =
     \<lparr>cfServer = \<lparr>csLogLevel = ''info'', csOAuthHTTPAddr = [], csPublicBaseURL = ''https://h''\<rparr>,
      cfLark = \<lparr>clAppID = ''a'', clAppSecret = ''s'', clEncryptKey = [], clVerificationToken = [], clBotOpenID = ''ou_b''\<rparr>,
      cfRedis = \<lparr>crAddr = ''r:1'', crPassword = [], crDB = 0, crSessionTTL = 0\<rparr>,
      cfLLM = \<lparr>cmDefaultProvider = ''m'', cmMaxSteps = 12,
        cmProviders = [(''m'', \<lparr>cpType = ''openai'', cpModel = ''g'', cpAPIKeyEnv = ''K'', cpBaseURL = [],
          cpEnableThinking = False, cpMaxTokens = 0, cpTemperature = None\<rparr>)]\<rparr>,
      cfTools = [], cfMCPServers = [], cfOAuth = \<lparr>coEncryptionKeyEnv = ''E'', coStateKeyEnv = ''S'', coScopes = []\<rparr>\<rparr>"

definition demo_lark :: "'w lark_client" where
  "demo_lark = \<lparr>lcCreate = (\<lambda>_ _ _ _ w. (w, Inl DeadlineExceeded)), lcPatch = (\<lambda>_ _ w. (w, Inl DeadlineExceeded)),
     lcReply = (\<lambda>_ _ _ w. (w, Inl DeadlineExceeded))\<rparr>"

definition demo_deps :: "(mem_redis, nat, unit) deps" where
  "demo_deps =
     \<lparr>dpQuote = (\<lambda>s. s), dpFs = (\<lambda>_. NotExist),
      dpViper = \<lparr>vpRead = (\<lambda>_. Inr []), vpUnmarshal = (\<lambda>_ _ _. Inr demo_config)\<rparr>,
      dpRedis = (\<lambda>_. mr_client), dpPing = (\<lambda>_ w. (w, None)), dpExpireAt = (\<lambda>_. mr_expire), dpB64Error = (\<lambda>s. s),
      dpGCM = (\<lambda>k. Inr (csEnc mr_creds)), dpMac = demo_mac, dpStateNonce = (\<lambda>w. Inr (replicate 16 (CHR ''n''))),
      dpSealNonce = csNonce mr_creds, dpLockBytes = (\<lambda>w. Inr ''x''), dpLark = (\<lambda>_. demo_lark),
      dpLarkNotice = (\<lambda>_. demo_lark),
      dpDocs = (\<lambda>_. \<lparr>daRawContent = (\<lambda>_ _ w. (w, Inl DeadlineExceeded)), daTitle = (\<lambda>_ _ w. (w, Inl DeadlineExceeded)),
        daContent = (\<lambda>_ _ w. (w, Inl DeadlineExceeded)), daSearch = (\<lambda>_ _ w. (w, Inl DeadlineExceeded))\<rparr>),
      dpMd = plain_lib, dpPost = (\<lambda>u b w. (w, Inl DeadlineExceeded)),
      dpWeb = \<lparr>wlParse = (\<lambda>_. None), wlAddr = (\<lambda>_. None), wlLookup = (\<lambda>_ w. (w, Inl DeadlineExceeded)),
        wlGet = (\<lambda>_ _ w. (w, Inl DeadlineExceeded)), wlArticle = (\<lambda>_ _. Inl DeadlineExceeded)\<rparr>,
      dpTz = \<lparr>tlLoad = (\<lambda>_. Inr (\<lambda>_. 0)), tlParse = (\<lambda>_. Inl DeadlineExceeded)\<rparr>, dpClock = mrNow,
      dpWords = \<lparr>wdJson = Errorf, wdQuote = (\<lambda>s. s), wdQuoteC = (\<lambda>c. [c])\<rparr>, dpMarshalError = Errorf ''json'',
      dpTimeout = (\<lambda>e. e = DeadlineExceeded), dpURLPath = (\<lambda>s. Some s), 
      dpModels = \<lparr>elClaude = (\<lambda>_. Inl DeadlineExceeded), elOpenAI = (\<lambda>_. Inr (\<lambda>_ _ w. (w, Inr ([], RecvEOF)))),
        elSchema = (\<lambda>_. Inr ()), elEnds = (\<lambda>m. m)\<rparr>,
      dpMcp = \<lparr>meQuote = (\<lambda>s. s), meNum = (\<lambda>_. None),
        meLib = \<lparr>mlStdio = (\<lambda>_ _ _ w. (w, Inl DeadlineExceeded)), mlHTTP = (\<lambda>_ _ _ w. (w, Inl DeadlineExceeded)),
          mlSSE = (\<lambda>_ _ _ w. (w, Inl DeadlineExceeded))\<rparr>\<rparr>,
      dpOrder = (\<lambda>m. map fst m),
      dpStopHTTP = (\<lambda>w. (w, None)), dpCloseRedis = (\<lambda>_ w. (w, None))\<rparr>"

definition demo_environment :: "string gomap" where
  "demo_environment = [(''E'', demo_key), (''S'', demo_key), (''K'', ''sk'')]"

lemma demo_key_decodes: "\<exists>k. Std_decode demo_key = Some k \<and> length k = 32 \<and> demo_key \<noteq> []"
proof -
  have "map_option length (Std_decode demo_key) = Some 32" by code_simp
  then show ?thesis by (auto simp: demo_key_def)
qed

lemma demo_startup:
  "\<exists>a. startup demo_deps [] demo_environment mr_empty = (mr_empty, Inr a) \<and> apConfig a = demo_config \<and>
     osStore (apServer a) = mr_creds"
proof -
  obtain k where k: "Std_decode demo_key = Some k" "length k = 32" "demo_key \<noteq> []" using demo_key_decodes by blast
  have keys: "NewEncryptor (dpB64Error demo_deps) (dpGCM demo_deps) demo_key = Inr (csEnc mr_creds)"
    "NewStateSigner (dpB64Error demo_deps) demo_key = Inr k"
    using k by (simp_all add: NewEncryptor_def NewStateSigner_def) (simp add: demo_deps_def)
  have vars: "coEncryptionKeyEnv (cfOAuth demo_config) = ''E''" "coStateKeyEnv (cfOAuth demo_config) = ''S''"
    by (simp_all add: demo_config_def)
  have env: "Getenv demo_environment ''E'' = demo_key" "Getenv demo_environment ''S'' = demo_key" "Getenv demo_environment ''K'' = ''sk''"
    by (simp_all add: demo_environment_def Getenv_def LookupEnv_def)
  have "LoadDotenvIfExists (dpQuote demo_deps) (dpFs demo_deps) (DotenvCandidatePaths []) demo_environment =
      (demo_environment, Inr [])"
    by (simp add: LoadDotenvIfExists_def DotenvCandidatePaths_def demo_deps_def Let_def)
  moreover have "Load (dpQuote demo_deps) (dpViper demo_deps) demo_environment [] = Inr demo_config"
    by (simp add: Load_def demo_deps_def validate_def demo_config_def expandMap_def)
  moreover have "dpPing demo_deps (cfRedis demo_config) mr_empty = (mr_empty, None)" by (simp add: demo_deps_def)
  moreover have "\<exists>a. build_app demo_deps demo_config demo_environment mr_empty = (mr_empty, Inr a) \<and> apConfig a = demo_config \<and>
      osStore (apServer a) = mr_creds"
  proof -
    obtain srv where o: "oauth_setup demo_deps demo_config (Getenv demo_environment) = Inr srv" "osStore srv = mr_creds"
      by (simp add: oauth_setup_def vars env keys) (simp add: demo_deps_def mr_creds_def)
    obtain llms where l: "buildLLMRegistry demo_deps demo_config (Getenv demo_environment) = Inr llms"
      by (simp add: buildLLMRegistry_def llm_NewRegistry_def demo_config_def llm_profile_def profile_enabled_def
          llm_factory_def demo_deps_def NewOpenAI_def env)
    obtain r where r: "register_builtins (dpQuote demo_deps) (builtin_tools demo_deps demo_config (Getenv demo_environment) srv) []
        = Inr r" using builtins_register by blast
    have "LoadAll (dpMcp demo_deps) (map mcp_config (cfMCPServers demo_config)) [] mr_empty = ((mr_empty, []), None)"
      by (simp add: LoadAll_def demo_config_def)
    then show ?thesis by (simp add: build_app_def o l r)
  qed
  ultimately show ?thesis by (simp add: startup_def)
qed

theorem startup_sound_witness:
  "\<exists>a. startup demo_deps [] demo_environment mr_empty = (mr_empty, Inr a) \<and> registry_ok (hdRegistry (apHandler a)) \<and>
     length (osKey (apServer a)) = 32 \<and> tool_Get (hdRegistry (apHandler a)) ''web_fetch'' \<noteq> None"
proof -
  obtain a where a: "startup demo_deps [] demo_environment mr_empty = (mr_empty, Inr a)" using demo_startup by blast
  have "''web_fetch'' \<in> set builtin_names" by (simp add: builtin_names_def)
  with startup_sound [OF a] a show ?thesis by blast
qed

text \<open>C26 Whether the program starts, and with which error it stops, does not depend on the MCP servers: whatever
  their library does, start-up gives the same error or succeeds with the same configuration and keys.\<close>
theorem mcp_never_stops_startup:
  "map_sum id (\<lambda>a. (apConfig a, apEnv a, osKey (apServer a))) (snd (startup (d\<lparr>dpMcp := e\<rparr>) cfgPath env w)) =
   map_sum id (\<lambda>a. (apConfig a, apEnv a, osKey (apServer a))) (snd (startup d cfgPath env w))"
proof -
  have "llm_factory (d\<lparr>dpMcp := e\<rparr>) g = llm_factory d g" for g by (rule ext) (simp add: llm_factory_def)
  then have parts: "oauth_setup (d\<lparr>dpMcp := e\<rparr>) cfg g = oauth_setup d cfg g"
    "buildLLMRegistry (d\<lparr>dpMcp := e\<rparr>) cfg g = buildLLMRegistry d cfg g"
    "builtin_tools (d\<lparr>dpMcp := e\<rparr>) cfg g srv = builtin_tools d cfg g srv" for cfg g srv
    by (simp_all add: oauth_setup_def buildLLMRegistry_def builtin_tools_def split: sum.split)
  have "map_sum id (\<lambda>a. (apConfig a, apEnv a, osKey (apServer a))) (snd (build_app (d\<lparr>dpMcp := e\<rparr>) cfg env1 w1)) =
      map_sum id (\<lambda>a. (apConfig a, apEnv a, osKey (apServer a))) (snd (build_app d cfg env1 w1))" for cfg env1 w1
    by (auto simp: build_app_def parts LoadAll_def split: sum.splits prod.splits)
  then show ?thesis
    by (auto simp: startup_def split: sum.splits prod.splits option.splits)
qed

section \<open>The models of a started program\<close>

definition step_stream :: "'w agent \<Rightarrow> 'w run_state \<Rightarrow> 'w \<times> (go_error + stream_event list)" where
  "step_stream ag st = provStream (agProvider ag)
     (buildRequest (rsSess st) (agRegistry ag) (agPreamble ag) (agThinking ag) (rsWorld st)) (rsWorld st)"

lemma buildLLMRegistry_source:
  assumes "buildLLMRegistry d cfg getenv = Inr llms" "llm_Resolve llms x = Some P"
  shows "\<exists>ap \<in> set (cmProviders (cfLLM cfg)). llm_factory d getenv (llm_profile ap) = Inr P"
proof -
  let ?m = "register_profiles getenv (llm_factory d getenv) [] (map llm_profile (cmProviders (cfLLM cfg)))"
  have "lrProviders llms = ?m"
    using assms(1) by (auto simp: buildLLMRegistry_def llm_NewRegistry_def Let_def split: if_splits)
  then obtain k where "map_of ?m k = Some P"
    using assms(2) by (auto simp: llm_Resolve_def llm_Default_def split: if_splits)
  from register_profiles_source [OF this] show ?thesis by auto
qed

lemma llm_factory_Inr:
  assumes "llm_factory d getenv p = Inr P"
  shows "mpType p \<in> {''claude'', ''openai'', ''openai_compatible''}" "getenv (mpAPIKeyEnv p) \<noteq> []"
    "\<exists>cm. P = WrapEino (dpQuote d) (dpModels d) (mpAlias p) cm (mpEnableThinking p)"
  using assms NewClaude_Inr [of "dpQuote d" getenv "dpModels d" p P] NewOpenAI_Inr [of "dpQuote d" getenv "dpModels d" p P]
  by (auto simp: llm_factory_def split: if_splits)

lemma started_resolves:
  assumes "startup d cfgPath env w = (w', Inr a)"
  obtains P where "llm_Resolve (hdLLMs (apHandler a)) x = Some P"
proof -
  from assms obtain cfg env1 w1 where "build_app d cfg env1 w1 = (w', Inr a)" by (rule startup_Inr)
  then obtain srv llms reg where "buildLLMRegistry d cfg (Getenv env1) = Inr llms"
    "apHandler a = new_handler d cfg (register_mcp (dpQuote d) (mgr_Tools (dpOrder d (apManager a)) (apManager a)) reg) llms"
    by (rule build_app_Inr)
  with buildLLMRegistry_Inr(1) that show thesis by (fastforce simp: new_handler_sel)
qed

text \<open>C25 Every model a started program can resolve comes from a profile of a known type whose key is set, and
  bears its alias. A step of the loop on such a model is what the events of its stream make of it: the stream
  has one terminator, at its end, and the loop's guard against a missing message end is never reached.\<close>
theorem started_models:
  assumes "startup d cfgPath env w = (w', Inr a)" "llm_Resolve (hdLLMs (apHandler a)) x = Some P"
  shows "(\<exists>ap \<in> set (cmProviders (cfLLM (apConfig a))). provName P = fst ap \<and>
      cpType (snd ap) \<in> {''claude'', ''openai'', ''openai_compatible''} \<and>
      Getenv (apEnv a) (cpAPIKeyEnv (snd ap)) \<noteq> []) \<and>
    (\<forall>ag henv st st' res. agProvider ag = P \<and> run_step ag henv st = (st', res) \<longrightarrow>
      (case step_stream ag st of
         (w1, Inl err) \<Rightarrow> res = Some (Some (Wrapf ''provider stream'' err))
       | (w1, Inr evs) \<Rightarrow> ends_once evs \<and>
           (\<exists>tn. on_events ag henv evs (st\<lparr>rsWorld := w1\<rparr>) turn_init = (st', tn, res))))"
proof -
  from assms(1) obtain cfg env1 w1 where b: "build_app d cfg env1 w1 = (w', Inr a)" by (rule startup_Inr)
  from b obtain srv llms reg where l: "buildLLMRegistry d cfg (Getenv env1) = Inr llms"
    and h: "apHandler a = new_handler d cfg (register_mcp (dpQuote d) (mgr_Tools (dpOrder d (apManager a)) (apManager a)) reg) llms"
    and a: "apEnv a = env1" "apConfig a = cfg"
    by (rule build_app_Inr)
  have "llm_Resolve llms x = Some P" using assms(2) by (simp add: h new_handler_sel)
  with buildLLMRegistry_source [OF l] obtain ap where
    ap: "ap \<in> set (cmProviders (cfLLM cfg))" "llm_factory d (Getenv env1) (llm_profile ap) = Inr P" by blast
  note f = llm_factory_Inr [OF ap(2)]
  obtain cm where P: "P = WrapEino (dpQuote d) (dpModels d) (mpAlias (llm_profile ap)) cm (mpEnableThinking (llm_profile ap))"
    using f(3) by blast
  have step: "case step_stream ag st of
         (w1, Inl err) \<Rightarrow> res = Some (Some (Wrapf ''provider stream'' err))
       | (w1, Inr evs) \<Rightarrow> ends_once evs \<and> (\<exists>tn. on_events ag henv evs (st\<lparr>rsWorld := w1\<rparr>) turn_init = (st', tn, res))"
    if s: "agProvider ag = P" "run_step ag henv st = (st', res)" for ag henv st st' res
  proof -
    obtain w1 r where r: "step_stream ag st = (w1, r)" by fastforce
    show ?thesis
    proof (cases r)
      case (Inl err)
      with s r show ?thesis by (auto simp: run_step_def step_stream_def Let_def)
    next
      case (Inr evs)
      with s r show ?thesis
        using eino.step_is_its_events eino.ends unfolding step_stream_def P by auto
    qed
  qed
  have sel: "provName P = fst ap" "cpType (snd ap) = mpType (llm_profile ap)" "cpAPIKeyEnv (snd ap) = mpAPIKeyEnv (llm_profile ap)"
    by (simp_all add: P WrapEino_def llm_profile_def split: prod.split)
  show ?thesis
  proof (intro conjI allI impI)
    show "\<exists>ap \<in> set (cmProviders (cfLLM (apConfig a))). provName P = fst ap \<and>
      cpType (snd ap) \<in> {''claude'', ''openai'', ''openai_compatible''} \<and> Getenv (apEnv a) (cpAPIKeyEnv (snd ap)) \<noteq> []"
      using ap(1) f(1,2) unfolding a sel(2,3) [symmetric] by (intro bexI [of _ ap]) (simp_all only: sel simp_thms)
  next
    fix ag henv st st' res
    assume "agProvider ag = P \<and> run_step ag henv st = (st', res)"
    then show "case step_stream ag st of
         (w1, Inl err) \<Rightarrow> res = Some (Some (Wrapf ''provider stream'' err))
       | (w1, Inr evs) \<Rightarrow> ends_once evs \<and> (\<exists>tn. on_events ag henv evs (st\<lparr>rsWorld := w1\<rparr>) turn_init = (st', tn, res))"
      by (elim conjE) (rule step)
  qed
qed

theorem started_models_witness:
  "\<exists>a P. startup demo_deps [] demo_environment mr_empty = (mr_empty, Inr a) \<and>
     llm_Resolve (hdLLMs (apHandler a)) ''x'' = Some P \<and>
     (\<exists>ap \<in> set (cmProviders (cfLLM (apConfig a))). provName P = fst ap \<and> Getenv (apEnv a) (cpAPIKeyEnv (snd ap)) \<noteq> [])"
proof -
  obtain a where a: "startup demo_deps [] demo_environment mr_empty = (mr_empty, Inr a)" using demo_startup by blast
  obtain P where P: "llm_Resolve (hdLLMs (apHandler a)) ''x'' = Some P"
    using started_resolves [OF a] by blast
  from started_models [OF a P] a P show ?thesis by blast
qed

section \<open>The sessions of a started program\<close>

lemma oauth_setup_store: "oauth_setup d cfg getenv = Inr srv \<Longrightarrow> csRdb (osStore srv) = dpRedis d (cfRedis cfg)"
  by (auto simp: oauth_setup_def split: sum.splits)

lemma started_handler:
  assumes "startup d cfgPath env w = (w', Inr a)"
    and redis: "redis_laws (dpRedis d (cfRedis (apConfig a))) view" "expire_laws (osStore (apServer a)) view clock"
    and lib: "libraries_leave_sessions view d"
  shows "\<exists>st. rsRdb st = dpRedis d (cfRedis (apConfig a)) \<and>
      handler_on_redis (dpMarshalError d) (wdJson (dpWords d)) st (dpClock d) (dpLockBytes d) view (apHandler a)"
    "parts_leave_sessions view (apHandler a)"
proof -
  from assms(1) obtain cfg env1 w1 where b: "build_app d cfg env1 w1 = (w', Inr a)" by (rule startup_Inr)
  from b obtain srv llms reg where o: "oauth_setup d cfg (Getenv env1) = Inr srv"
    and l: "buildLLMRegistry d cfg (Getenv env1) = Inr llms"
    and r: "register_builtins (dpQuote d) (builtin_tools d cfg (Getenv env1) srv) [] = Inr reg"
    and h: "apHandler a = new_handler d cfg (register_mcp (dpQuote d) (mgr_Tools (dpOrder d (apManager a)) (apManager a)) reg) llms"
    and a: "apServer a = srv" "apConfig a = cfg"
    and m: "LoadAll (dpMcp d) (map mcp_config (cfMCPServers cfg)) [] w1 = ((w', apManager a), None)"
    by (rule build_app_Inr)
  have laws: "redis_laws (dpRedis d (cfRedis cfg)) view" using redis(1) a by simp
  show "\<exists>st. rsRdb st = dpRedis d (cfRedis (apConfig a)) \<and>
      handler_on_redis (dpMarshalError d) (wdJson (dpWords d)) st (dpClock d) (dpLockBytes d) view (apHandler a)"
    unfolding h a by (rule exI, rule conjI [OF _ new_handler_on_redis [OF laws]]) (simp add: NewRedisStore_def)
  have srv: "redis_laws (csRdb (osStore srv)) view" "expire_laws (osStore srv) view clock"
    using oauth_setup_store [OF o] laws redis(2) a by simp_all
  have "load_configs (dpMcp d) (map mcp_config (cfMCPServers cfg)) [] w1 = (w', apManager a)"
    using m by (simp add: LoadAll_def)
  from load_configs_leaves [OF _ _ this, where view = view] lib
  have mcp: "\<forall>s \<in> snd ` set (apManager a). \<forall>t \<in> set (mgAdapted s). tool_leaves view t"
    by (simp add: libraries_leave_sessions_def)
  have tools: "tool_leaves view t" if t: "tool_Get (hdRegistry (apHandler a)) n = Some t" for n t
  proof -
    consider "t \<in> set (mgr_Tools (dpOrder d (apManager a)) (apManager a))" | "tool_Get reg n = Some t"
      using register_mcp_from [OF t [unfolded h new_handler_sel]] by blast
    then show ?thesis
    proof cases
      case 1
      then show ?thesis by (rule mgr_Tools_leaves [OF mcp])
    next
      case 2
      with register_builtins_from [OF r] have "t \<in> set (builtin_tools d cfg (Getenv env1) srv)"
        by (fastforce simp: tool_Get_def)
      then show ?thesis by (rule builtin_tools_leave [OF lib srv])
    qed
  qed
  have models: "leaves_sessions view v (fst (provStream P req v))" if "llm_Resolve (hdLLMs (apHandler a)) x = Some P" for x P req v
  proof -
    from buildLLMRegistry_source [OF l that [unfolded h new_handler_sel]] obtain ap where
      "llm_factory d (Getenv env1) (llm_profile ap) = Inr P" by blast
    with lib show ?thesis unfolding libraries_leave_sessions_def by (elim conjE) (rule llm_factory_leaves)
  qed
  show "parts_leave_sessions view (apHandler a)"
    using tools models unfolding parts_leave_sessions_def tool_leaves_def by blast
qed

text \<open>C2 Whatever messages a started program handles one after the other, whatever fails on the way, and whatever
  keys expire or its other parts write in between: a session that is read back from Redis has at most 40 messages of the three
  roles, and from the first one that is no tool result on, the calls of an assistant message have all their
  results after it or none. The libraries are taken not to write session keys themselves.\<close>
theorem stored_sessions_sound:
  assumes "startup d cfgPath env w = (w0, Inr a)"
    and "redis_laws (dpRedis d (cfRedis (apConfig a))) view" "expire_laws (osStore (apServer a)) view clock"
    and "libraries_leave_sessions view d" "sessions_sound view w0"
    and "history view a (w0, f0) (w1, f1)"
    and "hdGet (apHandler a) key w1 = (w2, Inr (Some s))"
  shows "length (sessMessages s) \<le> 40 \<and> windowed loose (sessMessages s) \<and>
    (\<forall>m \<in> set (sessMessages s). msgRole m = ''user'' \<or> msgRole m = ''assistant'' \<or> msgRole m = ''tool'')"
proof -
  note started = started_handler [OF assms(1-4)]
  then obtain st where st: "rsRdb st = dpRedis d (cfRedis (apConfig a))"
    "handler_on_redis (dpMarshalError d) (wdJson (dpWords d)) st (dpClock d) (dpLockBytes d) view (apHandler a)" by blast
  have w1: "sessions_sound view w1" using history_sound [OF assms(6) st(2) started(2)] assms(5) by simp
  have "RedisStore_Get (wdJson (dpWords d)) st key w1 = (w2, Inr (Some s))"
    using assms(7) st(2) by (simp add: handler_on_redis_def)
  with Get_sound [OF _ this w1] assms(2) st(1)
  have "sound_messages (sessMessages s)" "length (sessMessages s) \<le> MaxMessages" by auto
  then show ?thesis
    by (auto simp: sound_messages_def MaxMessages_def RoleUser_def RoleAssistant_def RoleTool_def image_subset_iff)
qed

text \<open>The first message of a user, \<open>/model m\<close>, makes the session that is then read back.\<close>

definition demo_raw :: raw_event where
  "demo_raw = \<lparr>rwMessage = Some \<lparr>rwChatId = Some ''oc_1'', rwChatType = Some ''p2p'', rwMessageId = Some ''om_1'',
       rwMessageType = Some ''text'',
       rwContent = Some ([CHR ''{'', DQ] @ ''text'' @ [DQ, CHR '':'', DQ] @ ''/model m'' @ [DQ, CHR ''}'']),
       rwMentions = []\<rparr>, rwSender = Some \<lparr>rwSenderId = Some (Some ''ou_1'')\<rparr>\<rparr>"

lemma demo_raw_parsed: "Parse (Some (Some demo_raw)) ''ou_b'' = Some (demo_message ''/model m'')"
  by code_simp

lemma demo_libraries: "libraries_leave_sessions mr_view demo_deps"
  by (auto simp: libraries_leave_sessions_def demo_deps_def post_leaves_def web_leaves_def docs_leave_def
      models_leave_def mcp_leaves_def)

lemma demo_session_encodes:
  "\<exists>raw. session_encode (stamp_session 0 ((new_session (demo_message t) 1)\<lparr>sessProvider := p\<rparr>)) = Some raw"
proof -
  have "fmt_RFC3339 0 \<noteq> None" "fmt_RFC3339 1 \<noteq> None"
    by (auto simp: fmt_RFC3339_def date_of_def year_day_def day_ns_def split: prod.splits)
  then show ?thesis
    by (auto simp: session_encode_def session_json_def time_json_def stamp_session_def Let_def new_session_def session_zero_def
        TrimMessages_id MaxMessages_def)
qed

lemma demo_model_command:
  assumes "startup demo_deps [] demo_environment mr_empty = (mr_empty, Inr a)" "apConfig a = demo_config"
  shows "\<exists>w f s w2. on_message a demo_handle_env (Some (Some demo_raw)) mr_empty 0 = Some (w, f) \<and>
    hdGet (apHandler a) ''p2p:ou_1'' w = (w2, Inr (Some s))"
proof -
  from assms(1) obtain cfg env1 w1 where b: "build_app demo_deps cfg env1 w1 = (mr_empty, Inr a)" by (rule startup_Inr)
  then obtain srv llms reg where l: "buildLLMRegistry demo_deps cfg (Getenv env1) = Inr llms"
    and h: "apHandler a = new_handler demo_deps cfg
      (register_mcp (dpQuote demo_deps) (mgr_Tools (dpOrder demo_deps (apManager a)) (apManager a)) reg) llms"
    and cfg: "cfg = demo_config" using assms(2) by (metis build_app_Inr)
  let ?s = "(new_session (demo_message ''/model m'') 1)\<lparr>sessProvider := ''m''\<rparr>"
  obtain raw where raw: "session_encode (stamp_session 0 ?s) = Some raw" using demo_session_encodes by blast
  define w where "w = mr_put (sessionRedisKey ''p2p:ou_1'') raw (24 * 3600 * sec) mr_empty"
  have now0: "mrNow mr_empty = 0" by (simp add: mr_empty_def)
  have get: "hdGet (apHandler a) ''p2p:ou_1'' mr_empty = (mr_empty, Inr None)"
    "hdGet (apHandler a) ''p2p:ou_1'' w = (w, Inr (Some (norm_session (stamp_session 0 ?s))))"
    by (simp_all add: h new_handler_def Let_def cfg demo_deps_def demo_config_def RedisStore_Get_def NewRedisStore_def
        mr_client_def w_def session_codec [OF raw])
  have save: "hdSave (apHandler a) ''p2p:ou_1'' ?s mr_empty = (w, Some (stamp_session 0 ?s), None)"
    by (simp add: h new_handler_def Let_def cfg demo_deps_def demo_config_def RedisStore_Save_def NewRedisStore_def
        mr_client_def w_def raw now0)
  have known: "llm_Get (hdLLMs (apHandler a)) ''m'' \<noteq> None"
    using buildLLMRegistry_Inr(2) [OF l] by (simp add: h new_handler_sel cfg) (simp add: demo_config_def)
  have key: "SessionKey (demo_message t) = ''p2p:ou_1''" "sessKey (new_session (demo_message ''/model m'') 1) = ''p2p:ou_1''" for t
    by (simp_all add: SessionKey_def demo_message_def new_session_def)
  have arg: "TrimSpace ''/model m'' = ''/model m''" "TrimSpace (TrimPrefix ''/model m'' ''/model'') = ''m''" by code_simp+
  have "\<exists>t. model_command (apHandler a) 1 (demo_message ''/model m'') ''m'' mr_empty = (w, t)"
    using known by (auto simp: model_command_def key get(1) Let_def save)
  moreover have "evTextOf (demo_message ''/model m'') = ''/model m''" by (simp add: demo_message_def)
  ultimately obtain t where d: "dispatchCommand (apHandler a) 1 (demo_message ''/model m'') mr_empty = (w, Some t)"
    by (auto simp: dispatchCommand_def IsCommand_def arg)
  have "\<exists>f e. Handle (apHandler a) demo_handle_env (Some (demo_message ''/model m'')) mr_empty 0 = Some ((w, f), e)"
    using d by (auto simp: Handle_def demo_handle_env_def split: option.split prod.split) (simp_all add: demo_message_def)
  moreover have "clBotOpenID (cfLark (apConfig a)) = ''ou_b''" by (simp add: assms(2) demo_config_def)
  ultimately show ?thesis using get(2) by (fastforce simp: on_message_def demo_raw_parsed)
qed

theorem stored_sessions_sound_witness:
  "\<exists>a w1 f w2 s. startup demo_deps [] demo_environment mr_empty = (mr_empty, Inr a) \<and>
     history mr_view a (mr_empty, 0) (w1, f) \<and> hdGet (apHandler a) ''p2p:ou_1'' w1 = (w2, Inr (Some s)) \<and>
     windowed loose (sessMessages s)"
proof -
  obtain a where a: "startup demo_deps [] demo_environment mr_empty = (mr_empty, Inr a)" "apConfig a = demo_config"
    "osStore (apServer a) = mr_creds" using demo_startup by blast
  from demo_model_command [OF a(1,2)] obtain w f s w2 where m: "on_message a demo_handle_env (Some (Some demo_raw)) mr_empty 0 = Some (w, f)"
    "hdGet (apHandler a) ''p2p:ou_1'' w = (w2, Inr (Some s))" by blast
  have "valid_env (heRun demo_handle_env)" by (simp add: demo_handle_env_def demo_env_valid)
  then have hist: "history mr_view a (mr_empty, 0) (w, f)" by (rule history.message [OF history.started _ m(1)])
  have "redis_laws (dpRedis demo_deps (cfRedis (apConfig a))) mr_view" by (simp add: demo_deps_def mr_laws)
  moreover have "expire_laws (osStore (apServer a)) mr_view mrNow" using mr_creds_laws(2) a(3) by simp
  moreover have "sessions_sound mr_view mr_empty" by (simp add: sessions_sound_def redis_held_def)
  ultimately show ?thesis
    using stored_sessions_sound [OF a(1) _ _ demo_libraries _ hist m(2)] a(1) hist m(2) by blast
qed

end
